theory Spec2Isabelle
  imports Complex_Main
begin

section \<open>Numeric model\<close>

text \<open>
  The solver is a template over \<open>Dtype\<close> (float or double). The model computes in exact
  arithmetic: \<open>Dtype\<close> is \<open>real\<close>. Where the floating-point computation would
  leave the finite numbers (a NaN or an infinity, from a division by zero or a power
  outside its domain) the model stops with \<open>Not_finite\<close> instead of inventing a real
  value. A failed \<open>CHECK\<close> or \<open>LOG(FATAL)\<close> terminates the process: it is \<open>Fatal\<close>
  with the message of the source. An integer division by zero and a read or write
  outside a vector are undefined behaviour in C++; the model stops there too.
\<close>

type_synonym Dtype = real

datatype error =
    Fatal string
  | Not_finite
  | Integer_division_by_zero
  | Out_of_bounds

definition ebind :: "error + 'a \<Rightarrow> ('a \<Rightarrow> error + 'b) \<Rightarrow> error + 'b" where
  "ebind m f = (case m of Inl e \<Rightarrow> Inl e | Inr x \<Rightarrow> f x)"

text \<open>
  C++ \<open>int\<close> division truncates toward zero and \<open>%\<close> has the sign of the dividend;
  HOL's \<open>div\<close> and \<open>mod\<close> on \<open>int\<close> floor. The iteration counter and the
  configured cadences are \<open>int\<close> in the source; the model uses unbounded \<open>int\<close>, the
  counter staying below \<open>max_iter\<close>.
\<close>

definition int_div :: "int \<Rightarrow> int \<Rightarrow> int" where
  "int_div a b = sgn a * sgn b * (\<bar>a\<bar> div \<bar>b\<bar>)"

definition int_mod :: "int \<Rightarrow> int \<Rightarrow> int" where
  "int_mod a b = a - b * int_div a b"

text \<open>
  The C library's \<open>pow(x, y)\<close> on finite arguments, in exact arithmetic: a positive base
  takes any exponent; \<open>pow(0, 0) = 1\<close>, \<open>pow(0, y) = 0\<close> for positive \<open>y\<close> and a pole
  for negative \<open>y\<close>; a negative base takes integer exponents only (a domain error, NaN,
  otherwise).
\<close>

definition pow :: "real \<Rightarrow> real \<Rightarrow> error + real" where
  "pow x y =
     (if 0 < x then Inr (x powr y)
      else if x = 0 then (if y = 0 then Inr 1 else if 0 < y then Inr 0 else Inl Not_finite)
      else if y = of_int \<lfloor>y\<rfloor> then Inr (x powi \<lfloor>y\<rfloor>)
      else Inl Not_finite)"

section \<open>Configuration\<close>

text \<open>
  The fields of \<open>SolverParameter\<close> that \<open>solver.cpp\<close> reads. The message itself is
  declared in \<open>caffe.proto\<close>; an optional field is its value (the default when unset)
  and, where the source asks \<open>has_...\<close>, a flag.
\<close>

datatype SolverMode = CPU | GPU

record SolverParameter =
  test_iter :: "int list"
  test_interval :: int
  test_compute_loss :: bool
  test_initialization :: bool
  max_iter :: int
  snapshot :: int
  snapshot_prefix :: string
  snapshot_diff :: bool
  snapshot_after_train :: bool
  display :: int
  average_loss :: int
  debug_info :: bool
  solver_mode :: SolverMode
  lr_policy :: string
  base_lr :: real
  gamma :: real
  stepsize :: int
  power :: real
  momentum :: real
  weight_decay :: real
  regularization_type :: string
  delta :: real
  rms_decay :: real
  has_update_interval :: bool
  update_interval :: int

section \<open>Learning-rate schedule\<close>

text \<open>\<open>SGDSolver::GetLearningRate\<close>; the second argument is \<open>iter_\<close>.\<close>

definition GetLearningRate :: "'a SolverParameter_scheme \<Rightarrow> int \<Rightarrow> error + Dtype" where
  "GetLearningRate p iter =
     (if lr_policy p = ''fixed'' then Inr (base_lr p)
      else if lr_policy p = ''step'' then
        (if stepsize p = 0 then Inl Integer_division_by_zero
         else ebind (pow (gamma p) (of_int (int_div iter (stepsize p))))
                (\<lambda>v. Inr (base_lr p * v)))
      else if lr_policy p = ''exp'' then
        ebind (pow (gamma p) (of_int iter)) (\<lambda>v. Inr (base_lr p * v))
      else if lr_policy p = ''inv'' then
        ebind (pow (1 + gamma p * of_int iter) (- power p)) (\<lambda>v. Inr (base_lr p * v))
      else Inl (Fatal (''Unknown learning rate policy: '' @ lr_policy p)))"

section \<open>Blobs, networks and files\<close>

text \<open>
  A \<open>Blob\<close> holds two buffers of \<open>count()\<close> numbers, the values (\<open>cpu_data\<close>) and the
  gradients (\<open>cpu_diff\<close>). The constructor \<open>Blob(num, channels, height, width)\<close>
  allocates both zero-filled; the model keeps the count and leaves the four
  dimensions out.
\<close>

record Blob =
  data :: "Dtype list"
  diff :: "Dtype list"

definition count :: "Blob \<Rightarrow> nat" where
  "count b = length (data b)"

definition new_Blob :: "nat \<Rightarrow> Blob" where
  "new_Blob n = \<lparr>data = replicate n 0, diff = replicate n 0\<rparr>"

text \<open>
  \<open>Net\<close> is declared in \<open>net.hpp\<close>. The solver reads the vectors below; the layers and
  everything else a network owns is \<open>internals\<close>. A shared pointer to a blob is the
  blob's value: no function of \<open>solver.cpp\<close> writes through two names of one buffer.
\<close>

record 'x Net =
  params :: "Blob list"
  params_lr :: "real list"
  params_weight_decay :: "real list"
  blob_names :: "string list"
  blob_loss_weights :: "Dtype list"
  output_blob_indices :: "nat list"
  output_blobs :: "Blob list"
  debug_info_flag :: bool
  internals :: 'x

text \<open>
  The passes of a network are computed outside \<open>solver.cpp\<close>: they are parameters of
  the model. \<open>ForwardBackward\<close> and \<open>Forward\<close> return the loss and leave the outputs
  in \<open>output_blobs\<close>.
\<close>

record 'x NetOps =
  ForwardBackward :: "'x Net \<Rightarrow> Dtype \<times> 'x Net"
  Forward :: "'x Net \<Rightarrow> Dtype \<times> 'x Net"
  AccumulateDiff :: "'x Net \<Rightarrow> 'x Net"
  UpdateDiff :: "'x Net \<Rightarrow> 'x Net"
  Update :: "'x Net \<Rightarrow> 'x Net"

record BlobProto =
  proto_data :: "Dtype list"
  proto_diff :: "Dtype list"

type_synonym NetParameter = "BlobProto list"

record SolverState =
  state_iter :: int
  state_history :: "BlobProto list"
  learned_net :: "string option"

datatype proto_file = NetParameter_file NetParameter | SolverState_file SolverState

text \<open>
  What a run leaves behind, in order: the calls into the network (with the loss a pass
  returned) and the progress lines of \<open>LOG(INFO)\<close> about losses, outputs, rates,
  evaluation and snapshots.
\<close>

datatype event =
    Call_ForwardBackward Dtype
  | Call_AccumulateDiff
  | Call_UpdateDiff
  | Call_Forward Dtype
  | Call_Update
  | Log_Iteration_loss int Dtype
  | Log_Train_net_output nat string Dtype "Dtype option"
  | Log_Iteration_lr int Dtype
  | Log_Testing_net int nat
  | Log_Test_loss Dtype
  | Log_Test_net_output nat string Dtype "Dtype option"
  | Log_Snapshotting_to string
  | Log_Snapshotting_solver_state_to string

datatype SolverType = SGD | Nesterov | AdaGrad | AdaDelta | RMSprop

datatype Phase = TRAIN | TEST

text \<open>
  The solver object (members \<open>param_\<close>, \<open>iter_\<close>, \<open>net_\<close>, \<open>test_nets_\<close>, \<open>history_\<close>,
  \<open>update_\<close>, \<open>temp_\<close>; \<open>solver_type\<close> is its class), the process-wide \<open>Caffe\<close>
  settings it reads and writes (phase, mode, accumulate), the files and the trace.
\<close>

record 'x Solver =
  solver_type :: SolverType
  param :: SolverParameter
  iter :: int
  net :: "'x Net"
  test_nets :: "'x Net list"
  history :: "Blob list"
  update :: "Blob list"
  temp :: "Blob list"
  caffe_phase :: Phase
  caffe_mode :: SolverMode
  caffe_accumulate :: bool
  files :: "string \<Rightarrow> proto_file option"
  trace :: "event list"

definition emit :: "event \<Rightarrow> 'x Solver \<Rightarrow> 'x Solver" where
  "emit e s = s\<lparr>trace := trace s @ [e]\<rparr>"

text \<open>\<open>v[i]\<close> on a vector: outside the vector the source's behaviour is undefined.\<close>

definition vec_at :: "'a list \<Rightarrow> nat \<Rightarrow> error + 'a" where
  "vec_at xs i = (if i < length xs then Inr (xs ! i) else Inl Out_of_bounds)"

fun for_each :: "'i list \<Rightarrow> ('i \<Rightarrow> 's \<Rightarrow> error + 's) \<Rightarrow> 's \<Rightarrow> error + 's" where
  "for_each [] body s = Inr s"
| "for_each (i # rest) body s = ebind (body i s) (for_each rest body)"

fun mapE :: "('a \<Rightarrow> error + 'b) \<Rightarrow> 'a list \<Rightarrow> error + 'b list" where
  "mapE f [] = Inr []"
| "mapE f (x # xs) = ebind (f x) (\<lambda>y. ebind (mapE f xs) (\<lambda>ys. Inr (y # ys)))"

section \<open>Kernel primitives\<close>

text \<open>
  Modelled from the spec: the elementwise and linear-algebra kernels of
  \<open>math_functions.hpp\<close> (axpy, axpby, sign, copy, set, add, multiply, divide,
  elementwise power, scalar add), which the spec lists as external primitives on flat
  buffers with the same semantics on host and accelerator. A kernel called with \<open>n\<close>
  reads and writes the first \<open>n\<close> elements; every call of the solver passes the
  parameter's count, and \<open>PreSolve\<close> allocates every buffer of a parameter with that
  count.
\<close>

definition fdiv :: "Dtype \<Rightarrow> Dtype \<Rightarrow> error + Dtype" where
  "fdiv x y = (if y = 0 then Inl Not_finite else Inr (x / y))"

definition caffe_axpy :: "nat \<Rightarrow> Dtype \<Rightarrow> Dtype list \<Rightarrow> Dtype list \<Rightarrow> Dtype list" where
  "caffe_axpy n alpha X Y = map2 (\<lambda>x y. alpha * x + y) (take n X) (take n Y) @ drop n Y"

definition caffe_cpu_axpby ::
  "nat \<Rightarrow> Dtype \<Rightarrow> Dtype list \<Rightarrow> Dtype \<Rightarrow> Dtype list \<Rightarrow> Dtype list" where
  "caffe_cpu_axpby n alpha X beta Y =
     map2 (\<lambda>x y. alpha * x + beta * y) (take n X) (take n Y) @ drop n Y"

definition caffe_cpu_sign :: "nat \<Rightarrow> Dtype list \<Rightarrow> Dtype list \<Rightarrow> Dtype list" where
  "caffe_cpu_sign n X Y = map sgn (take n X) @ drop n Y"

definition caffe_copy :: "nat \<Rightarrow> Dtype list \<Rightarrow> Dtype list \<Rightarrow> Dtype list" where
  "caffe_copy n X Y = take n X @ drop n Y"

definition caffe_set :: "nat \<Rightarrow> Dtype \<Rightarrow> Dtype list \<Rightarrow> Dtype list" where
  "caffe_set n alpha Y = map (\<lambda>y. alpha) (take n Y) @ drop n Y"

definition caffe_add :: "nat \<Rightarrow> Dtype list \<Rightarrow> Dtype list \<Rightarrow> Dtype list \<Rightarrow> Dtype list" where
  "caffe_add n A B Y = map2 (\<lambda>a b. a + b) (take n A) (take n B) @ drop n Y"

definition caffe_mul :: "nat \<Rightarrow> Dtype list \<Rightarrow> Dtype list \<Rightarrow> Dtype list \<Rightarrow> Dtype list" where
  "caffe_mul n A B Y = map2 (\<lambda>a b. a * b) (take n A) (take n B) @ drop n Y"

definition caffe_add_scalar :: "nat \<Rightarrow> Dtype \<Rightarrow> Dtype list \<Rightarrow> Dtype list" where
  "caffe_add_scalar n alpha Y = map (\<lambda>y. y + alpha) (take n Y) @ drop n Y"

definition caffe_powx :: "nat \<Rightarrow> Dtype list \<Rightarrow> Dtype \<Rightarrow> Dtype list \<Rightarrow> error + Dtype list" where
  "caffe_powx n A b Y = ebind (mapE (\<lambda>a. pow a b) (take n A)) (\<lambda>v. Inr (v @ drop n Y))"

definition caffe_div ::
  "nat \<Rightarrow> Dtype list \<Rightarrow> Dtype list \<Rightarrow> Dtype list \<Rightarrow> error + Dtype list" where
  "caffe_div n A B Y =
     ebind (mapE (\<lambda>(a, b). fdiv a b) (zip (take n A) (take n B))) (\<lambda>v. Inr (v @ drop n Y))"

section \<open>Update rules\<close>

text \<open>
  \<open>SGDSolver::PreSolve\<close> and \<open>AdaDeltaSolver::PreSolve\<close>: one zero-filled buffer of the
  parameter's shape per parameter and role; AdaDelta appends a second run of history
  buffers.
\<close>

definition SGDSolver_PreSolve :: "'x Solver \<Rightarrow> 'x Solver" where
  "SGDSolver_PreSolve s =
     s\<lparr>history := map (\<lambda>net_param. new_Blob (count net_param)) (params (net s)),
       update := map (\<lambda>net_param. new_Blob (count net_param)) (params (net s)),
       temp := map (\<lambda>net_param. new_Blob (count net_param)) (params (net s))\<rparr>"

definition AdaDeltaSolver_PreSolve :: "'x Solver \<Rightarrow> 'x Solver" where
  "AdaDeltaSolver_PreSolve s =
     s\<lparr>history := map (\<lambda>net_param. new_Blob (count net_param)) (params (net s))
                   @ map (\<lambda>net_param. new_Blob (count net_param)) (params (net s)),
       update := map (\<lambda>net_param. new_Blob (count net_param)) (params (net s)),
       temp := map (\<lambda>net_param. new_Blob (count net_param)) (params (net s))\<rparr>"

definition PreSolve :: "'x Solver \<Rightarrow> 'x Solver" where
  "PreSolve s =
     (case solver_type s of
        AdaDelta \<Rightarrow> AdaDeltaSolver_PreSolve s
      | _ \<Rightarrow> SGDSolver_PreSolve s)"

text \<open>
  The buffers one pass of the loop over \<open>param_id\<close> works on: the parameter's values
  (\<open>net_params[param_id]->cpu_data()\<close>) and gradients (\<open>mutable_cpu_diff()\<close>), and the
  data of \<open>history_[param_id]\<close>, \<open>update_[param_id]\<close> and \<open>temp_[param_id]\<close>. AdaDelta
  also works on \<open>history_[update_history_offset + param_id]\<close>. A pass loads them, runs
  the kernels in the order of the source, and stores them back.
\<close>

record Workspace =
  w_data :: "Dtype list"
  w_diff :: "Dtype list"
  w_history :: "Dtype list"
  w_update :: "Dtype list"
  w_temp :: "Dtype list"

record AdaDeltaWorkspace = Workspace +
  w_update_history :: "Dtype list"

definition load :: "'x Solver \<Rightarrow> nat \<Rightarrow> Workspace" where
  "load s param_id =
     \<lparr>w_data = data (params (net s) ! param_id),
      w_diff = diff (params (net s) ! param_id),
      w_history = data (history s ! param_id),
      w_update = data (update s ! param_id),
      w_temp = data (temp s ! param_id)\<rparr>"

definition store :: "'x Solver \<Rightarrow> nat \<Rightarrow> 'a Workspace_scheme \<Rightarrow> 'x Solver" where
  "store s param_id w =
     s\<lparr>net := (net s)\<lparr>params :=
              (params (net s))[param_id := (params (net s) ! param_id)\<lparr>diff := w_diff w\<rparr>]\<rparr>,
       history := (history s)[param_id := (history s ! param_id)\<lparr>data := w_history w\<rparr>],
       update := (update s)[param_id := (update s ! param_id)\<lparr>data := w_update w\<rparr>],
       temp := (temp s)[param_id := (temp s ! param_id)\<lparr>data := w_temp w\<rparr>]\<rparr>"

definition load_AdaDelta :: "'x Solver \<Rightarrow> nat \<Rightarrow> AdaDeltaWorkspace" where
  "load_AdaDelta s param_id =
     (let update_history_offset = length (params (net s)) in
      \<lparr>w_data = data (params (net s) ! param_id),
       w_diff = diff (params (net s) ! param_id),
       w_history = data (history s ! param_id),
       w_update = data (update s ! param_id),
       w_temp = data (temp s ! param_id),
       w_update_history = data (history s ! (update_history_offset + param_id))\<rparr>)"

definition store_AdaDelta :: "'x Solver \<Rightarrow> nat \<Rightarrow> AdaDeltaWorkspace \<Rightarrow> 'x Solver" where
  "store_AdaDelta s param_id w =
     (let update_history_offset = length (params (net s));
          s = store s param_id w
      in s\<lparr>history := (history s)[update_history_offset + param_id :=
              (history s ! (update_history_offset + param_id))\<lparr>data := w_update_history w\<rparr>]\<rparr>)"

text \<open>The weight-decay block, the same text in all five rules.\<close>

definition Regularize :: "string \<Rightarrow> Dtype \<Rightarrow> 'a Workspace_scheme \<Rightarrow> error + 'a Workspace_scheme" where
  "Regularize reg_type local_decay w =
     (let n = length (w_data w) in
      if local_decay \<noteq> 0 then
        (if reg_type = ''L2'' then
           Inr (w\<lparr>w_diff := caffe_axpy n local_decay (w_data w) (w_diff w)\<rparr>)
         else if reg_type = ''L1'' then
           (let w = w\<lparr>w_temp := caffe_cpu_sign n (w_data w) (w_temp w)\<rparr>
            in Inr (w\<lparr>w_diff := caffe_axpy n local_decay (w_temp w) (w_diff w)\<rparr>))
         else Inl (Fatal (''Unknown regularization type: '' @ reg_type)))
      else Inr w)"

text \<open>The loop bodies, after \<open>local_rate\<close> and \<open>local_decay\<close> are computed.\<close>

definition SGDSolver_param ::
  "Dtype \<Rightarrow> Dtype \<Rightarrow> Dtype \<Rightarrow> string \<Rightarrow> Workspace \<Rightarrow> error + Workspace" where
  "SGDSolver_param local_rate local_decay mom reg_type w =
     ebind (Regularize reg_type local_decay w) (\<lambda>w.
       let n = length (w_data w);
           w = w\<lparr>w_history := caffe_cpu_axpby n local_rate (w_diff w) mom (w_history w)\<rparr>;
           w = w\<lparr>w_diff := caffe_copy n (w_history w) (w_diff w)\<rparr>
       in Inr w)"

definition NesterovSolver_param ::
  "Dtype \<Rightarrow> Dtype \<Rightarrow> Dtype \<Rightarrow> string \<Rightarrow> Workspace \<Rightarrow> error + Workspace" where
  "NesterovSolver_param local_rate local_decay mom reg_type w =
     (let n = length (w_data w);
          w = w\<lparr>w_update := caffe_copy n (w_history w) (w_update w)\<rparr>
      in ebind (Regularize reg_type local_decay w) (\<lambda>w.
       let w = w\<lparr>w_history := caffe_cpu_axpby n local_rate (w_diff w) mom (w_history w)\<rparr>;
           w = w\<lparr>w_update := caffe_cpu_axpby n (1 + mom) (w_history w) (- mom) (w_update w)\<rparr>;
           w = w\<lparr>w_diff := caffe_copy n (w_update w) (w_diff w)\<rparr>
       in Inr w))"

definition AdaGradSolver_param ::
  "Dtype \<Rightarrow> Dtype \<Rightarrow> Dtype \<Rightarrow> string \<Rightarrow> Workspace \<Rightarrow> error + Workspace" where
  "AdaGradSolver_param local_rate local_decay dlt reg_type w =
     (let n = length (w_data w) in
      ebind (Regularize reg_type local_decay w) (\<lambda>w.
      ebind (caffe_powx n (w_diff w) 2 (w_update w)) (\<lambda>u.
      let w = w\<lparr>w_update := u\<rparr>;
          w = w\<lparr>w_history := caffe_add n (w_update w) (w_history w) (w_history w)\<rparr>
      in
      ebind (caffe_powx n (w_history w) (1 / 2) (w_update w)) (\<lambda>u.
      let w = w\<lparr>w_update := u\<rparr>;
          w = w\<lparr>w_update := caffe_add_scalar n dlt (w_update w)\<rparr>
      in
      ebind (caffe_div n (w_diff w) (w_update w) (w_update w)) (\<lambda>u.
      let w = w\<lparr>w_update := u\<rparr>
      in Inr (w\<lparr>w_diff := caffe_cpu_axpby n local_rate (w_update w) 0 (w_diff w)\<rparr>))))))"

definition AdaDeltaSolver_param ::
  "Dtype \<Rightarrow> Dtype \<Rightarrow> Dtype \<Rightarrow> Dtype \<Rightarrow> string \<Rightarrow> AdaDeltaWorkspace
     \<Rightarrow> error + AdaDeltaWorkspace" where
  "AdaDeltaSolver_param local_rate local_decay mom dlt reg_type w =
     (let n = length (w_data w) in
      ebind (Regularize reg_type local_decay w) (\<lambda>w.
      ebind (caffe_powx n (w_diff w) 2 (w_update w)) (\<lambda>u.
      let w = w\<lparr>w_update := u\<rparr>;
          w = w\<lparr>w_history := caffe_cpu_axpby n (1 - mom) (w_update w) mom (w_history w)\<rparr>;
          w = w\<lparr>w_temp := caffe_set n dlt (w_temp w)\<rparr>;
          w = w\<lparr>w_update := caffe_add n (w_temp w) (w_update_history w) (w_update w)\<rparr>;
          w = w\<lparr>w_temp := caffe_add n (w_temp w) (w_history w) (w_temp w)\<rparr>
      in
      ebind (caffe_div n (w_update w) (w_temp w) (w_update w)) (\<lambda>u.
      let w = w\<lparr>w_update := u\<rparr>
      in
      ebind (caffe_powx n (w_update w) (1 / 2) (w_update w)) (\<lambda>u.
      let w = w\<lparr>w_update := u\<rparr>;
          w = w\<lparr>w_diff := caffe_mul n (w_diff w) (w_update w) (w_diff w)\<rparr>
      in
      ebind (caffe_powx n (w_diff w) 2 (w_update w)) (\<lambda>u.
      let w = w\<lparr>w_update := u\<rparr>;
          w = w\<lparr>w_update_history :=
                caffe_cpu_axpby n (1 - mom) (w_update w) mom (w_update_history w)\<rparr>;
          w = w\<lparr>w_temp := caffe_cpu_axpby n local_rate (w_diff w) 0 (w_temp w)\<rparr>
      in Inr (w\<lparr>w_diff := caffe_copy n (w_temp w) (w_diff w)\<rparr>)))))))"

definition RMSpropSolver_param ::
  "Dtype \<Rightarrow> Dtype \<Rightarrow> Dtype \<Rightarrow> Dtype \<Rightarrow> string \<Rightarrow> Workspace \<Rightarrow> error + Workspace" where
  "RMSpropSolver_param local_rate local_decay dlt rms reg_type w =
     (let n = length (w_data w) in
      ebind (Regularize reg_type local_decay w) (\<lambda>w.
      ebind (caffe_powx n (w_diff w) 2 (w_update w)) (\<lambda>u.
      let w = w\<lparr>w_update := u\<rparr>;
          w = w\<lparr>w_history := caffe_cpu_axpby n (1 - rms) (w_update w) rms (w_history w)\<rparr>
      in
      ebind (caffe_powx n (w_history w) (1 / 2) (w_update w)) (\<lambda>u.
      let w = w\<lparr>w_update := u\<rparr>;
          w = w\<lparr>w_update := caffe_add_scalar n dlt (w_update w)\<rparr>
      in
      ebind (caffe_div n (w_diff w) (w_update w) (w_update w)) (\<lambda>u.
      let w = w\<lparr>w_update := u\<rparr>
      in Inr (w\<lparr>w_diff := caffe_cpu_axpby n local_rate (w_update w) 0 (w_diff w)\<rparr>))))))"

text \<open>
  The five \<open>ComputeUpdateValue\<close>. The log line is written when the display is due.
  Both branches of the \<open>switch (Caffe::mode())\<close> run the same kernels in the same order,
  on the host or (in a build with accelerator support) on the accelerator.
\<close>

definition log_lr :: "Dtype \<Rightarrow> 'x Solver \<Rightarrow> 'x Solver" where
  "log_lr rate s =
     (if display (param s) \<noteq> 0 \<and> int_mod (iter s) (display (param s)) = 0
      then emit (Log_Iteration_lr (iter s) rate) s else s)"

definition SGDSolver_ComputeUpdateValue :: "'x Solver \<Rightarrow> error + 'x Solver" where
  "SGDSolver_ComputeUpdateValue s =
     ebind (GetLearningRate (param s) (iter s)) (\<lambda>rate.
     let s = log_lr rate s in
     ebind (fdiv rate (of_int (update_interval (param s)))) (\<lambda>rate.
     let wd = weight_decay (param s) * of_int (update_interval (param s));
         loop = for_each [0..<length (params (net s))] (\<lambda>param_id s.
           let local_rate = rate * params_lr (net s) ! param_id;
               local_decay = wd * params_weight_decay (net s) ! param_id
           in ebind (SGDSolver_param local_rate local_decay (momentum (param s))
                       (regularization_type (param s)) (load s param_id))
                (\<lambda>w. Inr (store s param_id w)))
     in case caffe_mode s of CPU \<Rightarrow> loop s | GPU \<Rightarrow> loop s))"

definition NesterovSolver_ComputeUpdateValue :: "'x Solver \<Rightarrow> error + 'x Solver" where
  "NesterovSolver_ComputeUpdateValue s =
     ebind (GetLearningRate (param s) (iter s)) (\<lambda>rate.
     let s = log_lr rate s in
     ebind (fdiv rate (of_int (update_interval (param s)))) (\<lambda>rate.
     let wd = weight_decay (param s) * of_int (update_interval (param s));
         loop = for_each [0..<length (params (net s))] (\<lambda>param_id s.
           let local_rate = rate * params_lr (net s) ! param_id;
               local_decay = wd * params_weight_decay (net s) ! param_id
           in ebind (NesterovSolver_param local_rate local_decay (momentum (param s))
                       (regularization_type (param s)) (load s param_id))
                (\<lambda>w. Inr (store s param_id w)))
     in case caffe_mode s of CPU \<Rightarrow> loop s | GPU \<Rightarrow> loop s))"

definition AdaGradSolver_ComputeUpdateValue :: "'x Solver \<Rightarrow> error + 'x Solver" where
  "AdaGradSolver_ComputeUpdateValue s =
     ebind (GetLearningRate (param s) (iter s)) (\<lambda>rate.
     let s = log_lr rate s;
         wd = weight_decay (param s);
         loop = for_each [0..<length (params (net s))] (\<lambda>param_id s.
           let local_rate = rate * params_lr (net s) ! param_id;
               local_decay = wd * params_weight_decay (net s) ! param_id
           in ebind (AdaGradSolver_param local_rate local_decay (delta (param s))
                       (regularization_type (param s)) (load s param_id))
                (\<lambda>w. Inr (store s param_id w)))
     in case caffe_mode s of CPU \<Rightarrow> loop s | GPU \<Rightarrow> loop s)"

definition AdaDeltaSolver_ComputeUpdateValue :: "'x Solver \<Rightarrow> error + 'x Solver" where
  "AdaDeltaSolver_ComputeUpdateValue s =
     ebind (GetLearningRate (param s) (iter s)) (\<lambda>rate.
     let s = log_lr rate s;
         wd = weight_decay (param s);
         loop = for_each [0..<length (params (net s))] (\<lambda>param_id s.
           let local_rate = rate * params_lr (net s) ! param_id;
               local_decay = wd * params_weight_decay (net s) ! param_id
           in ebind (AdaDeltaSolver_param local_rate local_decay (momentum (param s))
                       (delta (param s)) (regularization_type (param s))
                       (load_AdaDelta s param_id))
                (\<lambda>w. Inr (store_AdaDelta s param_id w)))
     in case caffe_mode s of CPU \<Rightarrow> loop s | GPU \<Rightarrow> loop s)"

definition RMSpropSolver_ComputeUpdateValue :: "'x Solver \<Rightarrow> error + 'x Solver" where
  "RMSpropSolver_ComputeUpdateValue s =
     ebind (GetLearningRate (param s) (iter s)) (\<lambda>rate.
     let s = log_lr rate s;
         wd = weight_decay (param s);
         loop = for_each [0..<length (params (net s))] (\<lambda>param_id s.
           let local_rate = rate * params_lr (net s) ! param_id;
               local_decay = wd * params_weight_decay (net s) ! param_id
           in ebind (RMSpropSolver_param local_rate local_decay (delta (param s))
                       (rms_decay (param s)) (regularization_type (param s))
                       (load s param_id))
                (\<lambda>w. Inr (store s param_id w)))
     in case caffe_mode s of CPU \<Rightarrow> loop s | GPU \<Rightarrow> loop s)"

definition ComputeUpdateValue :: "'x Solver \<Rightarrow> error + 'x Solver" where
  "ComputeUpdateValue s =
     (case solver_type s of
        SGD \<Rightarrow> SGDSolver_ComputeUpdateValue s
      | Nesterov \<Rightarrow> NesterovSolver_ComputeUpdateValue s
      | AdaGrad \<Rightarrow> AdaGradSolver_ComputeUpdateValue s
      | AdaDelta \<Rightarrow> AdaDeltaSolver_ComputeUpdateValue s
      | RMSprop \<Rightarrow> RMSpropSolver_ComputeUpdateValue s)"

section \<open>Snapshot and restore\<close>

text \<open>The \<open>%d\<close> of \<open>sprintf_s\<close>: the decimal digits, after a minus sign below zero.\<close>

fun string_of_nat :: "nat \<Rightarrow> string" where
  "string_of_nat n =
     (if n < 10 then [''0123456789'' ! n]
      else string_of_nat (n div 10) @ [''0123456789'' ! (n mod 10)])"

definition string_of_int :: "int \<Rightarrow> string" where
  "string_of_int i =
     (if i < 0 then CHR ''-'' # string_of_nat (nat (- i)) else string_of_nat (nat i))"

text \<open>
  Modelled from the spec: the serialization of blobs and networks and the file
  helpers (\<open>Blob::ToProto\<close>, \<open>Blob::FromProto\<close>, \<open>Net::ToProto\<close>,
  \<open>Net::CopyTrainedLayersFrom\<close>, \<open>Net::ShareTrainedLayersWith\<close>,
  \<open>WriteProtoToBinaryFile\<close>, \<open>ReadProtoFromBinaryFile\<close>), which are not in
  \<open>solver.cpp\<close>. The model file is the serialized parameter set, weights and, if
  asked, gradients; the state file holds the history buffers in parameter order.
  Loading a model file overwrites the weights of the network's parameters, in order,
  and nothing else; sharing copies the trained values, weights only, into the
  evaluation network. Restoring requires both files present: reading a missing file,
  or a file of the other kind, is fatal.
\<close>

definition Blob_ToProto :: "Blob \<Rightarrow> bool \<Rightarrow> BlobProto" where
  "Blob_ToProto b write_diff =
     \<lparr>proto_data = data b, proto_diff = (if write_diff then diff b else [])\<rparr>"

definition Blob_FromProto :: "Blob \<Rightarrow> BlobProto \<Rightarrow> Blob" where
  "Blob_FromProto b proto =
     b\<lparr>data := proto_data proto,
       diff := (if proto_diff proto = [] then diff b else proto_diff proto)\<rparr>"

fun overwrite_data :: "Blob list \<Rightarrow> Dtype list list \<Rightarrow> Blob list" where
  "overwrite_data [] ds = []"
| "overwrite_data (b # bs) [] = b # bs"
| "overwrite_data (b # bs) (d # ds) = b\<lparr>data := d\<rparr> # overwrite_data bs ds"

definition Net_ToProto :: "'x Net \<Rightarrow> bool \<Rightarrow> NetParameter" where
  "Net_ToProto n write_diff = map (\<lambda>b. Blob_ToProto b write_diff) (params n)"

definition Net_CopyTrainedLayersFrom :: "'x Net \<Rightarrow> NetParameter \<Rightarrow> 'x Net" where
  "Net_CopyTrainedLayersFrom n net_param =
     n\<lparr>params := overwrite_data (params n) (map proto_data net_param)\<rparr>"

definition Net_ShareTrainedLayersWith :: "'x Net \<Rightarrow> 'x Net \<Rightarrow> 'x Net" where
  "Net_ShareTrainedLayersWith n other =
     n\<lparr>params := overwrite_data (params n) (map data (params other))\<rparr>"

definition WriteProtoToBinaryFile :: "proto_file \<Rightarrow> string \<Rightarrow> 'x Solver \<Rightarrow> 'x Solver" where
  "WriteProtoToBinaryFile proto filename s = s\<lparr>files := (files s)(filename \<mapsto> proto)\<rparr>"

definition Read_SolverState :: "'x Solver \<Rightarrow> string \<Rightarrow> error + SolverState" where
  "Read_SolverState s filename =
     (case files s filename of
        Some (SolverState_file state) \<Rightarrow> Inr state
      | _ \<Rightarrow> Inl (Fatal (''File not found: '' @ filename)))"

definition Read_NetParameter :: "'x Solver \<Rightarrow> string \<Rightarrow> error + NetParameter" where
  "Read_NetParameter s filename =
     (case files s filename of
        Some (NetParameter_file net_param) \<Rightarrow> Inr net_param
      | _ \<Rightarrow> Inl (Fatal (''File not found: '' @ filename)))"

text \<open>\<open>SGDSolver::SnapshotSolverState\<close> and \<open>SGDSolver::RestoreSolverState\<close>.\<close>

definition SnapshotSolverState :: "'x Solver \<Rightarrow> SolverState \<Rightarrow> SolverState" where
  "SnapshotSolverState s state =
     state\<lparr>state_history := map (\<lambda>h. Blob_ToProto h False) (history s)\<rparr>"

definition RestoreSolverState :: "'x Solver \<Rightarrow> SolverState \<Rightarrow> error + 'x Solver" where
  "RestoreSolverState s state =
     (if length (state_history state) \<noteq> length (history s)
      then Inl (Fatal ''Incorrect length of history blobs.'')
      else Inr (s\<lparr>history := map2 Blob_FromProto (history s) (state_history state)\<rparr>))"

text \<open>\<open>Solver::Snapshot\<close> and \<open>Solver::Restore\<close>.\<close>

definition Snapshot :: "'x Solver \<Rightarrow> 'x Solver" where
  "Snapshot s =
     (let net_param = Net_ToProto (net s) (snapshot_diff (param s));
          filename = snapshot_prefix (param s) @ ''_iter_'' @ string_of_int (iter s);
          filename = filename @ ''.caffemodel'';
          s = emit (Log_Snapshotting_to filename) s;
          s = WriteProtoToBinaryFile (NetParameter_file net_param) filename s;
          state = \<lparr>state_iter = 0, state_history = [], learned_net = None\<rparr>;
          state = SnapshotSolverState s state;
          state = state\<lparr>state_iter := iter s\<rparr>;
          state = state\<lparr>learned_net := Some filename\<rparr>;
          filename = filename @ ''.solverstate'';
          s = emit (Log_Snapshotting_solver_state_to filename) s
      in WriteProtoToBinaryFile (SolverState_file state) filename s)"

definition Restore :: "'x Solver \<Rightarrow> string \<Rightarrow> error + 'x Solver" where
  "Restore s state_file =
     ebind (Read_SolverState s state_file) (\<lambda>state.
     ebind (case learned_net state of
              Some model_file \<Rightarrow>
                ebind (Read_NetParameter s model_file) (\<lambda>net_param.
                  Inr (s\<lparr>net := Net_CopyTrainedLayersFrom (net s) net_param\<rparr>))
            | None \<Rightarrow> Inr s) (\<lambda>s.
     let s = s\<lparr>iter := state_iter state\<rparr>
     in RestoreSolverState s state))"

section \<open>Evaluation pass\<close>

text \<open>
  The two vectors \<open>Solver::Test\<close> fills on the first evaluation iteration: the scores,
  one per element of every output blob, and for each score the position \<open>j\<close> of its
  output blob in \<open>result\<close>.
\<close>

definition first_scores :: "Blob list \<Rightarrow> Dtype list" where
  "first_scores result = concat (map data result)"

definition first_output_ids :: "Blob list \<Rightarrow> nat list" where
  "first_output_ids result =
     concat (map (\<lambda>j. replicate (count (result ! j)) j) [0..<length result])"

text \<open>On a later iteration the scores are added in place, \<open>test_score[idx++] += ...\<close>.\<close>

definition add_scores :: "Dtype list \<Rightarrow> Blob list \<Rightarrow> error + Dtype list" where
  "add_scores test_score result =
     (let v = concat (map data result) in
      if length v \<le> length test_score
      then Inr (map2 (\<lambda>a b. a + b) (take (length v) test_score) v @ drop (length v) test_score)
      else Inl Out_of_bounds)"

text \<open>
  The two lookups of the report loop of \<open>Solver::Test\<close>, for the score at position \<open>i\<close>:
  the name is read through \<open>test_score_output_id[i]\<close>, the loss weight through \<open>i\<close>
  itself.
\<close>

definition Test_output_name :: "'x Net \<Rightarrow> nat list \<Rightarrow> nat \<Rightarrow> error + string" where
  "Test_output_name test_net test_score_output_id i =
     ebind (vec_at test_score_output_id i) (\<lambda>j.
     ebind (vec_at (output_blob_indices test_net) j) (\<lambda>b.
     vec_at (blob_names test_net) b))"

definition Test_loss_weight :: "'x Net \<Rightarrow> nat \<Rightarrow> error + Dtype" where
  "Test_loss_weight test_net i =
     ebind (vec_at (output_blob_indices test_net) i) (\<lambda>b.
     vec_at (blob_loss_weights test_net) b)"

definition loss_msg :: "Dtype \<Rightarrow> Dtype \<Rightarrow> Dtype option" where
  "loss_msg loss_weight v = (if loss_weight \<noteq> 0 then Some (loss_weight * v) else None)"

definition Test_iteration ::
  "'x NetOps \<Rightarrow> nat \<Rightarrow> nat \<Rightarrow> 'x Solver \<times> Dtype \<times> Dtype list \<times> nat list
     \<Rightarrow> error + 'x Solver \<times> Dtype \<times> Dtype list \<times> nat list" where
  "Test_iteration ops test_net_id i st =
     (case st of (s, loss, test_score, test_score_output_id) \<Rightarrow>
      ebind (vec_at (test_nets s) test_net_id) (\<lambda>test_net.
      let (iter_loss, test_net) = Forward ops test_net;
          s = emit (Call_Forward iter_loss) (s\<lparr>test_nets := (test_nets s)[test_net_id := test_net]\<rparr>);
          result = output_blobs test_net;
          loss = (if test_compute_loss (param s) then loss + iter_loss else loss)
      in if i = 0
         then Inr (s, loss, test_score @ first_scores result,
                   test_score_output_id @ first_output_ids result)
         else ebind (add_scores test_score result) (\<lambda>test_score.
                Inr (s, loss, test_score, test_score_output_id))))"

definition Test_report ::
  "nat \<Rightarrow> int \<Rightarrow> Dtype list \<Rightarrow> nat list \<Rightarrow> nat \<Rightarrow> 'x Solver \<Rightarrow> error + 'x Solver" where
  "Test_report test_net_id n_iter test_score test_score_output_id i s =
     ebind (vec_at (test_nets s) test_net_id) (\<lambda>test_net.
     ebind (Test_output_name test_net test_score_output_id i) (\<lambda>output_name.
     ebind (Test_loss_weight test_net i) (\<lambda>loss_weight.
     ebind (fdiv (test_score ! i) (of_int n_iter)) (\<lambda>mean_score.
     Inr (emit (Log_Test_net_output i output_name mean_score
                  (loss_msg loss_weight mean_score)) s)))))"

definition Test :: "'x NetOps \<Rightarrow> nat \<Rightarrow> 'x Solver \<Rightarrow> error + 'x Solver" where
  "Test ops test_net_id s =
     (let s = emit (Log_Testing_net (iter s) test_net_id) s;
          s = s\<lparr>caffe_phase := TEST\<rparr>
      in
      ebind (vec_at (test_nets s) test_net_id) (\<lambda>test_net.
      let test_net = Net_ShareTrainedLayersWith test_net (net s);
          s = s\<lparr>test_nets := (test_nets s)[test_net_id := test_net]\<rparr>
      in
      ebind (vec_at (test_iter (param s)) test_net_id) (\<lambda>n_iter.
      ebind (for_each [0..<nat n_iter] (Test_iteration ops test_net_id) (s, 0, [], []))
        (\<lambda>(s, loss, test_score, test_score_output_id).
      ebind (if test_compute_loss (param s)
             then ebind (fdiv loss (of_int n_iter)) (\<lambda>loss. Inr (emit (Log_Test_loss loss) s))
             else Inr s) (\<lambda>s.
      ebind (for_each [0..<length test_score]
               (Test_report test_net_id n_iter test_score test_score_output_id) s) (\<lambda>s.
      Inr (s\<lparr>caffe_phase := TRAIN\<rparr>)))))))"

definition TestAll :: "'x NetOps \<Rightarrow> 'x Solver \<Rightarrow> error + 'x Solver" where
  "TestAll ops s = for_each [0..<length (test_nets s)] (Test ops) s"

section \<open>The training loop\<close>

text \<open>
  \<open>Solver::Init\<close>, as far as the solver's own settings go: the mode and the accumulate
  switch. The networks are built by \<open>InitTrainNet\<close> and \<open>InitTestNets\<close> with the \<open>Net\<close>
  constructor and are given here.
\<close>

definition Init ::
  "SolverType \<Rightarrow> SolverParameter \<Rightarrow> 'x Net \<Rightarrow> 'x Net list \<Rightarrow> (string \<Rightarrow> proto_file option)
     \<Rightarrow> 'x Solver" where
  "Init ty p train_net eval_nets fs =
     \<lparr>solver_type = ty, param = p, iter = 0, net = train_net, test_nets = eval_nets,
      history = [], update = [], temp = [], caffe_phase = TRAIN,
      caffe_mode = solver_mode p,
      caffe_accumulate =
        (if \<not> has_update_interval p \<or> update_interval p = 1 then False else True),
      files = fs, trace = []\<rparr>"

text \<open>The accumulate-only passes, \<open>for (acum_num = 0; acum_num < update_interval - 1; ++acum_num)\<close>.\<close>

fun accumulate_passes :: "'x NetOps \<Rightarrow> nat \<Rightarrow> Dtype \<times> 'x Solver \<Rightarrow> Dtype \<times> 'x Solver" where
  "accumulate_passes ops 0 (loss, s) = (loss, s)"
| "accumulate_passes ops (Suc m) (loss, s) =
     (let (l, n) = ForwardBackward ops (net s);
          s = emit (Call_ForwardBackward l) (s\<lparr>net := n\<rparr>);
          loss = loss + l;
          s = emit Call_AccumulateDiff (s\<lparr>net := AccumulateDiff ops (net s)\<rparr>)
      in accumulate_passes ops m (loss, s))"

definition train_step :: "'x NetOps \<Rightarrow> 'x Solver \<Rightarrow> error + Dtype \<times> 'x Solver" where
  "train_step ops s =
     (if \<not> caffe_accumulate s then
        (let (loss, n) = ForwardBackward ops (net s)
         in Inr (loss, emit (Call_ForwardBackward loss) (s\<lparr>net := n\<rparr>)))
      else
        (let (loss, s) = accumulate_passes ops (nat (update_interval (param s) - 1)) (0, s);
             (l, n) = ForwardBackward ops (net s);
             s = emit (Call_ForwardBackward l) (s\<lparr>net := n\<rparr>);
             loss = loss + l;
             s = emit Call_UpdateDiff (s\<lparr>net := UpdateDiff ops (net s)\<rparr>)
         in ebind (fdiv loss (of_int (update_interval (param s)))) (\<lambda>loss. Inr (loss, s))))"

text \<open>
  The smoothed loss: \<open>W\<close> is \<open>average_loss\<close> (at least 1 after the \<open>CHECK_GE\<close> of
  \<open>Solve\<close>), \<open>pass\<close> is \<open>iter_ - start_iter\<close>.
\<close>

definition update_smoothed_loss ::
  "int \<Rightarrow> int \<Rightarrow> Dtype \<Rightarrow> Dtype list \<times> Dtype \<Rightarrow> Dtype list \<times> Dtype" where
  "update_smoothed_loss W pass loss st =
     (case st of (losses, smoothed_loss) \<Rightarrow>
      if int (length losses) < W then
        (let losses = losses @ [loss];
             size = int (length losses)
         in (losses, (smoothed_loss * of_int (size - 1) + loss) / of_int size))
      else
        (let idx = nat (int_mod pass W)
         in (losses[idx := loss], smoothed_loss + (loss - losses ! idx) / of_int W)))"

text \<open>The lookups of the display branch, for output blob \<open>j\<close>.\<close>

definition Train_output_name :: "'x Net \<Rightarrow> nat \<Rightarrow> error + string" where
  "Train_output_name n j =
     ebind (vec_at (output_blob_indices n) j) (\<lambda>b. vec_at (blob_names n) b)"

definition Train_loss_weight :: "'x Net \<Rightarrow> nat \<Rightarrow> error + Dtype" where
  "Train_loss_weight n j =
     ebind (vec_at (output_blob_indices n) j) (\<lambda>b. vec_at (blob_loss_weights n) b)"

definition display_blob :: "nat \<Rightarrow> 'x Solver \<times> nat \<Rightarrow> error + 'x Solver \<times> nat" where
  "display_blob j st =
     (case st of (s, score_index) \<Rightarrow>
      let result_vec = data (output_blobs (net s) ! j) in
      ebind (Train_output_name (net s) j) (\<lambda>output_name.
      ebind (Train_loss_weight (net s) j) (\<lambda>loss_weight.
      for_each result_vec (\<lambda>v (s, score_index).
        Inr (emit (Log_Train_net_output score_index output_name v (loss_msg loss_weight v)) s,
             score_index + 1)) (s, score_index))))"

definition display_outputs :: "Dtype \<Rightarrow> 'x Solver \<Rightarrow> error + 'x Solver" where
  "display_outputs smoothed_loss s =
     (let s = emit (Log_Iteration_loss (iter s) smoothed_loss) s in
      ebind (for_each [0..<length (output_blobs (net s))] display_blob (s, 0))
        (\<lambda>(s, score_index). Inr s))"

text \<open>
  One pass of the \<open>for\<close> loop of \<open>Solver::Solve\<close>, before \<open>++iter_\<close>: the snapshot
  if one is due (\<open>Solve_iteration\<close>), then the rest of the pass (\<open>Solve_pass\<close>):
  evaluation if due, the training step, the smoothed loss, the display, the update.
\<close>

definition Solve_pass ::
  "'x NetOps \<Rightarrow> int \<Rightarrow> int \<Rightarrow> 'x Solver \<times> Dtype list \<times> Dtype
     \<Rightarrow> error + 'x Solver \<times> Dtype list \<times> Dtype" where
  "Solve_pass ops start_iter W st =
     (case st of (s, losses, smoothed_loss) \<Rightarrow>
      ebind (if test_interval (param s) \<noteq> 0
                \<and> int_mod (iter s) (test_interval (param s)) = 0
                \<and> (iter s > 0 \<or> test_initialization (param s))
             then TestAll ops s else Inr s) (\<lambda>s.
      let disp = (display (param s) \<noteq> 0 \<and> int_mod (iter s) (display (param s)) = 0);
          s = s\<lparr>net := (net s)\<lparr>debug_info_flag := (disp \<and> debug_info (param s))\<rparr>\<rparr>
      in
      ebind (train_step ops s) (\<lambda>(loss, s).
      let (losses, smoothed_loss) =
            update_smoothed_loss W (iter s - start_iter) loss (losses, smoothed_loss)
      in
      ebind (if disp then display_outputs smoothed_loss s else Inr s) (\<lambda>s.
      ebind (ComputeUpdateValue s) (\<lambda>s.
      Inr (emit Call_Update (s\<lparr>net := Update ops (net s)\<rparr>), losses, smoothed_loss))))))"

definition Solve_iteration ::
  "'x NetOps \<Rightarrow> int \<Rightarrow> int \<Rightarrow> 'x Solver \<times> Dtype list \<times> Dtype
     \<Rightarrow> error + 'x Solver \<times> Dtype list \<times> Dtype" where
  "Solve_iteration ops start_iter W st =
     (case st of (s, losses, smoothed_loss) \<Rightarrow>
      let s = (if snapshot (param s) \<noteq> 0 \<and> iter s > start_iter
                  \<and> int_mod (iter s) (snapshot (param s)) = 0
               then Snapshot s else s)
      in Solve_pass ops start_iter W (s, losses, smoothed_loss))"

section \<open>What a pass leaves unchanged\<close>

text \<open>
  The model files named by the lines "Snapshotting to ..." of a trace, in order, and
  the relation between two solver states that differ by steps that write no snapshot
  and leave the iteration counter, the configuration and the files alone.
\<close>

definition snapshots_logged :: "event list \<Rightarrow> string list" where
  "snapshots_logged tr =
     concat (map (\<lambda>e. case e of Log_Snapshotting_to f \<Rightarrow> [f] | _ \<Rightarrow> []) tr)"

definition quiet :: "'x Solver \<Rightarrow> 'x Solver \<Rightarrow> bool" where
  "quiet s s' \<longleftrightarrow>
     iter s' = iter s \<and> param s' = param s \<and> solver_type s' = solver_type s
     \<and> caffe_accumulate s' = caffe_accumulate s \<and> caffe_mode s' = caffe_mode s
     \<and> files s' = files s
     \<and> snapshots_logged (trace s') = snapshots_logged (trace s)"

lemma quiet_refl: "quiet s s"
  by (simp add: quiet_def)

lemma quiet_trans: "quiet s s' \<Longrightarrow> quiet s' s'' \<Longrightarrow> quiet s s''"
  by (simp add: quiet_def)

lemma snapshots_logged_append:
  "snapshots_logged (a @ b) = snapshots_logged a @ snapshots_logged b"
  by (simp add: snapshots_logged_def)

lemma ebind_Inr_iff: "ebind m f = Inr y \<longleftrightarrow> (\<exists>x. m = Inr x \<and> f x = Inr y)"
  by (cases m) (simp_all add: ebind_def)

lemma ebind_Inr [simp]: "ebind (Inr x) f = f x"
  by (simp add: ebind_def)

lemma ebind_Inl [simp]: "ebind (Inl e) f = Inl e"
  by (simp add: ebind_def)

lemma for_each_invariant:
  assumes "for_each xs body s = Inr s'" and "P s"
    and "\<And>i a b. i \<in> set xs \<Longrightarrow> P a \<Longrightarrow> body i a = Inr b \<Longrightarrow> P b"
  shows "P s'"
  using assms
proof (induction xs arbitrary: s)
  case Nil
  then show ?case by simp
next
  case (Cons i rest)
  from Cons.prems(1) obtain m where m: "body i s = Inr m" "for_each rest body m = Inr s'"
    by (auto simp: ebind_Inr_iff)
  have "P m" using Cons.prems(2,3) m(1) by auto
  then show ?case using Cons.IH [OF m(2)] Cons.prems(3) by auto
qed

lemma quiet_emit: "snapshots_logged [e] = [] \<Longrightarrow> quiet s (emit e s)"
  by (simp add: quiet_def emit_def snapshots_logged_append)

lemma quiet_store: "quiet s (store s i w)"
  by (simp add: quiet_def store_def)

lemma quiet_store_AdaDelta: "quiet s (store_AdaDelta s i w)"
  by (simp add: quiet_def store_AdaDelta_def store_def Let_def)

lemma quiet_log_lr: "quiet s (log_lr r s)"
  by (simp add: log_lr_def quiet_emit quiet_refl snapshots_logged_def)

lemma quiet_for_each:
  assumes "for_each xs body s = Inr s'"
    and "\<And>i a b. i \<in> set xs \<Longrightarrow> body i a = Inr b \<Longrightarrow> quiet a b"
  shows "quiet s s'"
proof -
  have "quiet s s'"
    using assms(1) quiet_refl [of s]
  proof (rule for_each_invariant [where P = "quiet s"])
    fix i a b
    assume "i \<in> set xs" "quiet s a" "body i a = Inr b"
    then show "quiet s b" using assms(2) quiet_trans by blast
  qed
  then show ?thesis .
qed

lemma quiet_param_loop:
  assumes "for_each xs (\<lambda>param_id s. ebind (f param_id s) (\<lambda>w. Inr (store s param_id w))) s = Inr s'"
  shows "quiet s s'"
  using assms
  by (rule quiet_for_each) (auto simp: ebind_Inr_iff quiet_store)

lemma quiet_param_loop_AdaDelta:
  assumes "for_each xs (\<lambda>param_id s. ebind (f param_id s) (\<lambda>w. Inr (store_AdaDelta s param_id w))) s = Inr s'"
  shows "quiet s s'"
  using assms
  by (rule quiet_for_each) (auto simp: ebind_Inr_iff quiet_store_AdaDelta)

lemma mode_case_same: "(case m of CPU \<Rightarrow> x | GPU \<Rightarrow> x) = x"
  by (cases m) simp_all

lemma quiet_SGD: "SGDSolver_ComputeUpdateValue s = Inr s' \<Longrightarrow> quiet s s'"
  unfolding SGDSolver_ComputeUpdateValue_def Let_def mode_case_same
  by (auto simp: ebind_Inr_iff dest!: quiet_param_loop intro: quiet_trans [OF quiet_log_lr])

lemma quiet_Nesterov: "NesterovSolver_ComputeUpdateValue s = Inr s' \<Longrightarrow> quiet s s'"
  unfolding NesterovSolver_ComputeUpdateValue_def Let_def mode_case_same
  by (auto simp: ebind_Inr_iff dest!: quiet_param_loop intro: quiet_trans [OF quiet_log_lr])

lemma quiet_AdaGrad: "AdaGradSolver_ComputeUpdateValue s = Inr s' \<Longrightarrow> quiet s s'"
  unfolding AdaGradSolver_ComputeUpdateValue_def Let_def mode_case_same
  by (auto simp: ebind_Inr_iff dest!: quiet_param_loop intro: quiet_trans [OF quiet_log_lr])

lemma quiet_AdaDelta: "AdaDeltaSolver_ComputeUpdateValue s = Inr s' \<Longrightarrow> quiet s s'"
  unfolding AdaDeltaSolver_ComputeUpdateValue_def Let_def mode_case_same
  by (auto simp: ebind_Inr_iff dest!: quiet_param_loop_AdaDelta
      intro: quiet_trans [OF quiet_log_lr])

lemma quiet_RMSprop: "RMSpropSolver_ComputeUpdateValue s = Inr s' \<Longrightarrow> quiet s s'"
  unfolding RMSpropSolver_ComputeUpdateValue_def Let_def mode_case_same
  by (auto simp: ebind_Inr_iff dest!: quiet_param_loop intro: quiet_trans [OF quiet_log_lr])

lemma quiet_ComputeUpdateValue: "ComputeUpdateValue s = Inr s' \<Longrightarrow> quiet s s'"
  unfolding ComputeUpdateValue_def
  by (cases "solver_type s")
     (simp_all add: quiet_SGD quiet_Nesterov quiet_AdaGrad quiet_AdaDelta quiet_RMSprop)

lemma quiet_accumulate_passes:
  "accumulate_passes ops m (loss, s) = (loss', s') \<Longrightarrow> quiet s s'"
proof (induction m arbitrary: loss s)
  case 0
  then show ?case by (simp add: quiet_refl)
next
  case (Suc m)
  obtain l n where fb: "ForwardBackward ops (net s) = (l, n)"
    by (cases "ForwardBackward ops (net s)")
  let ?s1 = "emit (Call_ForwardBackward l) (s\<lparr>net := n\<rparr>)"
  let ?s2 = "emit Call_AccumulateDiff (?s1\<lparr>net := AccumulateDiff ops (net ?s1)\<rparr>)"
  have "quiet s ?s2"
    by (simp add: quiet_def emit_def snapshots_logged_def)
  moreover have "accumulate_passes ops m (loss + l, ?s2) = (loss', s')"
    using Suc.prems fb by (simp add: Let_def)
  ultimately show ?case
    using Suc.IH quiet_trans by blast
qed

lemma quiet_train_step: "train_step ops s = Inr (loss, s') \<Longrightarrow> quiet s s'"
proof -
  assume a: "train_step ops s = Inr (loss, s')"
  show ?thesis
  proof (cases "caffe_accumulate s")
    case False
    then show ?thesis
      using a by (auto simp: train_step_def quiet_def emit_def snapshots_logged_def
          split: prod.splits)
  next
    case True
    obtain l0 s1 where ap:
      "accumulate_passes ops (nat (update_interval (param s) - 1)) (0, s) = (l0, s1)"
      by (cases "accumulate_passes ops (nat (update_interval (param s) - 1)) (0, s)")
    have q1: "quiet s s1" using ap by (rule quiet_accumulate_passes)
    have "quiet s1 s'"
      using a True ap
      by (auto simp: train_step_def quiet_def emit_def snapshots_logged_def ebind_Inr_iff
          Let_def split: prod.splits)
    with q1 show ?thesis by (rule quiet_trans)
  qed
qed


lemma quiet_for_each_fst:
  assumes "for_each xs body (s, k) = Inr (s', k')"
    and "\<And>i a ka b kb. i \<in> set xs \<Longrightarrow> body i (a, ka) = Inr (b, kb) \<Longrightarrow> quiet a b"
  shows "quiet s s'"
proof -
  have "case (s', k') of (a, _) \<Rightarrow> quiet s a"
    using assms(1)
  proof (rule for_each_invariant)
    show "case (s, k) of (a, _) \<Rightarrow> quiet s a"
      by (simp add: quiet_refl)
  next
    fix i a b
    assume "i \<in> set xs" "case a of (a, _) \<Rightarrow> quiet s a" "body i a = Inr b"
    then show "case b of (a, _) \<Rightarrow> quiet s a"
      using assms(2) by (cases a, cases b) (auto intro: quiet_trans)
  qed
  then show ?thesis by simp
qed

lemma quiet_Test_iteration:
  assumes "Test_iteration ops k i (s, loss, sc, ids) = Inr (s', loss', sc', ids')"
  shows "quiet s s'"
  using assms
  by (auto simp: Test_iteration_def ebind_Inr_iff Let_def split_beta quiet_def emit_def
      snapshots_logged_def split: if_splits)

lemma quiet_Test_report: "Test_report k n sc ids i s = Inr s' \<Longrightarrow> quiet s s'"
  by (auto simp: Test_report_def ebind_Inr_iff quiet_def emit_def snapshots_logged_def)

lemma quiet_Test:
  assumes "Test ops k s = Inr s'"
  shows "quiet s s'"
proof -
  let ?s0 = "(emit (Log_Testing_net (iter s) k) s)\<lparr>caffe_phase := TEST\<rparr>"
  from assms obtain tn n_iter s1 loss sc ids s2 s3 where
    tn: "vec_at (test_nets ?s0) k = Inr tn"
    and loop: "for_each [0..<nat n_iter] (Test_iteration ops k)
        (?s0\<lparr>test_nets := (test_nets ?s0)[k := Net_ShareTrainedLayersWith tn (net ?s0)]\<rparr>, 0, [], [])
        = Inr (s1, loss, sc, ids)"
    and lossline: "(if test_compute_loss (param s1)
        then ebind (fdiv loss (of_int n_iter)) (\<lambda>loss. Inr (emit (Log_Test_loss loss) s1))
        else Inr s1) = Inr s2"
    and report: "for_each [0..<length sc] (Test_report k n_iter sc ids) s2 = Inr s3"
    and fin: "s' = s3\<lparr>caffe_phase := TRAIN\<rparr>"
    unfolding Test_def Let_def by (auto simp: ebind_Inr_iff split: prod.splits)
  let ?s0' = "?s0\<lparr>test_nets := (test_nets ?s0)[k := Net_ShareTrainedLayersWith tn (net ?s0)]\<rparr>"
  have q0: "quiet s ?s0'"
    by (simp add: quiet_def emit_def snapshots_logged_def)
  have q1: "quiet ?s0' s1"
    using loop by (rule quiet_for_each_fst) (auto dest: quiet_Test_iteration)
  have q2: "quiet s1 s2"
    using lossline
    by (auto simp: ebind_Inr_iff quiet_def emit_def snapshots_logged_def split: if_splits)
  have q3: "quiet s2 s3"
    using report by (rule quiet_for_each) (rule quiet_Test_report)
  have q4: "quiet s3 s'"
    using fin by (simp add: quiet_def)
  show ?thesis
    using q0 q1 q2 q3 q4 quiet_trans by blast
qed

lemma quiet_TestAll:
  assumes "TestAll ops s = Inr s'"
  shows "quiet s s'"
  using assms unfolding TestAll_def by (rule quiet_for_each) (rule quiet_Test)

lemma quiet_display_blob:
  assumes "display_blob j (s, k) = Inr (s', k')"
  shows "quiet s s'"
proof -
  from assms obtain nm lw where
    "for_each (data (output_blobs (net s) ! j)) (\<lambda>v (s, score_index).
        Inr (emit (Log_Train_net_output score_index nm v (loss_msg lw v)) s, score_index + 1))
        (s, k) = Inr (s', k')"
    by (auto simp: display_blob_def ebind_Inr_iff Let_def)
  then show ?thesis
    by (rule quiet_for_each_fst) (auto simp: quiet_def emit_def snapshots_logged_def)
qed

lemma quiet_display_outputs:
  assumes "display_outputs sm s = Inr s'"
  shows "quiet s s'"
proof -
  let ?s0 = "emit (Log_Iteration_loss (iter s) sm) s"
  from assms obtain k where
    loop: "for_each [0..<length (output_blobs (net ?s0))] display_blob (?s0, 0) = Inr (s', k)"
    unfolding display_outputs_def Let_def by (auto simp: ebind_Inr_iff split: prod.splits)
  have "quiet ?s0 s'"
    using loop by (rule quiet_for_each_fst) (rule quiet_display_blob)
  moreover have "quiet s ?s0"
    by (simp add: quiet_def emit_def snapshots_logged_def)
  ultimately show ?thesis
    using quiet_trans by blast
qed

definition snapshot_filename :: "'x Solver \<Rightarrow> string" where
  "snapshot_filename s =
     snapshot_prefix (param s) @ ''_iter_'' @ string_of_int (iter s) @ ''.caffemodel''"

definition snapshot_due :: "int \<Rightarrow> 'x Solver \<Rightarrow> bool" where
  "snapshot_due start_iter s \<longleftrightarrow>
     snapshot (param s) \<noteq> 0 \<and> iter s > start_iter
     \<and> int_mod (iter s) (snapshot (param s)) = 0"

lemma Snapshot_frame:
  "iter (Snapshot s) = iter s" "param (Snapshot s) = param s"
  "solver_type (Snapshot s) = solver_type s" "net (Snapshot s) = net s"
  "history (Snapshot s) = history s" "caffe_accumulate (Snapshot s) = caffe_accumulate s"
  "caffe_mode (Snapshot s) = caffe_mode s" "caffe_phase (Snapshot s) = caffe_phase s"
  "test_nets (Snapshot s) = test_nets s"
  by (simp_all add: Snapshot_def Let_def emit_def WriteProtoToBinaryFile_def)

lemma Snapshot_logged:
  "snapshots_logged (trace (Snapshot s)) = snapshots_logged (trace s) @ [snapshot_filename s]"
  by (simp add: Snapshot_def Let_def emit_def WriteProtoToBinaryFile_def
      snapshots_logged_def snapshot_filename_def)

lemma Solve_pass_stages:
  assumes "Solve_pass ops start_iter W (s, losses, sm) = Inr (s', losses', sm')"
  obtains s1 loss s2 s3 s4 where
    "(if test_interval (param s) \<noteq> 0
         \<and> int_mod (iter s) (test_interval (param s)) = 0
         \<and> (iter s > 0 \<or> test_initialization (param s))
      then TestAll ops s else Inr s) = Inr s1"
    and "train_step ops (s1\<lparr>net := (net s1)\<lparr>debug_info_flag :=
        ((display (param s1) \<noteq> 0 \<and> int_mod (iter s1) (display (param s1)) = 0)
          \<and> debug_info (param s1))\<rparr>\<rparr>) = Inr (loss, s2)"
    and "(if display (param s1) \<noteq> 0 \<and> int_mod (iter s1) (display (param s1)) = 0
        then display_outputs
          (snd (update_smoothed_loss W (iter s2 - start_iter) loss (losses, sm))) s2
        else Inr s2) = Inr s3"
    and "ComputeUpdateValue s3 = Inr s4"
    and "s' = emit Call_Update (s4\<lparr>net := Update ops (net s4)\<rparr>)"
    and "losses' = fst (update_smoothed_loss W (iter s2 - start_iter) loss (losses, sm))"
    and "sm' = snd (update_smoothed_loss W (iter s2 - start_iter) loss (losses, sm))"
proof -
  let ?T = "if test_interval (param s) \<noteq> 0
         \<and> int_mod (iter s) (test_interval (param s)) = 0
         \<and> (iter s > 0 \<or> test_initialization (param s))
      then TestAll ops s else Inr s"
  note defs = Solve_pass_def Let_def split_beta
  obtain s1 where 1: "?T = Inr s1"
    using assms by (cases ?T) (simp_all add: defs cong: if_cong)
  let ?s1 = "s1\<lparr>net := (net s1)\<lparr>debug_info_flag :=
        ((display (param s1) \<noteq> 0 \<and> int_mod (iter s1) (display (param s1)) = 0)
          \<and> debug_info (param s1))\<rparr>\<rparr>"
  obtain loss s2 where 2: "train_step ops ?s1 = Inr (loss, s2)"
    using assms 1 by (cases "train_step ops ?s1") (auto simp: defs cong: if_cong)
  let ?D = "if display (param s1) \<noteq> 0 \<and> int_mod (iter s1) (display (param s1)) = 0
        then display_outputs
          (snd (update_smoothed_loss W (iter s2 - start_iter) loss (losses, sm))) s2
        else Inr s2"
  obtain s3 where 3: "?D = Inr s3"
    using assms 1 2 by (cases ?D) (simp_all add: defs cong: if_cong)
  obtain s4 where 4: "ComputeUpdateValue s3 = Inr s4"
    using assms 1 2 3 by (cases "ComputeUpdateValue s3") (simp_all add: defs cong: if_cong)
  have 5: "s' = emit Call_Update (s4\<lparr>net := Update ops (net s4)\<rparr>)"
    "losses' = fst (update_smoothed_loss W (iter s2 - start_iter) loss (losses, sm))"
    "sm' = snd (update_smoothed_loss W (iter s2 - start_iter) loss (losses, sm))"
    using assms 1 2 3 4 by (simp_all add: defs cong: if_cong)
  show ?thesis
    using 1 2 3 4 5 by (rule that)
qed

lemma Solve_pass_quiet:
  assumes "Solve_pass ops start_iter W (s, losses, sm) = Inr (s', losses', sm')"
  shows "quiet s s'"
proof -
  from assms obtain s1 loss s2 s3 s4 where
    t: "(if test_interval (param s) \<noteq> 0
                \<and> int_mod (iter s) (test_interval (param s)) = 0
                \<and> (iter s > 0 \<or> test_initialization (param s))
             then TestAll ops s else Inr s) = Inr s1"
    and f: "train_step ops (s1\<lparr>net := (net s1)\<lparr>debug_info_flag :=
        ((display (param s1) \<noteq> 0 \<and> int_mod (iter s1) (display (param s1)) = 0)
          \<and> debug_info (param s1))\<rparr>\<rparr>) = Inr (loss, s2)"
    and d: "(if display (param s1) \<noteq> 0 \<and> int_mod (iter s1) (display (param s1)) = 0
        then display_outputs
          (snd (update_smoothed_loss W (iter s2 - start_iter) loss (losses, sm))) s2
        else Inr s2) = Inr s3"
    and c: "ComputeUpdateValue s3 = Inr s4"
    and u: "s' = emit Call_Update (s4\<lparr>net := Update ops (net s4)\<rparr>)"
    by (rule Solve_pass_stages)
  have q1: "quiet s s1"
    using t by (auto dest: quiet_TestAll simp: quiet_refl split: if_splits)
  have q2: "quiet s1 s2"
    using quiet_train_step [OF f] by (simp add: quiet_def)
  have q3: "quiet s2 s3"
    using d by (auto dest: quiet_display_outputs simp: quiet_refl split: if_splits)
  have q4: "quiet s3 s4"
    using c by (rule quiet_ComputeUpdateValue)
  have q5: "quiet s4 s'"
    using u by (simp add: quiet_def emit_def snapshots_logged_def)
  show ?thesis
    using q1 q2 q3 q4 q5 quiet_trans by blast
qed


lemma Solve_iteration_effect:
  assumes "Solve_iteration ops start_iter W (s, losses, sm) = Inr (s', losses', sm')"
  shows "iter s' = iter s \<and> param s' = param s \<and> solver_type s' = solver_type s
    \<and> caffe_accumulate s' = caffe_accumulate s \<and> caffe_mode s' = caffe_mode s
    \<and> snapshots_logged (trace s') = snapshots_logged (trace s)
         @ (if snapshot_due start_iter s then [snapshot_filename s] else [])"
proof (cases "snapshot_due start_iter s")
  case True
  then have "Solve_pass ops start_iter W (Snapshot s, losses, sm) = Inr (s', losses', sm')"
    using assms by (simp add: Solve_iteration_def snapshot_due_def)
  then have "quiet (Snapshot s) s'"
    by (rule Solve_pass_quiet)
  then show ?thesis
    using True by (simp add: quiet_def Snapshot_frame Snapshot_logged)
next
  case False
  then have "Solve_pass ops start_iter W (s, losses, sm) = Inr (s', losses', sm')"
    using assms by (auto simp: Solve_iteration_def snapshot_due_def)
  then have "quiet s s'"
    by (rule Solve_pass_quiet)
  then show ?thesis
    using False by (simp add: quiet_def)
qed

section \<open>The loop and \<open>Solver::Solve\<close>\<close>

text \<open>
  \<open>for (; iter_ < param_.max_iter(); ++iter_)\<close>: no pass changes the counter or the
  configuration, so the distance to \<open>max_iter\<close> decreases.
\<close>

function Solve_loop ::
  "'x NetOps \<Rightarrow> int \<Rightarrow> int \<Rightarrow> 'x Solver \<times> Dtype list \<times> Dtype
     \<Rightarrow> error + 'x Solver \<times> Dtype list \<times> Dtype" where
  "Solve_loop ops start_iter W (s, losses, smoothed_loss) =
     (if iter s < max_iter (param s) then
        (case Solve_iteration ops start_iter W (s, losses, smoothed_loss) of
           Inl e \<Rightarrow> Inl e
         | Inr (s, losses, smoothed_loss) \<Rightarrow>
             Solve_loop ops start_iter W (s\<lparr>iter := iter s + 1\<rparr>, losses, smoothed_loss))
      else Inr (s, losses, smoothed_loss))"
  by pat_completeness auto
termination
proof (relation "measure (\<lambda>(ops, start_iter, W, s, losses, smoothed_loss).
    nat (max_iter (param s) - iter s))")
  show "wf (measure (\<lambda>(ops, start_iter, W, s, losses, smoothed_loss).
    nat (max_iter (param s) - iter s)))"
    by simp
next
  fix ops :: "'x NetOps" and start_iter W s losses smoothed_loss x2 x y xa ya
  assume "iter s < max_iter (param s)"
    and "Solve_iteration ops start_iter W (s, losses, smoothed_loss) = Inr x2"
    and "(x, y) = x2" and "(xa, ya) = y"
  then show "((ops, start_iter, W, x\<lparr>iter := iter x + 1\<rparr>, xa, ya),
         ops, start_iter, W, s, losses, smoothed_loss)
        \<in> measure (\<lambda>(ops, start_iter, W, s, losses, smoothed_loss).
            nat (max_iter (param s) - iter s))"
    using Solve_iteration_effect [of ops start_iter W s losses smoothed_loss x xa ya]
    by auto
qed

declare Solve_loop.simps [simp del]

definition Solve :: "'x NetOps \<Rightarrow> string option \<Rightarrow> 'x Solver \<Rightarrow> error + 'x Solver" where
  "Solve ops resume_file s =
     (let s = s\<lparr>caffe_phase := TRAIN\<rparr>;
          s = PreSolve s;
          s = s\<lparr>iter := 0\<rparr>
      in
      ebind (case resume_file of Some f \<Rightarrow> Restore s f | None \<Rightarrow> Inr s) (\<lambda>s.
      let start_iter = iter s;
          W = average_loss (param s)
      in
      if W < 1 then Inl (Fatal ''Check failed: average_loss >= 1 average_cost should be non-negative.'')
      else
      ebind (Solve_loop ops start_iter W (s, [], 0)) (\<lambda>(s, losses, smoothed_loss).
      let s = (if snapshot_after_train (param s) then Snapshot s else s);
          s = (if display (param s) \<noteq> 0 \<and> int_mod (iter s) (display (param s)) = 0
               then (let (loss, n) = Forward ops (net s);
                         s = emit (Call_Forward loss) (s\<lparr>net := n\<rparr>)
                     in emit (Log_Iteration_loss (iter s) loss) s)
               else s)
      in
      if test_interval (param s) \<noteq> 0 \<and> int_mod (iter s) (test_interval (param s)) = 0
      then TestAll ops s else Inr s)))"


section \<open>A small solver for the closed examples\<close>

text \<open>
  A configuration, and a network of one parameter with one weight. Its passes are
  stand-ins for the network code: pass number \<open>k\<close> (counted in \<open>internals\<close>) reports the
  loss \<open>k\<close> and leaves the weight as the gradient; \<open>Update\<close> subtracts the update from
  the weight.
\<close>

definition example_param :: SolverParameter where
  "example_param =
     \<lparr>test_iter = [], test_interval = 0, test_compute_loss = False,
      test_initialization = True, max_iter = 5, snapshot = 2, snapshot_prefix = ''m'',
      snapshot_diff = False, snapshot_after_train = True, display = 0, average_loss = 1,
      debug_info = False, solver_mode = CPU, lr_policy = ''fixed'', base_lr = 1 / 10,
      gamma = 1 / 2, stepsize = 2, power = 1, momentum = 1 / 2, weight_decay = 0,
      regularization_type = ''L2'', delta = 1, rms_decay = 1 / 2,
      has_update_interval = False, update_interval = 1\<rparr>"

definition example_net :: "nat Net" where
  "example_net =
     \<lparr>params = [\<lparr>data = [1], diff = [0]\<rparr>], params_lr = [1], params_weight_decay = [1],
      blob_names = [''loss''], blob_loss_weights = [1], output_blob_indices = [0],
      output_blobs = [\<lparr>data = [0], diff = [0]\<rparr>], debug_info_flag = False,
      internals = 0\<rparr>"

definition example_ops :: "nat NetOps" where
  "example_ops =
     \<lparr>ForwardBackward = (\<lambda>n. (of_nat (internals n) + 1,
         n\<lparr>params := map (\<lambda>b. b\<lparr>diff := data b\<rparr>) (params n),
           internals := Suc (internals n)\<rparr>)),
      Forward = (\<lambda>n. (of_nat (internals n) + 1, n)),
      AccumulateDiff = (\<lambda>n. n),
      UpdateDiff = (\<lambda>n. n),
      Update = (\<lambda>n. n\<lparr>params :=
         map (\<lambda>b. b\<lparr>data := map2 (\<lambda>x y. x - y) (data b) (diff b)\<rparr>) (params n)\<rparr>)\<rparr>"

definition example_solver :: "nat Solver" where
  "example_solver = Init SGD example_param example_net [] Map.empty"

section \<open>The loop and the smoothed loss\<close>






section \<open>Facts about the numeric model\<close>







section \<open>Claims\<close>




section \<open>The window of the smoothed loss\<close>


















section \<open>The training step of a pass\<close>

lemma accumulate_passes_trace:
  "accumulate_passes ops m (loss, s) = (loss', s') \<Longrightarrow>
     \<exists>ls. length ls = m
       \<and> trace s' = trace s
            @ concat (map (\<lambda>l. [Call_ForwardBackward l, Call_AccumulateDiff]) ls)
       \<and> loss' = loss + sum_list ls \<and> param s' = param s"
proof (induction m arbitrary: loss s)
  case 0
  then show ?case by simp
next
  case (Suc m)
  obtain l n where fb: "ForwardBackward ops (net s) = (l, n)"
    by (cases "ForwardBackward ops (net s)")
  let ?s1 = "emit (Call_ForwardBackward l) (s\<lparr>net := n\<rparr>)"
  let ?s2 = "emit Call_AccumulateDiff (?s1\<lparr>net := AccumulateDiff ops (net ?s1)\<rparr>)"
  have "accumulate_passes ops m (loss + l, ?s2) = (loss', s')"
    using Suc.prems fb by (simp add: Let_def)
  then obtain ls where ls: "length ls = m"
    "trace s' = trace ?s2 @ concat (map (\<lambda>l. [Call_ForwardBackward l, Call_AccumulateDiff]) ls)"
    "loss' = loss + l + sum_list ls" "param s' = param ?s2"
    using Suc.IH by blast
  have "length (l # ls) = Suc m" using ls(1) by simp
  moreover have "trace s' = trace s
      @ concat (map (\<lambda>l. [Call_ForwardBackward l, Call_AccumulateDiff]) (l # ls))"
    using ls(2) by (simp add: emit_def)
  moreover have "loss' = loss + sum_list (l # ls)" using ls(3) by simp
  moreover have "param s' = param s" using ls(4) by (simp add: emit_def)
  ultimately show ?case by blast
qed

lemma Init_accumulate:
  "caffe_accumulate (Init ty p n tn fs) \<longleftrightarrow> has_update_interval p \<and> update_interval p \<noteq> 1"
  by (simp add: Init_def)

definition example_accumulating :: "int \<Rightarrow> nat Solver" where
  "example_accumulating k =
     Init SGD (example_param\<lparr>has_update_interval := True, update_interval := k\<rparr>)
       example_net [] Map.empty"

text \<open>
  C4 (amended). \<open>Init\<close> switches accumulation on exactly when \<open>update_interval\<close> is set
  and differs from 1. A pass of a solver with that switch: if \<open>update_interval\<close> is unset
  or equal to 1 it makes exactly one forward+backward call and reports its loss; if it
  is set to \<open>k > 1\<close> it makes exactly \<open>k\<close> forward+backward calls, the first \<open>k - 1\<close> each
  followed by \<open>AccumulateDiff\<close>, the last followed by \<open>UpdateDiff\<close>, with no parameter
  update among them, and reports the sum of the \<open>k\<close> losses divided by \<open>k\<close>.
\<close>

theorem train_step_passes:
  "(caffe_accumulate (Init ty p n tn fs) \<longleftrightarrow> has_update_interval p \<and> update_interval p \<noteq> 1)
   \<and> ((caffe_accumulate s \<longleftrightarrow> has_update_interval (param s) \<and> update_interval (param s) \<noteq> 1) \<longrightarrow>
       (\<not> has_update_interval (param s) \<or> update_interval (param s) = 1 \<longrightarrow>
          (\<exists>s'. train_step ops s = Inr (fst (ForwardBackward ops (net s)), s')
             \<and> trace s' = trace s @ [Call_ForwardBackward (fst (ForwardBackward ops (net s)))]))
     \<and> (has_update_interval (param s) \<and> 1 < update_interval (param s) \<longrightarrow>
          (\<exists>ls s'. length ls = nat (update_interval (param s))
             \<and> train_step ops s
                 = Inr (sum_list ls / of_int (update_interval (param s)), s')
             \<and> trace s' = trace s
                 @ concat (map (\<lambda>l. [Call_ForwardBackward l, Call_AccumulateDiff]) (butlast ls))
                 @ [Call_ForwardBackward (last ls), Call_UpdateDiff])))"
proof (intro conjI impI)
  show "caffe_accumulate (Init ty p n tn fs) \<longleftrightarrow> has_update_interval p \<and> update_interval p \<noteq> 1"
    by (rule Init_accumulate)
next
  assume acc: "caffe_accumulate s \<longleftrightarrow>
      has_update_interval (param s) \<and> update_interval (param s) \<noteq> 1"
    and one: "\<not> has_update_interval (param s) \<or> update_interval (param s) = 1"
  then have "\<not> caffe_accumulate s" by auto
  then show "\<exists>s'. train_step ops s = Inr (fst (ForwardBackward ops (net s)), s')
      \<and> trace s' = trace s @ [Call_ForwardBackward (fst (ForwardBackward ops (net s)))]"
    by (simp add: train_step_def split_beta emit_def)
next
  assume acc: "caffe_accumulate s \<longleftrightarrow>
      has_update_interval (param s) \<and> update_interval (param s) \<noteq> 1"
    and k: "has_update_interval (param s) \<and> 1 < update_interval (param s)"
  let ?k = "update_interval (param s)"
  have on: "caffe_accumulate s" using acc k by auto
  obtain l0 s1 where ap: "accumulate_passes ops (nat (?k - 1)) (0, s) = (l0, s1)"
    by (cases "accumulate_passes ops (nat (?k - 1)) (0, s)")
  then obtain ls where ls: "length ls = nat (?k - 1)"
    "trace s1 = trace s @ concat (map (\<lambda>l. [Call_ForwardBackward l, Call_AccumulateDiff]) ls)"
    "l0 = sum_list ls" "param s1 = param s"
    using accumulate_passes_trace [OF ap] by auto
  obtain l n1 where fb: "ForwardBackward ops (net s1) = (l, n1)"
    by (cases "ForwardBackward ops (net s1)")
  let ?s2 = "emit (Call_ForwardBackward l) (s1\<lparr>net := n1\<rparr>)"
  let ?s3 = "emit Call_UpdateDiff (?s2\<lparr>net := UpdateDiff ops (net ?s2)\<rparr>)"
  have run: "train_step ops s = Inr ((l0 + l) / of_int ?k, ?s3)"
    using on ap fb ls(4) k by (simp add: train_step_def Let_def fdiv_def emit_def)
  have "length (ls @ [l]) = nat ?k" using ls(1) k by (simp add: nat_diff_distrib Suc_nat_eq_nat_zadd1)
  moreover have "train_step ops s = Inr (sum_list (ls @ [l]) / of_int ?k, ?s3)"
    using run ls(3) by simp
  moreover have "trace ?s3 = trace s
      @ concat (map (\<lambda>l. [Call_ForwardBackward l, Call_AccumulateDiff]) (butlast (ls @ [l])))
      @ [Call_ForwardBackward (last (ls @ [l])), Call_UpdateDiff]"
    using ls(2) by (simp add: emit_def)
  ultimately show "\<exists>ls s'. length ls = nat ?k
      \<and> train_step ops s = Inr (sum_list ls / of_int ?k, s')
      \<and> trace s' = trace s
          @ concat (map (\<lambda>l. [Call_ForwardBackward l, Call_AccumulateDiff]) (butlast ls))
          @ [Call_ForwardBackward (last ls), Call_UpdateDiff]"
    by blast
qed

theorem train_step_passes_witness:
  "\<not> caffe_accumulate example_solver
   \<and> map_sum id (\<lambda>(loss, s). (loss, trace s)) (train_step example_ops example_solver)
       = Inr (1, [Call_ForwardBackward 1])
   \<and> caffe_accumulate (example_accumulating 3)
   \<and> map_sum id (\<lambda>(loss, s). (loss, trace s))
        (train_step example_ops (example_accumulating 3))
       = Inr (2, [Call_ForwardBackward 1, Call_AccumulateDiff,
                  Call_ForwardBackward 2, Call_AccumulateDiff,
                  Call_ForwardBackward 3, Call_UpdateDiff])"
proof -
  have unset: "\<not> has_update_interval (param example_solver)"
    and set3: "has_update_interval (param (example_accumulating 3))"
      "update_interval (param (example_accumulating 3)) = 3"
    by (simp_all add: example_solver_def example_accumulating_def Init_def example_param_def)
  have a: "\<not> caffe_accumulate example_solver"
    using train_step_passes [where ty = SGD and p = example_param and n = example_net
        and tn = "[]" and fs = Map.empty and s = example_solver and ops = example_ops]
    by (simp add: example_solver_def example_param_def)
  have b: "caffe_accumulate (example_accumulating 3)"
    using train_step_passes [where ty = SGD
        and p = "example_param\<lparr>has_update_interval := True, update_interval := 3\<rparr>"
        and n = example_net and tn = "[]" and fs = Map.empty and s = example_solver
        and ops = example_ops]
    by (simp add: example_accumulating_def)
  have "\<exists>s'. train_step example_ops example_solver
        = Inr (fst (ForwardBackward example_ops (net example_solver)), s')
      \<and> trace s' = trace example_solver
          @ [Call_ForwardBackward (fst (ForwardBackward example_ops (net example_solver)))]"
    using train_step_passes [where ty = SGD and p = example_param and n = example_net
        and tn = "[]" and fs = Map.empty and s = example_solver and ops = example_ops]
      a unset
    by simp
  moreover have "fst (ForwardBackward example_ops (net example_solver)) = 1"
    "trace example_solver = []"
    by (simp_all add: example_solver_def Init_def example_ops_def example_net_def)
  ultimately have one: "map_sum id (\<lambda>(loss, s). (loss, trace s))
      (train_step example_ops example_solver) = Inr (1, [Call_ForwardBackward 1])"
    by auto
  have "\<exists>ls s'. length ls = nat 3
      \<and> train_step example_ops (example_accumulating 3) = Inr (sum_list ls / of_int 3, s')
      \<and> trace s' = trace (example_accumulating 3)
          @ concat (map (\<lambda>l. [Call_ForwardBackward l, Call_AccumulateDiff]) (butlast ls))
          @ [Call_ForwardBackward (last ls), Call_UpdateDiff]"
    using train_step_passes [where ty = SGD and p = example_param and n = example_net
        and tn = "[]" and fs = Map.empty and s = "example_accumulating 3"
        and ops = example_ops]
      b set3
    by simp
  then have "\<not> isl (train_step example_ops (example_accumulating 3))"
    by auto
  moreover have "map_sum id (\<lambda>(loss, s). (loss, trace s))
      (train_step example_ops (example_accumulating 3))
       = Inr (2, [Call_ForwardBackward 1, Call_AccumulateDiff,
                  Call_ForwardBackward 2, Call_AccumulateDiff,
                  Call_ForwardBackward 3, Call_UpdateDiff])"
    by code_simp
  ultimately show ?thesis
    using a b one by simp
qed

text \<open>
  C4 as stated also covers a set \<open>update_interval\<close> below 1. There the pass accumulates:
  with 0 the reported loss is the loss divided by zero, with \<open>-1\<close> it is the negated
  loss, and \<open>UpdateDiff\<close> runs after the one forward+backward call.
\<close>

theorem train_step_interval_below_one:
  "has_update_interval (param (example_accumulating 0))
   \<and> update_interval (param (example_accumulating 0)) \<le> 1
   \<and> map_sum id (\<lambda>(loss, s). (loss, trace s))
        (train_step example_ops (example_accumulating 0))
       = Inl Not_finite
   \<and> has_update_interval (param (example_accumulating (- 1)))
   \<and> update_interval (param (example_accumulating (- 1))) \<le> 1
   \<and> fst (ForwardBackward example_ops (net (example_accumulating (- 1)))) = 1
   \<and> map_sum id (\<lambda>(loss, s). (loss, trace s))
        (train_step example_ops (example_accumulating (- 1)))
       = Inr (- 1, [Call_ForwardBackward 1, Call_UpdateDiff])"
  by code_simp

section \<open>Snapshots of a run\<close>


text \<open>
  The model file a snapshot at iteration \<open>i\<close> writes, and the passes from \<open>first\<close> on
  that start with a snapshot: the iteration is a multiple of the cadence and is above
  \<open>start_iter\<close>.
\<close>

definition snapshot_name :: "SolverParameter \<Rightarrow> int \<Rightarrow> string" where
  "snapshot_name p i = snapshot_prefix p @ ''_iter_'' @ string_of_int i @ ''.caffemodel''"






lemma PreSolve_frame2:
  "trace (PreSolve s) = trace s" "files (PreSolve s) = files s" "net (PreSolve s) = net s"
  "solver_type (PreSolve s) = solver_type s"
  by (cases "solver_type s";
      simp add: PreSolve_def SGDSolver_PreSolve_def AdaDeltaSolver_PreSolve_def)+




text \<open>
  The state a run of two iterations leaves: its final snapshot is
  \<open>m_iter_2.caffemodel\<close> with its state file. \<open>example_resumed\<close> is a fresh solver
  of the same configuration that finds these files.
\<close>

definition example_checkpoint :: "nat Solver" where
  "example_checkpoint =
     (case Solve example_ops None (example_solver\<lparr>param := example_param\<lparr>max_iter := 2\<rparr>\<rparr>) of
        Inr s \<Rightarrow> s
      | Inl e \<Rightarrow> example_solver)"

definition example_resumed :: "nat Solver" where
  "example_resumed = Init SGD example_param example_net [] (files example_checkpoint)"




section \<open>What an evaluation pass leaves unchanged\<close>

text \<open>
  Two solver states that differ by evaluation steps only: the training network, the
  solver's buffers, the counter, the configuration and the files are the same.
\<close>

definition eval_frame :: "'x Solver \<Rightarrow> 'x Solver \<Rightarrow> bool" where
  "eval_frame s s' \<longleftrightarrow>
     net s' = net s \<and> history s' = history s \<and> update s' = update s \<and> temp s' = temp s
     \<and> iter s' = iter s \<and> param s' = param s \<and> files s' = files s
     \<and> length (test_nets s') = length (test_nets s)"

lemma eval_frame_refl: "eval_frame s s"
  by (simp add: eval_frame_def)

lemma eval_frame_trans: "eval_frame s s' \<Longrightarrow> eval_frame s' s'' \<Longrightarrow> eval_frame s s''"
  by (simp add: eval_frame_def)

lemma eval_frame_Test_iteration:
  assumes "Test_iteration ops k i (s, loss, sc, ids) = Inr (s', loss', sc', ids')"
  shows "eval_frame s s'"
  using assms
  by (auto simp: Test_iteration_def ebind_Inr_iff Let_def split_beta eval_frame_def emit_def
      split: if_splits)

lemma eval_frame_Test_report: "Test_report k n sc ids i s = Inr s' \<Longrightarrow> eval_frame s s'"
  by (auto simp: Test_report_def ebind_Inr_iff eval_frame_def emit_def)

lemma eval_frame_for_each:
  assumes "for_each xs body s = Inr s'"
    and "\<And>i a b. i \<in> set xs \<Longrightarrow> body i a = Inr b \<Longrightarrow> eval_frame a b"
  shows "eval_frame s s'"
  using assms(1) eval_frame_refl [of s]
proof (rule for_each_invariant [where P = "eval_frame s"])
  fix i a b
  assume "i \<in> set xs" "eval_frame s a" "body i a = Inr b"
  then show "eval_frame s b" using assms(2) eval_frame_trans by blast
qed

lemma eval_frame_for_each_fst:
  assumes "for_each xs body (s, k) = Inr (s', k')"
    and "\<And>i a ka b kb. i \<in> set xs \<Longrightarrow> body i (a, ka) = Inr (b, kb) \<Longrightarrow> eval_frame a b"
  shows "eval_frame s s'"
proof -
  have "case (s', k') of (a, _) \<Rightarrow> eval_frame s a"
    using assms(1)
  proof (rule for_each_invariant)
    show "case (s, k) of (a, _) \<Rightarrow> eval_frame s a"
      by (simp add: eval_frame_refl)
  next
    fix i a b
    assume "i \<in> set xs" "case a of (a, _) \<Rightarrow> eval_frame s a" "body i a = Inr b"
    then show "case b of (a, _) \<Rightarrow> eval_frame s a"
      using assms(2) by (cases a, cases b) (auto intro: eval_frame_trans)
  qed
  then show ?thesis by simp
qed

lemma Test_stages:
  assumes "Test ops k s = Inr s'"
  obtains tn n_iter s1 loss sc ids s2 s3 where
    "vec_at (test_nets s) k = Inr tn"
    and "for_each [0..<nat n_iter] (Test_iteration ops k)
        ((emit (Log_Testing_net (iter s) k) s)
           \<lparr>caffe_phase := TEST,
             test_nets := (test_nets s)[k := Net_ShareTrainedLayersWith tn (net s)]\<rparr>, 0, [], [])
        = Inr (s1, loss, sc, ids)"
    and "(if test_compute_loss (param s1)
        then ebind (fdiv loss (of_int n_iter)) (\<lambda>loss. Inr (emit (Log_Test_loss loss) s1))
        else Inr s1) = Inr s2"
    and "for_each [0..<length sc] (Test_report k n_iter sc ids) s2 = Inr s3"
    and "s' = s3\<lparr>caffe_phase := TRAIN\<rparr>"
  using assms unfolding Test_def Let_def
  by (auto simp: ebind_Inr_iff emit_def split: prod.splits)

lemma Test_effect:
  assumes "Test ops k s = Inr s'"
  shows "eval_frame s s'" and "caffe_phase s' = TRAIN"
proof -
  from assms obtain tn n_iter s1 loss sc ids s2 s3 where
    loop: "for_each [0..<nat n_iter] (Test_iteration ops k)
        ((emit (Log_Testing_net (iter s) k) s)
           \<lparr>caffe_phase := TEST,
             test_nets := (test_nets s)[k := Net_ShareTrainedLayersWith tn (net s)]\<rparr>, 0, [], [])
        = Inr (s1, loss, sc, ids)"
    and lossline: "(if test_compute_loss (param s1)
        then ebind (fdiv loss (of_int n_iter)) (\<lambda>loss. Inr (emit (Log_Test_loss loss) s1))
        else Inr s1) = Inr s2"
    and report: "for_each [0..<length sc] (Test_report k n_iter sc ids) s2 = Inr s3"
    and fin: "s' = s3\<lparr>caffe_phase := TRAIN\<rparr>"
    by (rule Test_stages)
  let ?s0 = "(emit (Log_Testing_net (iter s) k) s)
           \<lparr>caffe_phase := TEST,
             test_nets := (test_nets s)[k := Net_ShareTrainedLayersWith tn (net s)]\<rparr>"
  have q0: "eval_frame s ?s0"
    by (simp add: eval_frame_def emit_def)
  have q1: "eval_frame ?s0 s1"
    using loop by (rule eval_frame_for_each_fst) (auto dest: eval_frame_Test_iteration)
  have q2: "eval_frame s1 s2"
    using lossline by (auto simp: ebind_Inr_iff eval_frame_def emit_def split: if_splits)
  have q3: "eval_frame s2 s3"
    using report by (rule eval_frame_for_each) (rule eval_frame_Test_report)
  have q4: "eval_frame s3 s'"
    using fin by (simp add: eval_frame_def)
  show "eval_frame s s'"
    using q0 q1 q2 q3 q4 eval_frame_trans by blast
  show "caffe_phase s' = TRAIN"
    using fin by simp
qed


lemma overwrite_data_all:
  "length ds = length bs \<Longrightarrow> map data (overwrite_data bs ds) = ds"
  by (induction bs ds rule: overwrite_data.induct) simp_all

lemma length_overwrite_data: "length (overwrite_data bs ds) = length bs"
  by (induction bs ds rule: overwrite_data.induct) simp_all

lemma Test_iteration_weights:
  assumes "Test_iteration ops k i (s, loss, sc, ids) = Inr (s', loss', sc', ids')"
    and "\<forall>n. map data (params (snd (Forward ops n))) = map data (params n)"
    and "k < length (test_nets s) \<and> map data (params (test_nets s ! k)) = w"
  shows "k < length (test_nets s') \<and> map data (params (test_nets s' ! k)) = w"
  using assms
  by (auto simp: Test_iteration_def ebind_Inr_iff Let_def split_beta emit_def vec_at_def
      split: if_splits)

lemma Test_report_test_nets: "Test_report k n sc ids i s = Inr s' \<Longrightarrow> test_nets s' = test_nets s"
  by (auto simp: Test_report_def ebind_Inr_iff emit_def)

lemma Test_shared_weights:
  assumes run: "Test ops k s = Inr s'"
    and fwd: "\<forall>n. map data (params (snd (Forward ops n))) = map data (params n)"
    and same: "length (params (test_nets s ! k)) = length (params (net s))"
  shows "map data (params (test_nets s' ! k)) = map data (params (net s))"
proof -
  from run obtain tn n_iter s1 loss sc ids s2 s3 where
    tn: "vec_at (test_nets s) k = Inr tn"
    and loop: "for_each [0..<nat n_iter] (Test_iteration ops k)
        ((emit (Log_Testing_net (iter s) k) s)
           \<lparr>caffe_phase := TEST,
             test_nets := (test_nets s)[k := Net_ShareTrainedLayersWith tn (net s)]\<rparr>, 0, [], [])
        = Inr (s1, loss, sc, ids)"
    and lossline: "(if test_compute_loss (param s1)
        then ebind (fdiv loss (of_int n_iter)) (\<lambda>loss. Inr (emit (Log_Test_loss loss) s1))
        else Inr s1) = Inr s2"
    and report: "for_each [0..<length sc] (Test_report k n_iter sc ids) s2 = Inr s3"
    and fin: "s' = s3\<lparr>caffe_phase := TRAIN\<rparr>"
    by (rule Test_stages)
  let ?w = "map data (params (net s))"
  let ?s0 = "(emit (Log_Testing_net (iter s) k) s)
           \<lparr>caffe_phase := TEST,
             test_nets := (test_nets s)[k := Net_ShareTrainedLayersWith tn (net s)]\<rparr>"
  have k: "k < length (test_nets s)" "tn = test_nets s ! k"
    using tn by (auto simp: vec_at_def split: if_splits)
  have "map data (params (Net_ShareTrainedLayersWith tn (net s))) = ?w"
    using same k(2) by (simp add: Net_ShareTrainedLayersWith_def overwrite_data_all)
  then have p0: "k < length (test_nets ?s0) \<and> map data (params (test_nets ?s0 ! k)) = ?w"
    using k(1) by (simp add: emit_def)
  have "case (s1, loss, sc, ids) of (a, _) \<Rightarrow>
      k < length (test_nets a) \<and> map data (params (test_nets a ! k)) = ?w"
    using loop
  proof (rule for_each_invariant)
    show "case (?s0, 0, [], []) of (a, _) \<Rightarrow>
        k < length (test_nets a) \<and> map data (params (test_nets a ! k)) = ?w"
      using p0 k(1) by simp
  next
    fix i a b
    assume "case a of (a, _) \<Rightarrow>
        k < length (test_nets a) \<and> map data (params (test_nets a ! k)) = ?w"
      and "Test_iteration ops k i a = Inr b"
    then show "case b of (a, _) \<Rightarrow>
        k < length (test_nets a) \<and> map data (params (test_nets a ! k)) = ?w"
      using fwd by (cases a, cases b) (auto dest: Test_iteration_weights)
  qed
  then have p1: "map data (params (test_nets s1 ! k)) = ?w" by simp
  have "test_nets s2 = test_nets s1"
    using lossline by (auto simp: ebind_Inr_iff emit_def split: if_splits)
  moreover have "test_nets s3 = test_nets s2"
    using report
    by (rule for_each_invariant [where P = "\<lambda>a. test_nets a = test_nets s2"])
       (auto dest: Test_report_test_nets)
  ultimately show ?thesis
    using p1 fin by simp
qed

lemma for_each_append:
  "for_each (xs @ ys) body a = ebind (for_each xs body a) (for_each ys body)"
proof (induction xs arbitrary: a)
  case Nil
  show ?case by simp
next
  case (Cons x xs)
  show ?case
    by (cases "body x a") (simp_all add: Cons.IH)
qed

definition example_evaluating :: "nat Solver" where
  "example_evaluating =
     Init SGD (example_param\<lparr>test_iter := [2], test_interval := 1\<rparr>)
       example_net [example_net\<lparr>params := [\<lparr>data = [0], diff = [0]\<rparr>]\<rparr>] Map.empty"

text \<open>
  C7. Any number of evaluation passes (\<open>TestAll\<close> runs one per evaluation network)
  leave the training network, and so its parameter weights, as they were, and the
  global phase is training again when a pass returns. After a pass the evaluation
  network holds the weights of the training network, given that a forward pass of the
  network code does not write weights.
\<close>

theorem Test_leaves_training_state:
  "(for_each ids (Test ops) s = Inr s' \<longrightarrow>
      net s' = net s \<and> history s' = history s \<and> iter s' = iter s
      \<and> (ids \<noteq> [] \<longrightarrow> caffe_phase s' = TRAIN))
   \<and> (TestAll ops s = for_each [0..<length (test_nets s)] (Test ops) s)
   \<and> (Test ops k s = Inr s''
        \<and> (\<forall>n. map data (params (snd (Forward ops n))) = map data (params n))
        \<and> length (params (test_nets s ! k)) = length (params (net s)) \<longrightarrow>
      map data (params (test_nets s'' ! k)) = map data (params (net s))
      \<and> map data (params (net s'')) = map data (params (net s))
      \<and> caffe_phase s'' = TRAIN)"
proof (intro conjI impI)
  assume run: "for_each ids (Test ops) s = Inr s'"
  have "eval_frame s s'"
    using run by (rule eval_frame_for_each) (rule Test_effect(1))
  then show "net s' = net s" "history s' = history s" "iter s' = iter s"
    by (simp_all add: eval_frame_def)
  show "caffe_phase s' = TRAIN" if "ids \<noteq> []"
  proof -
    have "ids = butlast ids @ [last ids]"
      using that by simp
    then obtain front j where ids: "ids = front @ [j]" ..
    have "ebind (for_each front (Test ops) s) (for_each [j] (Test ops)) = Inr s'"
      using run by (simp add: ids for_each_append)
    then obtain m where "for_each [j] (Test ops) m = Inr s'"
      by (auto simp: ebind_Inr_iff)
    then have "Test ops j m = Inr s'"
      by (simp add: ebind_Inr_iff)
    then show ?thesis by (rule Test_effect(2))
  qed
next
  show "TestAll ops s = for_each [0..<length (test_nets s)] (Test ops) s"
    by (simp add: TestAll_def)
next
  assume a: "Test ops k s = Inr s''
        \<and> (\<forall>n. map data (params (snd (Forward ops n))) = map data (params n))
        \<and> length (params (test_nets s ! k)) = length (params (net s))"
  then have run: "Test ops k s = Inr s''"
    and fwd: "\<forall>n. map data (params (snd (Forward ops n))) = map data (params n)"
    and same: "length (params (test_nets s ! k)) = length (params (net s))"
    by simp_all
  show "map data (params (test_nets s'' ! k)) = map data (params (net s))"
    using run fwd same by (rule Test_shared_weights)
  show "map data (params (net s'')) = map data (params (net s))"
    using Test_effect(1) [OF run] by (simp add: eval_frame_def)
  show "caffe_phase s'' = TRAIN"
    using run by (rule Test_effect(2))
qed


theorem Test_leaves_training_state_witness:
  "map_sum id (\<lambda>s. (map data (params (net s)), map data (params (test_nets s ! 0)),
                    caffe_phase s))
     (Test example_ops 0 example_evaluating) = Inr ([[1]], [[1]], TRAIN)
   \<and> map_sum id (\<lambda>s. (map data (params (net s)), caffe_phase s))
     (for_each [0, 0, 0] (Test example_ops) example_evaluating) = Inr ([[1]], TRAIN)"
proof -
  have w: "map data (params (net example_evaluating)) = [[1]]"
    and same: "length (params (test_nets example_evaluating ! 0))
        = length (params (net example_evaluating))"
    by (simp_all add: example_evaluating_def Init_def example_net_def)
  have fwd: "\<forall>n. map data (params (snd (Forward example_ops n))) = map data (params n)"
    by (simp add: example_ops_def)
  have "\<not> isl (Test example_ops 0 example_evaluating)"
    by code_simp
  then obtain s1 where one: "Test example_ops 0 example_evaluating = Inr s1"
    by (cases "Test example_ops 0 example_evaluating") auto
  have "\<not> isl (for_each [0, 0, 0] (Test example_ops) example_evaluating)"
    by code_simp
  then obtain s3 where three: "for_each [0, 0, 0] (Test example_ops) example_evaluating = Inr s3"
    by (cases "for_each [0, 0, 0] (Test example_ops) example_evaluating") auto
  have "map data (params (test_nets s1 ! 0)) = [[1]] \<and> map data (params (net s1)) = [[1]]
      \<and> caffe_phase s1 = TRAIN"
    using Test_leaves_training_state [where ops = example_ops and k = 0
        and s = example_evaluating and s'' = s1 and ids = "[0, 0, 0]" and s' = s3]
      one fwd same w
    by simp
  moreover have "net s3 = net example_evaluating \<and> caffe_phase s3 = TRAIN"
    using Test_leaves_training_state [where ops = example_ops and k = 0
        and s = example_evaluating and s'' = s1 and ids = "[0, 0, 0]" and s' = s3]
      three
    by simp
  ultimately show ?thesis
    using one three w by simp
qed

section \<open>Restoring a checkpoint\<close>

lemma PreSolve_history_length:
  "length (history (PreSolve s))
     = (if solver_type s = AdaDelta then 2 * length (params (net s))
        else length (params (net s)))"
  by (cases "solver_type s")
     (simp_all add: PreSolve_def SGDSolver_PreSolve_def AdaDeltaSolver_PreSolve_def)

lemma Restore_unfold:
  assumes "Read_SolverState s f = Inr st"
    and "learned_net st = None \<or> (\<exists>m. learned_net st = Some m \<and> Read_NetParameter s m = Inr np)"
  shows "Restore s f =
     RestoreSolverState
       (s\<lparr>net := (case learned_net st of
                     Some m \<Rightarrow> Net_CopyTrainedLayersFrom (net s) np
                   | None \<Rightarrow> net s),
          iter := state_iter st\<rparr>) st"
  using assms by (auto simp: Restore_def Let_def)

text \<open>
  A solver of the AdaDelta rule for the one-parameter network, after \<open>PreSolve\<close>: it
  holds two history buffers. It finds the files of \<open>example_checkpoint\<close>, written by
  the momentum rule with one history buffer.
\<close>

definition example_AdaDelta :: "nat Solver" where
  "example_AdaDelta =
     PreSolve (Init AdaDelta example_param example_net [] (files example_checkpoint))"

text \<open>
  C6 (amended). Given a state file, and the model file it names if it names one,
  \<open>Restore\<close> fails fatally exactly when the number of stored history buffers differs
  from the number of history buffers the solver holds (after \<open>PreSolve\<close>: one per
  parameter, two per parameter for AdaDelta). Otherwise it returns with the weights of
  the training network overwritten from the model file if and only if the state names
  one, the iteration counter set to the stored iteration, and the history read from
  the state file alone; the other buffers stay as they are.
\<close>

theorem Restore_effect_and_failure:
  "Read_SolverState s f = Inr st
   \<and> (learned_net st = None \<or> (\<exists>m. learned_net st = Some m \<and> Read_NetParameter s m = Inr np))
   \<longrightarrow>
     (length (state_history st) \<noteq> length (history s) \<longrightarrow>
        Restore s f = Inl (Fatal ''Incorrect length of history blobs.''))
   \<and> (length (state_history st) = length (history s) \<longrightarrow>
        (\<exists>s'. Restore s f = Inr s'
           \<and> net s' = (case learned_net st of
                         Some m \<Rightarrow> (net s)\<lparr>params :=
                                     overwrite_data (params (net s)) (map proto_data np)\<rparr>
                       | None \<Rightarrow> net s)
           \<and> iter s' = state_iter st
           \<and> history s' = map2 Blob_FromProto (history s) (state_history st)
           \<and> update s' = update s \<and> temp s' = temp s))
   \<and> length (history (PreSolve s0))
       = (if solver_type s0 = AdaDelta then 2 * length (params (net s0))
          else length (params (net s0)))"
proof (intro impI conjI)
  assume a: "Read_SolverState s f = Inr st
   \<and> (learned_net st = None \<or> (\<exists>m. learned_net st = Some m \<and> Read_NetParameter s m = Inr np))"
  then have unfold: "Restore s f =
     RestoreSolverState
       (s\<lparr>net := (case learned_net st of
                     Some m \<Rightarrow> Net_CopyTrainedLayersFrom (net s) np
                   | None \<Rightarrow> net s),
          iter := state_iter st\<rparr>) st"
    using Restore_unfold [of s f st np] by simp
  show "Restore s f = Inl (Fatal ''Incorrect length of history blobs.'')"
    if "length (state_history st) \<noteq> length (history s)"
    using that by (simp add: unfold RestoreSolverState_def)
  show "\<exists>s'. Restore s f = Inr s'
           \<and> net s' = (case learned_net st of
                         Some m \<Rightarrow> (net s)\<lparr>params :=
                                     overwrite_data (params (net s)) (map proto_data np)\<rparr>
                       | None \<Rightarrow> net s)
           \<and> iter s' = state_iter st
           \<and> history s' = map2 Blob_FromProto (history s) (state_history st)
           \<and> update s' = update s \<and> temp s' = temp s"
    if "length (state_history st) = length (history s)"
    using that
    by (cases "learned_net st")
       (simp_all add: unfold RestoreSolverState_def Net_CopyTrainedLayersFrom_def)
next
  show "length (history (PreSolve s0))
       = (if solver_type s0 = AdaDelta then 2 * length (params (net s0))
          else length (params (net s0)))"
    by (rule PreSolve_history_length)
qed


theorem Restore_effect_and_failure_witness:
  "map_sum id (\<lambda>s. (iter s, map data (params (net s)), map data (history s)))
     (Restore (PreSolve example_resumed) ''m_iter_2.caffemodel.solverstate'')
     = Inr (2, [[19 / 25]], [[7 / 50]])
   \<and> Restore example_AdaDelta ''m_iter_2.caffemodel.solverstate''
     = Inl (Fatal ''Incorrect length of history blobs.'')"
proof -
  let ?f = "''m_iter_2.caffemodel.solverstate''"
  have rd: "map_sum id (\<lambda>st. (length (state_history st), learned_net st))
      (Read_SolverState (PreSolve example_resumed) ?f) = Inr (1, Some ''m_iter_2.caffemodel'')"
    "map_sum id (\<lambda>st. (length (state_history st), learned_net st))
      (Read_SolverState example_AdaDelta ?f) = Inr (1, Some ''m_iter_2.caffemodel'')"
    "\<not> isl (Read_NetParameter (PreSolve example_resumed) ''m_iter_2.caffemodel'')"
    "\<not> isl (Read_NetParameter example_AdaDelta ''m_iter_2.caffemodel'')"
    "length (history (PreSolve example_resumed)) = 1"
    "length (history example_AdaDelta) = 2"
    by code_simp+
  obtain st where st: "Read_SolverState (PreSolve example_resumed) ?f = Inr st"
    "length (state_history st) = 1" "learned_net st = Some ''m_iter_2.caffemodel''"
    using rd(1) by (cases "Read_SolverState (PreSolve example_resumed) ?f") auto
  obtain np where np: "Read_NetParameter (PreSolve example_resumed) ''m_iter_2.caffemodel'' = Inr np"
    using rd(3) by (cases "Read_NetParameter (PreSolve example_resumed) ''m_iter_2.caffemodel''") auto
  obtain st2 where st2: "Read_SolverState example_AdaDelta ?f = Inr st2"
    "length (state_history st2) = 1" "learned_net st2 = Some ''m_iter_2.caffemodel''"
    using rd(2) by (cases "Read_SolverState example_AdaDelta ?f") auto
  obtain np2 where np2: "Read_NetParameter example_AdaDelta ''m_iter_2.caffemodel'' = Inr np2"
    using rd(4) by (cases "Read_NetParameter example_AdaDelta ''m_iter_2.caffemodel''") auto
  have "\<exists>s'. Restore (PreSolve example_resumed) ?f = Inr s'"
    using Restore_effect_and_failure [where s = "PreSolve example_resumed" and f = ?f
        and st = st and np = np and ?s0.0 = example_resumed] st np rd(5)
    by auto
  moreover have "isl (Restore (PreSolve example_resumed) ?f)
      \<or> map_sum id (\<lambda>s. (iter s, map data (params (net s)), map data (history s)))
     (Restore (PreSolve example_resumed) ?f) = Inr (2, [[19 / 25]], [[7 / 50]])"
    by code_simp
  ultimately have ok: "map_sum id (\<lambda>s. (iter s, map data (params (net s)), map data (history s)))
     (Restore (PreSolve example_resumed) ?f) = Inr (2, [[19 / 25]], [[7 / 50]])"
    by auto
  have "Restore example_AdaDelta ?f = Inl (Fatal ''Incorrect length of history blobs.'')"
    using Restore_effect_and_failure [where s = example_AdaDelta and f = ?f
        and st = st2 and np = np2 and ?s0.0 = example_resumed] st2 np2 rd(6)
    by auto
  with ok show ?thesis by simp
qed

text \<open>
  C6 as stated compares the stored count with the number of parameters. For AdaDelta
  with one parameter, a state file with one history buffer is refused and a state file
  with two is accepted.
\<close>

theorem Restore_AdaDelta_history_count:
  "length (params (net example_AdaDelta)) = 1
   \<and> map_sum id (\<lambda>st. length (state_history st))
        (Read_SolverState example_AdaDelta ''m_iter_2.caffemodel.solverstate'') = Inr 1
   \<and> map_sum id (\<lambda>s. iter s)
        (Restore example_AdaDelta ''m_iter_2.caffemodel.solverstate'')
       = Inl (Fatal ''Incorrect length of history blobs.'')
   \<and> map_sum id (\<lambda>st. length (state_history st))
        (Read_SolverState (Snapshot example_AdaDelta) ''m_iter_0.caffemodel.solverstate'') = Inr 2
   \<and> map_sum id (\<lambda>s. iter s)
        (Restore (Snapshot example_AdaDelta) ''m_iter_0.caffemodel.solverstate'') = Inr 0"
  by code_simp

section \<open>Checkpoint round trip\<close>

lemma data_FromProto:
  "length hs = length ps \<Longrightarrow> map data (map2 Blob_FromProto hs ps) = map proto_data ps"
  by (induction hs ps rule: list_induct2) (simp_all add: Blob_FromProto_def)

lemma Snapshot_files:
  "files (Snapshot s) (snapshot_name (param s) (iter s))
     = Some (NetParameter_file (Net_ToProto (net s) (snapshot_diff (param s))))"
  "files (Snapshot s) (snapshot_name (param s) (iter s) @ ''.solverstate'')
     = Some (SolverState_file
         \<lparr>state_iter = iter s,
          state_history = map (\<lambda>h. Blob_ToProto h False) (history s),
          learned_net = Some (snapshot_name (param s) (iter s))\<rparr>)"
  by (simp_all add: Snapshot_def Let_def WriteProtoToBinaryFile_def emit_def
      snapshot_name_def SnapshotSolverState_def)

text \<open>The state in which \<open>Solve\<close> calls \<open>Restore\<close>: after \<open>PreSolve\<close> and \<open>iter_ = 0\<close>.\<close>

definition before_Restore :: "'x Solver \<Rightarrow> 'x Solver" where
  "before_Restore s = (PreSolve (s\<lparr>caffe_phase := TRAIN\<rparr>))\<lparr>iter := 0\<rparr>"

text \<open>
  C5. A snapshot at iteration \<open>N\<close> writes the model file \<open>prefix_iter_N.caffemodel\<close> and
  the state file of that name with \<open>.solverstate\<close> appended, holding the iteration, the
  history buffers in order and the name of the model file. A fresh solver of the same
  configuration (same rule, same parameters of the network) that restores the state
  file, as \<open>Solve\<close> does when resuming, has the iteration counter \<open>N\<close> and the parameter
  weights and history buffers of the moment of the snapshot.
\<close>

theorem Snapshot_Restore_roundtrip:
  "files (Snapshot s) (snapshot_name (param s) (iter s))
     = Some (NetParameter_file (Net_ToProto (net s) (snapshot_diff (param s))))
   \<and> files (Snapshot s) (snapshot_name (param s) (iter s) @ ''.solverstate'')
     = Some (SolverState_file
         \<lparr>state_iter = iter s,
          state_history = map (\<lambda>h. Blob_ToProto h False) (history s),
          learned_net = Some (snapshot_name (param s) (iter s))\<rparr>)
   \<and> (param s0 = param s \<and> solver_type s0 = solver_type s
        \<and> length (params (net s0)) = length (params (net s))
        \<and> length (history s) = length (history (PreSolve s))
        \<and> files s0 = files (Snapshot s) \<longrightarrow>
      (\<exists>s'. Restore (before_Restore s0) (snapshot_name (param s) (iter s) @ ''.solverstate'')
              = Inr s'
         \<and> iter s' = iter s
         \<and> map data (params (net s')) = map data (params (net s))
         \<and> map data (history s') = map data (history s)))"
proof (intro conjI impI)
  show "files (Snapshot s) (snapshot_name (param s) (iter s))
     = Some (NetParameter_file (Net_ToProto (net s) (snapshot_diff (param s))))"
    by (rule Snapshot_files)
  show "files (Snapshot s) (snapshot_name (param s) (iter s) @ ''.solverstate'')
     = Some (SolverState_file
         \<lparr>state_iter = iter s,
          state_history = map (\<lambda>h. Blob_ToProto h False) (history s),
          learned_net = Some (snapshot_name (param s) (iter s))\<rparr>)"
    by (rule Snapshot_files)
next
  assume a: "param s0 = param s \<and> solver_type s0 = solver_type s
        \<and> length (params (net s0)) = length (params (net s))
        \<and> length (history s) = length (history (PreSolve s))
        \<and> files s0 = files (Snapshot s)"
  let ?m = "snapshot_name (param s) (iter s)"
  let ?f = "?m @ ''.solverstate''"
  let ?st = "\<lparr>state_iter = iter s,
          state_history = map (\<lambda>h. Blob_ToProto h False) (history s),
          learned_net = Some ?m\<rparr>"
  let ?np = "Net_ToProto (net s) (snapshot_diff (param s))"
  let ?b = "before_Restore s0"
  have fs: "files ?b = files (Snapshot s)"
    using a by (simp add: before_Restore_def PreSolve_frame2)
  have rd: "Read_SolverState ?b ?f = Inr ?st"
    by (simp add: Read_SolverState_def fs Snapshot_files)
  have rn: "Read_NetParameter ?b ?m = Inr ?np"
    by (simp add: Read_NetParameter_def fs Snapshot_files)
  have hl: "length (history ?b) = length (history s)"
    using a by (simp add: before_Restore_def PreSolve_history_length)
  have nb: "net ?b = net s0"
    by (simp add: before_Restore_def PreSolve_frame2)
  have "Restore ?b ?f =
     RestoreSolverState (?b\<lparr>net := Net_CopyTrainedLayersFrom (net ?b) ?np,
                            iter := iter s\<rparr>) ?st"
    using Restore_unfold [of ?b ?f ?st ?np] rd rn by simp
  also have "\<dots> = Inr (?b\<lparr>net := Net_CopyTrainedLayersFrom (net ?b) ?np, iter := iter s,
      history := map2 Blob_FromProto (history ?b) (state_history ?st)\<rparr>)"
    using hl by (simp add: RestoreSolverState_def)
  finally have run: "Restore ?b ?f =
      Inr (?b\<lparr>net := Net_CopyTrainedLayersFrom (net ?b) ?np, iter := iter s,
             history := map2 Blob_FromProto (history ?b) (state_history ?st)\<rparr>)" .
  have "map proto_data ?np = map data (params (net s))"
    by (simp add: Net_ToProto_def Blob_ToProto_def comp_def)
  then have weights: "map data (params (Net_CopyTrainedLayersFrom (net ?b) ?np))
      = map data (params (net s))"
    using a nb by (simp add: Net_CopyTrainedLayersFrom_def overwrite_data_all)
  have "map data (map2 Blob_FromProto (history ?b) (state_history ?st))
      = map proto_data (state_history ?st)"
    using hl by (intro data_FromProto) simp
  then have hist: "map data (map2 Blob_FromProto (history ?b) (state_history ?st))
      = map data (history s)"
    by (simp add: Blob_ToProto_def comp_def)
  show "\<exists>s'. Restore ?b ?f = Inr s'
         \<and> iter s' = iter s
         \<and> map data (params (net s')) = map data (params (net s))
         \<and> map data (history s') = map data (history s)"
    using run weights hist by simp
qed

definition example_fresh :: "nat Solver" where
  "example_fresh =
     Init SGD (param example_checkpoint) example_net [] (files (Snapshot example_checkpoint))"

theorem Snapshot_Restore_roundtrip_witness:
  "snapshot_name (param example_checkpoint) (iter example_checkpoint) = ''m_iter_2.caffemodel''
   \<and> (iter example_checkpoint, map data (params (net example_checkpoint)),
       map data (history example_checkpoint)) = (2, [[19 / 25]], [[7 / 50]])
   \<and> map_sum id (\<lambda>s. (iter s, map data (params (net s)), map data (history s)))
        (Restore (before_Restore example_fresh) ''m_iter_2.caffemodel.solverstate'')
       = Inr (2, [[19 / 25]], [[7 / 50]])"
proof -
  have name: "snapshot_name (param example_checkpoint) (iter example_checkpoint)
      = ''m_iter_2.caffemodel''"
    and vals: "(iter example_checkpoint, map data (params (net example_checkpoint)),
       map data (history example_checkpoint)) = (2, [[19 / 25]], [[7 / 50]])"
    and hyp: "solver_type example_fresh = solver_type example_checkpoint"
      "length (params (net example_fresh)) = length (params (net example_checkpoint))"
      "length (history example_checkpoint) = length (history (PreSolve example_checkpoint))"
    by code_simp+
  have hyp2: "param example_fresh = param example_checkpoint"
    "files example_fresh = files (Snapshot example_checkpoint)"
    by (simp_all add: example_fresh_def Init_def)
  obtain s' where "Restore (before_Restore example_fresh)
      (snapshot_name (param example_checkpoint) (iter example_checkpoint) @ ''.solverstate'')
        = Inr s'"
    "iter s' = iter example_checkpoint"
    "map data (params (net s')) = map data (params (net example_checkpoint))"
    "map data (history s') = map data (history example_checkpoint)"
    using Snapshot_Restore_roundtrip [where s = example_checkpoint and ?s0.0 = example_fresh]
      hyp hyp2
    by blast
  then show ?thesis
    using name vals by simp
qed

section \<open>Facts about the kernels\<close>

lemma pow_two: "pow x 2 = Inr (x\<^sup>2)"
proof -
  have "x powi 2 = x\<^sup>2" by (simp add: power_int_def)
  moreover have "(2::real) = of_int \<lfloor>2::real\<rfloor>" by simp
  ultimately show ?thesis
    by (cases "0 < x") (auto simp: pow_def)
qed

lemma pow_half: "0 \<le> x \<Longrightarrow> pow x (1 / 2) = Inr (sqrt x)"
  by (cases "x = 0") (simp_all add: pow_def powr_half_sqrt)

lemma mapE_Inr:
  "(\<And>x. x \<in> set xs \<Longrightarrow> f x = Inr (g x)) \<Longrightarrow> mapE f xs = Inr (map g xs)"
  by (induction xs) simp_all

lemma caffe_powx_two:
  "length A = n \<Longrightarrow> length Y = n \<Longrightarrow> caffe_powx n A 2 Y = Inr (map (\<lambda>a. a\<^sup>2) A)"
  by (simp add: caffe_powx_def mapE_Inr [where g = "\<lambda>a. a\<^sup>2"] pow_two)

lemma caffe_powx_half:
  assumes "length A = n" "length Y = n" "\<forall>k<n. 0 \<le> A ! k"
  shows "caffe_powx n A (1 / 2) Y = Inr (map sqrt A)"
proof -
  have "pow a (1 / 2) = Inr (sqrt a)" if "a \<in> set A" for a
    using that assms(1,3) by (auto simp: in_set_conv_nth intro: pow_half)
  then have "mapE (\<lambda>a. pow a (1 / 2)) A = Inr (map sqrt A)"
    by (rule mapE_Inr)
  then show ?thesis
    using assms(1,2) by (simp add: caffe_powx_def)
qed

lemma caffe_div_nonzero:
  assumes "length A = n" "length B = n" "length Y = n" "\<forall>k<n. B ! k \<noteq> 0"
  shows "caffe_div n A B Y = Inr (map2 (\<lambda>a b. a / b) A B)"
proof -
  have "(case p of (a, b) \<Rightarrow> fdiv a b) = Inr (case p of (a, b) \<Rightarrow> a / b)"
    if "p \<in> set (zip A B)" for p
  proof -
    obtain a b where p: "p = (a, b)" by (cases p)
    then have "b \<in> set B" using that by (auto dest: set_zip_rightD)
    then have "b \<noteq> 0" using assms(2,4) by (auto simp: in_set_conv_nth)
    then show ?thesis by (simp add: p fdiv_def)
  qed
  then have "mapE (\<lambda>(a, b). fdiv a b) (zip A B) = Inr (map (\<lambda>(a, b). a / b) (zip A B))"
    by (rule mapE_Inr)
  then show ?thesis
    using assms(1,2,3) by (simp add: caffe_div_def)
qed

lemma kernels_full:
  "length X = n \<Longrightarrow> length Y = n \<Longrightarrow>
     caffe_axpy n alpha X Y = map2 (\<lambda>x y. alpha * x + y) X Y"
  "length X = n \<Longrightarrow> length Y = n \<Longrightarrow>
     caffe_cpu_axpby n alpha X beta Y = map2 (\<lambda>x y. alpha * x + beta * y) X Y"
  "length X = n \<Longrightarrow> length Y = n \<Longrightarrow> caffe_cpu_sign n X Y = map sgn X"
  "length X = n \<Longrightarrow> length Y = n \<Longrightarrow> caffe_copy n X Y = X"
  "length Y = n \<Longrightarrow> caffe_set n alpha Y = replicate n alpha"
  "length A = n \<Longrightarrow> length B = n \<Longrightarrow> length Y = n \<Longrightarrow>
     caffe_add n A B Y = map2 (\<lambda>a b. a + b) A B"
  "length A = n \<Longrightarrow> length B = n \<Longrightarrow> length Y = n \<Longrightarrow>
     caffe_mul n A B Y = map2 (\<lambda>a b. a * b) A B"
  "length Y = n \<Longrightarrow> caffe_add_scalar n alpha Y = map (\<lambda>y. y + alpha) Y"
  by (simp_all add: caffe_axpy_def caffe_cpu_axpby_def caffe_cpu_sign_def caffe_copy_def
      caffe_set_def caffe_add_def caffe_mul_def caffe_add_scalar_def map_replicate_const)

lemma sqrt_nine: "sqrt 9 = 3"
  by (rule real_sqrt_unique) simp_all

section \<open>Effective rates of the update rules\<close>

text \<open>
  An update rule run over all parameters with given effective rates: parameter
  \<open>param_id\<close> is read with \<open>ld\<close>, transformed by \<open>rule\<close> with the learning rate
  \<open>effective_rate param_id\<close> and the weight decay \<open>effective_decay param_id\<close>, and
  written back with \<open>st\<close>.
\<close>

definition update_with_rates ::
  "('x Solver \<Rightarrow> nat \<Rightarrow> 'w) \<Rightarrow> ('x Solver \<Rightarrow> nat \<Rightarrow> 'w \<Rightarrow> 'x Solver)
     \<Rightarrow> (Dtype \<Rightarrow> Dtype \<Rightarrow> 'w \<Rightarrow> error + 'w) \<Rightarrow> (nat \<Rightarrow> Dtype) \<Rightarrow> (nat \<Rightarrow> Dtype)
     \<Rightarrow> 'x Solver \<Rightarrow> error + 'x Solver" where
  "update_with_rates ld st rule effective_rate effective_decay s =
     for_each [0..<length (params (net s))] (\<lambda>param_id s.
       ebind (rule (effective_rate param_id) (effective_decay param_id) (ld s param_id))
         (\<lambda>w. Inr (st s param_id w))) s"

definition same_multipliers :: "'x Solver \<Rightarrow> 'x Solver \<Rightarrow> bool" where
  "same_multipliers s a \<longleftrightarrow>
     param a = param s \<and> params_lr (net a) = params_lr (net s)
     \<and> params_weight_decay (net a) = params_weight_decay (net s)"

lemma for_each_cong_inv:
  assumes "P s"
    and "\<And>i a. i \<in> set xs \<Longrightarrow> P a \<Longrightarrow> f i a = g i a"
    and "\<And>i a b. i \<in> set xs \<Longrightarrow> P a \<Longrightarrow> g i a = Inr b \<Longrightarrow> P b"
  shows "for_each xs f s = for_each xs g s"
  using assms
proof (induction xs arbitrary: s)
  case Nil
  show ?case by simp
next
  case (Cons i rest)
  have same: "f i s = g i s" using Cons.prems by simp
  show ?case
  proof (cases "g i s")
    case (Inl e)
    then show ?thesis using same by simp
  next
    case (Inr b)
    then have "P b" using Cons.prems(1,3) by (meson list.set_intros(1))
    then have "for_each rest f b = for_each rest g b"
    proof (rule Cons.IH)
      show "f j a = g j a" if "j \<in> set rest" "P a" for j a
        using that Cons.prems(2) by simp
      show "P c" if "j \<in> set rest" "P a" "g j a = Inr c" for j a c
        using that Cons.prems(3) [of j a c] by simp
    qed
    then show ?thesis using same Inr by simp
  qed
qed

lemma same_multipliers_store: "same_multipliers s a \<Longrightarrow> same_multipliers s (store a i w)"
  by (simp add: same_multipliers_def store_def)

lemma same_multipliers_store_AdaDelta:
  "same_multipliers s a \<Longrightarrow> same_multipliers s (store_AdaDelta a i w)"
  by (simp add: same_multipliers_def store_AdaDelta_def store_def Let_def)

lemma param_loop_rates:
  assumes "\<And>i a. same_multipliers s a \<Longrightarrow> body i a = rule (rate i) (decay i) (ld a i)"
    and "\<And>i a w. same_multipliers s a \<Longrightarrow> same_multipliers s (st a i w)"
  shows "for_each xs (\<lambda>param_id a. ebind (body param_id a) (\<lambda>w. Inr (st a param_id w))) s
    = for_each xs (\<lambda>param_id a.
        ebind (rule (rate param_id) (decay param_id) (ld a param_id))
          (\<lambda>w. Inr (st a param_id w))) s"
proof (rule for_each_cong_inv [where P = "same_multipliers s"])
  show "same_multipliers s s" by (simp add: same_multipliers_def)
next
  fix i a assume "same_multipliers s a"
  then show "ebind (body i a) (\<lambda>w. Inr (st a i w))
      = ebind (rule (rate i) (decay i) (ld a i)) (\<lambda>w. Inr (st a i w))"
    using assms(1) by simp
next
  fix i a b
  assume "same_multipliers s a"
    and "ebind (rule (rate i) (decay i) (ld a i)) (\<lambda>w. Inr (st a i w)) = Inr b"
  then show "same_multipliers s b"
    using assms(2) by (auto simp: ebind_Inr_iff)
qed

lemma log_lr_frame:
  "param (log_lr r s) = param s" "net (log_lr r s) = net s" "iter (log_lr r s) = iter s"
  "caffe_mode (log_lr r s) = caffe_mode s"
  by (simp_all add: log_lr_def emit_def)

lemma same_multipliers_log_lr: "same_multipliers (log_lr r s) b \<longleftrightarrow> same_multipliers s b"
  by (simp add: same_multipliers_def log_lr_frame)

text \<open>
  C1 (amended). When the schedule gives the rate \<open>r\<close> at the current iteration, each
  \<open>ComputeUpdateValue\<close> is its rule run over all parameters with these effective rates.
  The SGD momentum rule and the Nesterov rule, for \<open>update_interval\<close> other than 0, use
  the learning rate \<open>r\<close> times the parameter's lr multiplier divided by
  \<open>update_interval\<close>, and the weight decay \<open>weight_decay\<close> times the parameter's decay
  multiplier times \<open>update_interval\<close>. The AdaGrad, AdaDelta and RMSprop rules use the
  learning rate \<open>r\<close> times the lr multiplier and the weight decay \<open>weight_decay\<close> times the
  decay multiplier: the accumulation count does not enter them.
\<close>

theorem effective_rates_of_update_rules:
  "GetLearningRate (param s) (iter s) = Inr r \<longrightarrow>
     (update_interval (param s) \<noteq> 0 \<longrightarrow>
        SGDSolver_ComputeUpdateValue s =
          update_with_rates load store
            (\<lambda>rate decay. SGDSolver_param rate decay (momentum (param s))
               (regularization_type (param s)))
            (\<lambda>param_id. r * params_lr (net s) ! param_id / of_int (update_interval (param s)))
            (\<lambda>param_id. weight_decay (param s) * params_weight_decay (net s) ! param_id
               * of_int (update_interval (param s)))
            (log_lr r s)
      \<and> NesterovSolver_ComputeUpdateValue s =
          update_with_rates load store
            (\<lambda>rate decay. NesterovSolver_param rate decay (momentum (param s))
               (regularization_type (param s)))
            (\<lambda>param_id. r * params_lr (net s) ! param_id / of_int (update_interval (param s)))
            (\<lambda>param_id. weight_decay (param s) * params_weight_decay (net s) ! param_id
               * of_int (update_interval (param s)))
            (log_lr r s))
   \<and> AdaGradSolver_ComputeUpdateValue s =
       update_with_rates load store
         (\<lambda>rate decay. AdaGradSolver_param rate decay (delta (param s))
            (regularization_type (param s)))
         (\<lambda>param_id. r * params_lr (net s) ! param_id)
         (\<lambda>param_id. weight_decay (param s) * params_weight_decay (net s) ! param_id)
         (log_lr r s)
   \<and> AdaDeltaSolver_ComputeUpdateValue s =
       update_with_rates load_AdaDelta store_AdaDelta
         (\<lambda>rate decay. AdaDeltaSolver_param rate decay (momentum (param s)) (delta (param s))
            (regularization_type (param s)))
         (\<lambda>param_id. r * params_lr (net s) ! param_id)
         (\<lambda>param_id. weight_decay (param s) * params_weight_decay (net s) ! param_id)
         (log_lr r s)
   \<and> RMSpropSolver_ComputeUpdateValue s =
       update_with_rates load store
         (\<lambda>rate decay. RMSpropSolver_param rate decay (delta (param s)) (rms_decay (param s))
            (regularization_type (param s)))
         (\<lambda>param_id. r * params_lr (net s) ! param_id)
         (\<lambda>param_id. weight_decay (param s) * params_weight_decay (net s) ! param_id)
         (log_lr r s)"
proof (intro impI conjI)
  assume a: "GetLearningRate (param s) (iter s) = Inr r"
  note sm = same_multipliers_log_lr
  show "AdaGradSolver_ComputeUpdateValue s =
       update_with_rates load store
         (\<lambda>rate decay. AdaGradSolver_param rate decay (delta (param s))
            (regularization_type (param s)))
         (\<lambda>param_id. r * params_lr (net s) ! param_id)
         (\<lambda>param_id. weight_decay (param s) * params_weight_decay (net s) ! param_id)
         (log_lr r s)"
    using a
    unfolding AdaGradSolver_ComputeUpdateValue_def update_with_rates_def Let_def mode_case_same
    by (simp add: log_lr_frame)
       (rule param_loop_rates,
        simp add: sm same_multipliers_def log_lr_frame,
        simp add: sm same_multipliers_store)
  show "AdaDeltaSolver_ComputeUpdateValue s =
       update_with_rates load_AdaDelta store_AdaDelta
         (\<lambda>rate decay. AdaDeltaSolver_param rate decay (momentum (param s)) (delta (param s))
            (regularization_type (param s)))
         (\<lambda>param_id. r * params_lr (net s) ! param_id)
         (\<lambda>param_id. weight_decay (param s) * params_weight_decay (net s) ! param_id)
         (log_lr r s)"
    using a
    unfolding AdaDeltaSolver_ComputeUpdateValue_def update_with_rates_def Let_def mode_case_same
    by (simp add: log_lr_frame)
       (rule param_loop_rates,
        simp add: sm same_multipliers_def log_lr_frame,
        simp add: sm same_multipliers_store_AdaDelta)
  show "RMSpropSolver_ComputeUpdateValue s =
       update_with_rates load store
         (\<lambda>rate decay. RMSpropSolver_param rate decay (delta (param s)) (rms_decay (param s))
            (regularization_type (param s)))
         (\<lambda>param_id. r * params_lr (net s) ! param_id)
         (\<lambda>param_id. weight_decay (param s) * params_weight_decay (net s) ! param_id)
         (log_lr r s)"
    using a
    unfolding RMSpropSolver_ComputeUpdateValue_def update_with_rates_def Let_def mode_case_same
    by (simp add: log_lr_frame)
       (rule param_loop_rates,
        simp add: sm same_multipliers_def log_lr_frame,
        simp add: sm same_multipliers_store)
next
  assume a: "GetLearningRate (param s) (iter s) = Inr r"
    and nz: "update_interval (param s) \<noteq> 0"
  note sm = same_multipliers_log_lr
  let ?k = "of_int (update_interval (param s)) :: real"
  have k: "fdiv r ?k = Inr (r / ?k)"
    using nz by (simp add: fdiv_def)
  show "SGDSolver_ComputeUpdateValue s =
       update_with_rates load store
         (\<lambda>rate decay. SGDSolver_param rate decay (momentum (param s))
            (regularization_type (param s)))
         (\<lambda>param_id. r * params_lr (net s) ! param_id / ?k)
         (\<lambda>param_id. weight_decay (param s) * params_weight_decay (net s) ! param_id * ?k)
         (log_lr r s)"
    using a k
    unfolding SGDSolver_ComputeUpdateValue_def update_with_rates_def Let_def mode_case_same
    by (simp add: log_lr_frame)
       (rule param_loop_rates,
        simp add: sm same_multipliers_def log_lr_frame mult.commute mult.left_commute,
        simp add: sm same_multipliers_store)
next
  assume a: "GetLearningRate (param s) (iter s) = Inr r"
    and nz: "update_interval (param s) \<noteq> 0"
  note sm = same_multipliers_log_lr
  let ?k = "of_int (update_interval (param s)) :: real"
  have k: "fdiv r ?k = Inr (r / ?k)"
    using nz by (simp add: fdiv_def)
  show "NesterovSolver_ComputeUpdateValue s =
       update_with_rates load store
         (\<lambda>rate decay. NesterovSolver_param rate decay (momentum (param s))
            (regularization_type (param s)))
         (\<lambda>param_id. r * params_lr (net s) ! param_id / ?k)
         (\<lambda>param_id. weight_decay (param s) * params_weight_decay (net s) ! param_id * ?k)
         (log_lr r s)"
    using a k
    unfolding NesterovSolver_ComputeUpdateValue_def update_with_rates_def Let_def mode_case_same
    by (simp add: log_lr_frame)
       (rule param_loop_rates,
        simp add: sm same_multipliers_def log_lr_frame mult.commute mult.left_commute,
        simp add: sm same_multipliers_store)
qed

definition example_scaled :: "nat Solver" where
  "example_scaled =
     PreSolve (Init SGD
       (example_param\<lparr>weight_decay := 1 / 4, has_update_interval := True,
          update_interval := 2\<rparr>)
       (example_net\<lparr>params := [\<lparr>data = [4], diff = [1]\<rparr>]\<rparr>) [] Map.empty)"

theorem effective_rates_of_update_rules_witness:
  "GetLearningRate (param example_scaled) (iter example_scaled) = Inr (1 / 10)
   \<and> update_interval (param example_scaled) = 2
   \<and> weight_decay (param example_scaled) = 1 / 4
   \<and> params_lr (net example_scaled) = [1]
   \<and> params_weight_decay (net example_scaled) = [1]
   \<and> map_sum id (\<lambda>s. map diff (params (net s))) (SGDSolver_ComputeUpdateValue example_scaled)
       = Inr [[3 / 20]]
   \<and> map_sum id (\<lambda>s. map diff (params (net s)))
        (NesterovSolver_ComputeUpdateValue example_scaled)
       = Inr [[9 / 40]]"
proof -
  have r: "GetLearningRate (param example_scaled) (iter example_scaled) = Inr (1 / 10)"
    by code_simp
  have p: "update_interval (param example_scaled) = 2"
    "weight_decay (param example_scaled) = 1 / 4"
    "params_lr (net example_scaled) = [1]"
    "params_weight_decay (net example_scaled) = [1]"
    "momentum (param example_scaled) = 1 / 2"
    "regularization_type (param example_scaled) = ''L2''"
    by (simp_all add: example_scaled_def PreSolve_def SGDSolver_PreSolve_def Init_def
        example_param_def example_net_def)
  have l: "log_lr (1 / 10) example_scaled = example_scaled"
    by (simp add: log_lr_def example_scaled_def PreSolve_def SGDSolver_PreSolve_def Init_def
        example_param_def)
  have n: "length (params (net example_scaled)) = 1"
    by (simp add: example_scaled_def PreSolve_def SGDSolver_PreSolve_def Init_def
        example_net_def)
  have a: "map_sum id (\<lambda>s. map diff (params (net s)))
      (update_with_rates load store (\<lambda>rate decay. SGDSolver_param rate decay (1 / 2) ''L2'')
         (\<lambda>param_id. 1 / 10 * [1] ! param_id / of_int 2)
         (\<lambda>param_id. 1 / 4 * [1] ! param_id * of_int 2) example_scaled) = Inr [[3 / 20]]"
    by code_simp
  have b: "map_sum id (\<lambda>s. map diff (params (net s)))
      (update_with_rates load store (\<lambda>rate decay. NesterovSolver_param rate decay (1 / 2) ''L2'')
         (\<lambda>param_id. 1 / 10 * [1] ! param_id / of_int 2)
         (\<lambda>param_id. 1 / 4 * [1] ! param_id * of_int 2) example_scaled) = Inr [[9 / 40]]"
    by code_simp
  show ?thesis
    using effective_rates_of_update_rules [where s = example_scaled and r = "1 / 10"] r a b
    by (simp add: p l)
qed

text \<open>
  C1 as stated covers AdaGrad too. With \<open>update_interval\<close> 2, schedule rate \<open>1/10\<close>,
  weight decay \<open>1/4\<close>, both multipliers 1, a weight 4 with gradient 1 and an empty
  history, \<open>AdaGradSolver::ComputeUpdateValue\<close> writes the update \<open>1/15\<close> (rate \<open>1/10\<close>,
  decay \<open>1/4\<close>); the rule run with the rate \<open>1/10 / 2\<close> and the decay \<open>1/4 * 2\<close> writes
  \<open>3/80\<close>.
\<close>

theorem adaptive_rules_without_update_interval:
  "GetLearningRate (param example_scaled) (iter example_scaled) = Inr (1 / 10)
   \<and> update_interval (param example_scaled) = 2
   \<and> weight_decay (param example_scaled) = 1 / 4
   \<and> params_lr (net example_scaled) = [1]
   \<and> params_weight_decay (net example_scaled) = [1]
   \<and> map_sum id (\<lambda>s. map diff (params (net s)))
        (AdaGradSolver_ComputeUpdateValue example_scaled)
       = Inr [[1 / 15]]
   \<and> map_sum id (\<lambda>s. map diff (params (net s)))
        (update_with_rates load store
           (\<lambda>rate decay. AdaGradSolver_param rate decay (delta (param example_scaled))
              (regularization_type (param example_scaled)))
           (\<lambda>param_id. 1 / 10 * params_lr (net example_scaled) ! param_id
              / of_int (update_interval (param example_scaled)))
           (\<lambda>param_id. weight_decay (param example_scaled)
              * params_weight_decay (net example_scaled) ! param_id
              * of_int (update_interval (param example_scaled)))
           (log_lr (1 / 10) example_scaled))
       = Inr [[3 / 80]]"
proof -
  have r: "GetLearningRate (param example_scaled) (iter example_scaled) = Inr (1 / 10)"
    by code_simp
  have s: "example_scaled =
      \<lparr>solver_type = SGD,
       param = example_param\<lparr>weight_decay := 1 / 4, has_update_interval := True,
          update_interval := 2\<rparr>,
       iter = 0, net = example_net\<lparr>params := [\<lparr>data = [4], diff = [1]\<rparr>]\<rparr>,
       test_nets = [], history = [\<lparr>data = [0], diff = [0]\<rparr>],
       update = [\<lparr>data = [0], diff = [0]\<rparr>], temp = [\<lparr>data = [0], diff = [0]\<rparr>],
       caffe_phase = TRAIN, caffe_mode = CPU, caffe_accumulate = True, files = Map.empty,
       trace = []\<rparr>"
    by (simp add: example_scaled_def PreSolve_def SGDSolver_PreSolve_def Init_def
        example_param_def example_net_def new_Blob_def count_def)
  have code: "AdaGradSolver_param (1 / 10) (1 / 4) 1 ''L2''
      \<lparr>w_data = [4], w_diff = [1], w_history = [0], w_update = [0], w_temp = [0]\<rparr>
     = Inr \<lparr>w_data = [4], w_diff = [1 / 15], w_history = [4], w_update = [2 / 3],
         w_temp = [0]\<rparr>"
    by (simp add: AdaGradSolver_param_def Regularize_def Let_def kernels_full
        caffe_powx_two caffe_powx_half caffe_div_nonzero)
  have claimed: "AdaGradSolver_param (1 / 20) (1 / 2) 1 ''L2''
      \<lparr>w_data = [4], w_diff = [1], w_history = [0], w_update = [0], w_temp = [0]\<rparr>
     = Inr \<lparr>w_data = [4], w_diff = [3 / 80], w_history = [9], w_update = [3 / 4],
         w_temp = [0]\<rparr>"
    by (simp add: AdaGradSolver_param_def Regularize_def Let_def kernels_full
        caffe_powx_two caffe_powx_half caffe_div_nonzero sqrt_nine)
  show ?thesis
    using r code claimed
    by (simp add: s AdaGradSolver_ComputeUpdateValue_def update_with_rates_def log_lr_def
        example_param_def example_net_def load_def store_def Let_def)
qed

section \<open>The AdaDelta rule\<close>

text \<open>
  The AdaDelta transform of one element as the specification's table writes it: from
  the gradient after decay \<open>g\<close>, the gradient accumulator and the update accumulator, the
  two new accumulators and the update written to the gradient buffer.
\<close>

definition AdaDelta_element ::
  "Dtype \<Rightarrow> Dtype \<Rightarrow> Dtype \<Rightarrow> Dtype \<Rightarrow> Dtype \<Rightarrow> Dtype \<Rightarrow> Dtype \<times> Dtype \<times> Dtype" where
  "AdaDelta_element mom dlt rate g grad_h update_h =
     (let grad_h' = (1 - mom) * g\<^sup>2 + mom * grad_h;
          delta_upd = sqrt ((update_h + dlt) / (grad_h' + dlt)) * g;
          update_h' = (1 - mom) * delta_upd\<^sup>2 + mom * update_h
      in (grad_h', update_h', rate * delta_upd))"

text \<open>Where the quotient under the root is a number and has a root.\<close>

definition AdaDelta_defined :: "Dtype \<Rightarrow> Dtype \<Rightarrow> Dtype \<Rightarrow> Dtype \<Rightarrow> Dtype \<Rightarrow> bool" where
  "AdaDelta_defined mom dlt g grad_h update_h =
     (let grad_h' = (1 - mom) * g\<^sup>2 + mom * grad_h
      in grad_h' + dlt \<noteq> 0 \<and> 0 \<le> (update_h + dlt) / (grad_h' + dlt))"

lemma Regularize_frame:
  assumes "Regularize reg local_decay w = Inr wg"
    and "length (w_diff w) = length (w_data w)" "length (w_temp w) = length (w_data w)"
  shows "w_data wg = w_data w" "w_history wg = w_history w" "w_update wg = w_update w"
    "Workspace.more wg = Workspace.more w"
    "length (w_diff wg) = length (w_data w)" "length (w_temp wg) = length (w_data w)"
  using assms
  by (auto simp: Regularize_def Let_def kernels_full split: if_splits)

lemma Regularize_update_history:
  fixes w wg :: AdaDeltaWorkspace
  assumes "Regularize reg local_decay w = Inr wg"
  shows "w_update_history wg = w_update_history w"
  using assms
  by (auto simp: Regularize_def Let_def split: if_splits)

lemma AdaDeltaSolver_param_lists:
  fixes w wg :: AdaDeltaWorkspace
  assumes len: "length (w_data w) = n" "length (w_diff w) = n" "length (w_history w) = n"
      "length (w_update w) = n" "length (w_temp w) = n" "length (w_update_history w) = n"
    and reg: "Regularize reg local_decay w = Inr wg"
    and ok: "\<forall>k<n. AdaDelta_defined mom dlt (w_diff wg ! k) (w_history w ! k)
        (w_update_history w ! k)"
  defines "h1 \<equiv> map2 (\<lambda>x y. (1 - mom) * x + mom * y) (map (\<lambda>a. a\<^sup>2) (w_diff wg)) (w_history w)"
  defines "u3 \<equiv> map2 (\<lambda>a b. a / b) (map2 (\<lambda>a b. a + b) (replicate n dlt) (w_update_history w))
      (map2 (\<lambda>a b. a + b) (replicate n dlt) h1)"
  defines "d1 \<equiv> map2 (\<lambda>a b. a * b) (w_diff wg) (map sqrt u3)"
  shows "\<exists>w'. AdaDeltaSolver_param rate local_decay mom dlt reg w = Inr w'
      \<and> w_history w' = h1
      \<and> w_update_history w' =
          map2 (\<lambda>x y. (1 - mom) * x + mom * y) (map (\<lambda>a. a\<^sup>2) d1) (w_update_history w)
      \<and> w_diff w' = map (\<lambda>x. rate * x) d1
      \<and> w_data w' = w_data w
      \<and> length (w_update w') = n \<and> length (w_temp w') = n"
proof -
  note rf = Regularize_frame [OF reg]
  have g: "w_data wg = w_data w" "w_history wg = w_history w" "w_update wg = w_update w"
    "w_update_history wg = w_update_history w"
    "length (w_diff wg) = n" "length (w_temp wg) = n"
    using rf len Regularize_update_history [OF reg] by simp_all
  let ?u1 = "map (\<lambda>a. a\<^sup>2) (w_diff wg)"
  let ?t1 = "replicate n dlt"
  let ?u2 = "map2 (\<lambda>a b. a + b) ?t1 (w_update_history w)"
  let ?t2 = "map2 (\<lambda>a b. a + b) ?t1 h1"
  have lh1: "length h1 = n" and lu3: "length u3 = n" and ld1: "length d1 = n"
    using len g by (simp_all add: h1_def u3_def d1_def)
  have t2: "?t2 ! k = (1 - mom) * (w_diff wg ! k)\<^sup>2 + mom * w_history w ! k + dlt"
    if "k < n" for k
    using that len g by (simp add: h1_def)
  have u2: "?u2 ! k = w_update_history w ! k + dlt" if "k < n" for k
    using that len by simp
  have nz: "\<forall>k<n. ?t2 ! k \<noteq> 0"
    using ok t2 by (simp add: AdaDelta_defined_def Let_def)
  have nn: "\<forall>k<n. 0 \<le> u3 ! k"
  proof (intro allI impI)
    fix k assume k: "k < n"
    have "u3 ! k = ?u2 ! k / ?t2 ! k"
      using k len lh1 by (simp add: u3_def)
    then show "0 \<le> u3 ! k"
      using ok k t2 [OF k] u2 [OF k] by (simp add: AdaDelta_defined_def Let_def)
  qed
  have s1: "caffe_powx n (w_diff wg) 2 (w_update w) = Inr ?u1"
    using g len by (intro caffe_powx_two) simp_all
  have s2: "caffe_cpu_axpby n (1 - mom) ?u1 mom (w_history w) = h1"
    using g len by (simp add: kernels_full h1_def)
  have s3: "caffe_set n dlt (w_temp wg) = ?t1"
    using g by (simp add: kernels_full)
  have s4: "caffe_add n ?t1 (w_update_history w) ?u1 = ?u2"
    using g len by (simp add: kernels_full)
  have s5: "caffe_add n ?t1 h1 ?t1 = ?t2"
    using lh1 by (simp add: kernels_full)
  have s6: "caffe_div n ?u2 ?t2 ?u2 = Inr u3"
    unfolding u3_def using nz len lh1 by (intro caffe_div_nonzero) simp_all
  have s7: "caffe_powx n u3 (1 / 2) u3 = Inr (map sqrt u3)"
    using lu3 nn by (intro caffe_powx_half) simp_all
  have s8: "caffe_mul n (w_diff wg) (map sqrt u3) (w_diff wg) = d1"
    using g lu3 by (simp add: kernels_full d1_def)
  have s9: "caffe_powx n d1 2 (map sqrt u3) = Inr (map (\<lambda>a. a\<^sup>2) d1)"
    using ld1 lu3 by (intro caffe_powx_two) simp_all
  have s10: "caffe_cpu_axpby n (1 - mom) (map (\<lambda>a. a\<^sup>2) d1) mom (w_update_history w)
      = map2 (\<lambda>x y. (1 - mom) * x + mom * y) (map (\<lambda>a. a\<^sup>2) d1) (w_update_history w)"
    using ld1 len by (simp add: kernels_full)
  have s11: "caffe_cpu_axpby n rate d1 0 ?t2 = map (\<lambda>x. rate * x) d1"
  proof -
    have "length ?t2 = n" using lh1 by simp
    then have "caffe_cpu_axpby n rate d1 0 ?t2 = map2 (\<lambda>x y. rate * x + 0 * y) d1 ?t2"
      using ld1 by (intro kernels_full(2)) simp_all
    also have "\<dots> = map (\<lambda>x. rate * x) d1"
      using ld1 \<open>length ?t2 = n\<close>
      by (intro nth_equalityI) simp_all
    finally show ?thesis .
  qed
  have s12: "caffe_copy n (map (\<lambda>x. rate * x) d1) d1 = map (\<lambda>x. rate * x) d1"
    using ld1 by (simp add: kernels_full)
  show ?thesis
    unfolding AdaDeltaSolver_param_def Let_def
    by (simp add: reg len g s1 s2 s3 s4 s5 s6 s7 s8 s9 s10 s11 s12 ld1)
qed

text \<open>
  The buffers as \<open>AdaDeltaSolver::PreSolve\<close> leaves them and every pass keeps them:
  \<open>2 * n\<close> history buffers, \<open>n\<close> update and \<open>n\<close> temp buffers, and every buffer of
  parameter \<open>i\<close>, also its gradient, of the parameter's count.
\<close>

definition AdaDelta_ready :: "'x Solver \<Rightarrow> bool" where
  "AdaDelta_ready s \<longleftrightarrow>
     (let n = length (params (net s)) in
      length (history s) = 2 * n \<and> length (update s) = n \<and> length (temp s) = n
      \<and> (\<forall>i<n. let c = count (params (net s) ! i) in
            length (diff (params (net s) ! i)) = c
            \<and> length (data (history s ! i)) = c
            \<and> length (data (history s ! (n + i))) = c
            \<and> length (data (update s ! i)) = c
            \<and> length (data (temp s ! i)) = c))"

lemma AdaDelta_loop:
  fixes w :: "nat \<Rightarrow> AdaDeltaWorkspace"
  assumes n: "length (params (net s)) = n" "length (history s) = 2 * n"
      "length (update s) = n" "length (temp s) = n"
    and ok: "\<And>i. i < n \<Longrightarrow> rule i (load_AdaDelta s i) = Inr (w i)"
    and m: "m \<le> n"
  shows "\<exists>s'. for_each [0..<m]
        (\<lambda>i a. ebind (rule i (load_AdaDelta a i)) (\<lambda>w. Inr (store_AdaDelta a i w))) s = Inr s'
      \<and> length (params (net s')) = n \<and> length (history s') = 2 * n
      \<and> length (update s') = n \<and> length (temp s') = n
      \<and> (\<forall>i<n. data (params (net s') ! i) = data (params (net s) ! i))
      \<and> (\<forall>i<m. diff (params (net s') ! i) = w_diff (w i)
            \<and> data (history s' ! i) = w_history (w i)
            \<and> data (history s' ! (n + i)) = w_update_history (w i)
            \<and> data (update s' ! i) = w_update (w i)
            \<and> data (temp s' ! i) = w_temp (w i))
      \<and> (\<forall>i. m \<le> i \<and> i < n \<longrightarrow> load_AdaDelta s' i = load_AdaDelta s i)"
  using m
proof (induction m)
  case 0
  show ?case using n by simp
next
  case (Suc m)
  then have mn: "m < n" by simp
  let ?body = "\<lambda>i a. ebind (rule i (load_AdaDelta a i)) (\<lambda>w. Inr (store_AdaDelta a i w))"
  from Suc.IH mn obtain a where a: "for_each [0..<m] ?body s = Inr a"
    and len: "length (params (net a)) = n" "length (history a) = 2 * n"
      "length (update a) = n" "length (temp a) = n"
    and dat: "\<forall>i<n. data (params (net a) ! i) = data (params (net s) ! i)"
    and fin: "\<forall>i<m. diff (params (net a) ! i) = w_diff (w i)
            \<and> data (history a ! i) = w_history (w i)
            \<and> data (history a ! (n + i)) = w_update_history (w i)
            \<and> data (update a ! i) = w_update (w i)
            \<and> data (temp a ! i) = w_temp (w i)"
    and todo: "\<forall>i. m \<le> i \<and> i < n \<longrightarrow> load_AdaDelta a i = load_AdaDelta s i"
    by auto
  have ld: "load_AdaDelta a m = load_AdaDelta s m"
    using todo mn by simp
  let ?b = "store_AdaDelta a m (w m)"
  have step: "?body m a = Inr ?b"
    using ok [OF mn] ld by simp
  have run: "for_each [0..<Suc m] ?body s = Inr ?b"
    using a step by (simp add: for_each_append)
  have b1: "length (params (net ?b)) = n" "length (history ?b) = 2 * n"
      "length (update ?b) = n" "length (temp ?b) = n"
    using len by (simp_all add: store_AdaDelta_def store_def Let_def)
  have b2: "\<forall>i<n. data (params (net ?b) ! i) = data (params (net s) ! i)"
    using len dat mn by (auto simp: store_AdaDelta_def store_def Let_def nth_list_update)
  have b3: "diff (params (net ?b) ! i) = w_diff (w i)
            \<and> data (history ?b ! i) = w_history (w i)
            \<and> data (history ?b ! (n + i)) = w_update_history (w i)
            \<and> data (update ?b ! i) = w_update (w i)
            \<and> data (temp ?b ! i) = w_temp (w i)" if "i < Suc m" for i
  proof (cases "i = m")
    case True
    then show ?thesis
      using len mn by (simp add: store_AdaDelta_def store_def Let_def nth_list_update)
  next
    case False
    then have "i < m" using that by simp
    then show ?thesis
      using len mn fin False
      by (simp add: store_AdaDelta_def store_def Let_def nth_list_update)
  qed
  have b4: "load_AdaDelta ?b i = load_AdaDelta s i" if "Suc m \<le> i \<and> i < n" for i
  proof -
    have "load_AdaDelta ?b i = load_AdaDelta a i"
      using that len mn
      by (simp add: load_AdaDelta_def store_AdaDelta_def store_def Let_def nth_list_update)
    then show ?thesis using todo that by simp
  qed
  show ?case
    using run b1 b2 b3 b4 by blast
qed

lemma AdaDeltaSolver_param_elements:
  fixes w wg :: AdaDeltaWorkspace
  assumes len: "length (w_data w) = n" "length (w_diff w) = n" "length (w_history w) = n"
      "length (w_update w) = n" "length (w_temp w) = n" "length (w_update_history w) = n"
    and reg: "Regularize reg local_decay w = Inr wg"
    and ok: "\<forall>k<n. AdaDelta_defined mom dlt (w_diff wg ! k) (w_history w ! k)
        (w_update_history w ! k)"
  shows "\<exists>w'. AdaDeltaSolver_param rate local_decay mom dlt reg w = Inr w'
      \<and> w_data w' = w_data w
      \<and> length (w_history w') = n \<and> length (w_update_history w') = n
      \<and> length (w_diff w') = n \<and> length (w_update w') = n \<and> length (w_temp w') = n
      \<and> (\<forall>k<n. (w_history w' ! k, w_update_history w' ! k, w_diff w' ! k)
            = AdaDelta_element mom dlt rate (w_diff wg ! k) (w_history w ! k)
                (w_update_history w ! k))"
proof -
  have lg: "length (w_diff wg) = n"
    using Regularize_frame(5) [OF reg] len by simp
  define h1 where
    "h1 = map2 (\<lambda>x y. (1 - mom) * x + mom * y) (map (\<lambda>a. a\<^sup>2) (w_diff wg)) (w_history w)"
  define u3 where
    "u3 = map2 (\<lambda>a b. a / b) (map2 (\<lambda>a b. a + b) (replicate n dlt) (w_update_history w))
      (map2 (\<lambda>a b. a + b) (replicate n dlt) h1)"
  define d1 where "d1 = map2 (\<lambda>a b. a * b) (w_diff wg) (map sqrt u3)"
  obtain w' where w': "AdaDeltaSolver_param rate local_decay mom dlt reg w = Inr w'"
    "w_history w' = h1"
    "w_update_history w' =
       map2 (\<lambda>x y. (1 - mom) * x + mom * y) (map (\<lambda>a. a\<^sup>2) d1) (w_update_history w)"
    "w_diff w' = map (\<lambda>x. rate * x) d1"
    "w_data w' = w_data w"
    "length (w_update w') = n" "length (w_temp w') = n"
    using AdaDeltaSolver_param_lists [OF len reg ok, of rate]
    unfolding h1_def u3_def d1_def by blast
  have lh1: "length h1 = n" and lu3: "length u3 = n" and ld1: "length d1 = n"
    using len lg by (simp_all add: h1_def u3_def d1_def)
  have el: "(w_history w' ! k, w_update_history w' ! k, w_diff w' ! k)
      = AdaDelta_element mom dlt rate (w_diff wg ! k) (w_history w ! k)
          (w_update_history w ! k)" if k: "k < n" for k
  proof -
    have 1: "h1 ! k = (1 - mom) * (w_diff wg ! k)\<^sup>2 + mom * w_history w ! k"
      using k len lg by (simp add: h1_def)
    have 2: "u3 ! k = (w_update_history w ! k + dlt) / (h1 ! k + dlt)"
      using k len lh1 by (simp add: u3_def add.commute)
    have 3: "d1 ! k = sqrt (u3 ! k) * w_diff wg ! k"
      using k lg lu3 by (simp add: d1_def mult.commute)
    have 4: "w_update_history w' ! k = (1 - mom) * (d1 ! k)\<^sup>2 + mom * w_update_history w ! k"
      using k len ld1 by (simp add: w')
    have 5: "w_diff w' ! k = rate * d1 ! k"
      using k ld1 by (simp add: w')
    show ?thesis
      unfolding AdaDelta_element_def Let_def
      by (simp only: 4 5 w'(2) 3 2 1)
  qed
  show ?thesis
  proof (intro exI conjI allI impI)
    show "AdaDeltaSolver_param rate local_decay mom dlt reg w = Inr w'" by (rule w'(1))
    show "w_data w' = w_data w" by (rule w'(5))
    show "length (w_history w') = n" using lh1 by (simp add: w')
    show "length (w_update_history w') = n" using ld1 len by (simp add: w')
    show "length (w_diff w') = n" using ld1 by (simp add: w')
    show "length (w_update w') = n" by (rule w'(6))
    show "length (w_temp w') = n" by (rule w'(7))
    show "(w_history w' ! k, w_update_history w' ! k, w_diff w' ! k)
      = AdaDelta_element mom dlt rate (w_diff wg ! k) (w_history w ! k)
          (w_update_history w ! k)" if "k < n" for k
      using that by (rule el)
  qed
qed

lemma load_AdaDelta_log_lr: "load_AdaDelta (log_lr r s) i = load_AdaDelta s i"
  by (simp add: load_AdaDelta_def log_lr_def emit_def Let_def)

lemma log_lr_buffers:
  "history (log_lr r s) = history s" "update (log_lr r s) = update s"
  "temp (log_lr r s) = temp s"
  by (simp_all add: log_lr_def emit_def)

lemma AdaDeltaSolver_ComputeUpdateValue_loop:
  assumes "GetLearningRate (param s) (iter s) = Inr r"
  shows "AdaDeltaSolver_ComputeUpdateValue s =
     for_each [0..<length (params (net s))] (\<lambda>i a.
       ebind (AdaDeltaSolver_param (r * params_lr (net s) ! i)
                (weight_decay (param s) * params_weight_decay (net s) ! i)
                (momentum (param s)) (delta (param s)) (regularization_type (param s))
                (load_AdaDelta a i))
         (\<lambda>w. Inr (store_AdaDelta a i w))) (log_lr r s)"
  using assms
  unfolding AdaDeltaSolver_ComputeUpdateValue_def Let_def mode_case_same
  by (simp add: log_lr_frame)
     (rule param_loop_rates,
      simp add: same_multipliers_log_lr same_multipliers_def log_lr_frame,
      simp add: same_multipliers_log_lr same_multipliers_store_AdaDelta)

lemma AdaDeltaSolver_PreSolve_ready:
  assumes "\<forall>b \<in> set (params (net s)). length (diff b) = count b"
  shows "AdaDelta_ready (AdaDeltaSolver_PreSolve s)"
  using assms
  by (simp add: AdaDelta_ready_def AdaDeltaSolver_PreSolve_def Let_def nth_append
      new_Blob_def count_def)

definition example_adaptive :: "nat Solver" where
  "example_adaptive =
     (PreSolve (Init AdaDelta (example_param\<lparr>weight_decay := 1\<rparr>)
        (example_net\<lparr>params := [\<lparr>data = [1], diff = [1]\<rparr>]\<rparr>) [] Map.empty))
       \<lparr>history := [\<lparr>data = [0], diff = [0]\<rparr>, \<lparr>data = [11], diff = [0]\<rparr>]\<rparr>"

text \<open>
  C8. AdaDelta keeps two accumulators per parameter in \<open>history\<close>: the gradient
  accumulator of parameter \<open>i\<close> at index \<open>i\<close> and its update accumulator at index
  \<open>n + i\<close>, \<open>n\<close> the number of parameters; \<open>PreSolve\<close> allocates \<open>2 * n\<close> history buffers.
  On buffers of that layout, when the schedule gives the rate \<open>r\<close>, the decay step
  returns the gradients \<open>g\<close> and every quotient under the root is a non-negative number,
  \<open>AdaDeltaSolver::ComputeUpdateValue\<close> returns, keeps the layout and the weights, and
  for every parameter \<open>i\<close> and element \<open>k\<close> leaves
  \<open>grad_h' = (1 - momentum) * g\<^sup>2 + momentum * grad_h\<close> in \<open>history[i]\<close>,
  \<open>update_h' = (1 - momentum) * d\<^sup>2 + momentum * update_h\<close> in \<open>history[n + i]\<close>, where
  \<open>d = sqrt ((update_h + delta) / (grad_h' + delta)) * g\<close>, and \<open>rate * d\<close> in the parameter's
  gradient, \<open>rate\<close> being \<open>r\<close> times the parameter's lr multiplier.
\<close>

theorem AdaDelta_update_rule:
  fixes wg :: "nat \<Rightarrow> AdaDeltaWorkspace"
  shows
  "(GetLearningRate (param s) (iter s) = Inr r \<and> AdaDelta_ready s
      \<and> (\<forall>i<length (params (net s)).
            Regularize (regularization_type (param s))
              (weight_decay (param s) * params_weight_decay (net s) ! i)
              (load_AdaDelta s i) = Inr (wg i))
      \<and> (\<forall>i<length (params (net s)). \<forall>k<count (params (net s) ! i).
            AdaDelta_defined (momentum (param s)) (delta (param s)) (w_diff (wg i) ! k)
              (data (history s ! i) ! k)
              (data (history s ! (length (params (net s)) + i)) ! k))
    \<longrightarrow> (\<exists>s'. AdaDeltaSolver_ComputeUpdateValue s = Inr s' \<and> AdaDelta_ready s'
          \<and> length (params (net s')) = length (params (net s))
          \<and> (\<forall>i<length (params (net s)).
                data (params (net s') ! i) = data (params (net s) ! i)
                \<and> (\<forall>k<count (params (net s) ! i).
                      (data (history s' ! i) ! k,
                       data (history s' ! (length (params (net s)) + i)) ! k,
                       diff (params (net s') ! i) ! k)
                      = AdaDelta_element (momentum (param s)) (delta (param s))
                          (r * params_lr (net s) ! i) (w_diff (wg i) ! k)
                          (data (history s ! i) ! k)
                          (data (history s ! (length (params (net s)) + i)) ! k)))))
   \<and> length (history (AdaDeltaSolver_PreSolve s)) = 2 * length (params (net s))
   \<and> ((\<forall>b \<in> set (params (net s)). length (diff b) = count b)
        \<longrightarrow> AdaDelta_ready (AdaDeltaSolver_PreSolve s))"
proof (intro conjI impI)
  show "length (history (AdaDeltaSolver_PreSolve s)) = 2 * length (params (net s))"
    by (simp add: AdaDeltaSolver_PreSolve_def)
  show "AdaDelta_ready (AdaDeltaSolver_PreSolve s)"
    if "\<forall>b \<in> set (params (net s)). length (diff b) = count b"
    using that by (rule AdaDeltaSolver_PreSolve_ready)
next
  let ?n = "length (params (net s))"
  let ?mom = "momentum (param s)" and ?dlt = "delta (param s)"
  let ?reg = "regularization_type (param s)"
  let ?rate = "\<lambda>i. r * params_lr (net s) ! i"
  let ?decay = "\<lambda>i. weight_decay (param s) * params_weight_decay (net s) ! i"
  let ?rule = "\<lambda>i. AdaDeltaSolver_param (?rate i) (?decay i) ?mom ?dlt ?reg"
  assume a: "GetLearningRate (param s) (iter s) = Inr r \<and> AdaDelta_ready s
      \<and> (\<forall>i<?n. Regularize ?reg (?decay i) (load_AdaDelta s i) = Inr (wg i))
      \<and> (\<forall>i<?n. \<forall>k<count (params (net s) ! i).
            AdaDelta_defined ?mom ?dlt (w_diff (wg i) ! k) (data (history s ! i) ! k)
              (data (history s ! (?n + i)) ! k))"
  then have r: "GetLearningRate (param s) (iter s) = Inr r"
    and ready: "AdaDelta_ready s"
    and reg: "\<And>i. i < ?n \<Longrightarrow> Regularize ?reg (?decay i) (load_AdaDelta s i) = Inr (wg i)"
    and ok: "\<And>i k. i < ?n \<Longrightarrow> k < count (params (net s) ! i) \<Longrightarrow>
        AdaDelta_defined ?mom ?dlt (w_diff (wg i) ! k) (data (history s ! i) ! k)
          (data (history s ! (?n + i)) ! k)"
    by simp_all
  have bufs: "length (history s) = 2 * ?n" "length (update s) = ?n" "length (temp s) = ?n"
    using ready by (simp_all add: AdaDelta_ready_def Let_def)
  have lens: "length (w_data (load_AdaDelta s i)) = count (params (net s) ! i)"
      "length (w_diff (load_AdaDelta s i)) = count (params (net s) ! i)"
      "length (w_history (load_AdaDelta s i)) = count (params (net s) ! i)"
      "length (w_update (load_AdaDelta s i)) = count (params (net s) ! i)"
      "length (w_temp (load_AdaDelta s i)) = count (params (net s) ! i)"
      "length (w_update_history (load_AdaDelta s i)) = count (params (net s) ! i)"
    if "i < ?n" for i
    using ready that by (simp_all add: AdaDelta_ready_def Let_def load_AdaDelta_def count_def)
  define w where "w i = projr (?rule i (load_AdaDelta s i))" for i
  have w: "?rule i (load_AdaDelta s i) = Inr (w i)
      \<and> w_data (w i) = data (params (net s) ! i)
      \<and> length (w_history (w i)) = count (params (net s) ! i)
      \<and> length (w_update_history (w i)) = count (params (net s) ! i)
      \<and> length (w_diff (w i)) = count (params (net s) ! i)
      \<and> length (w_update (w i)) = count (params (net s) ! i)
      \<and> length (w_temp (w i)) = count (params (net s) ! i)
      \<and> (\<forall>k<count (params (net s) ! i).
            (w_history (w i) ! k, w_update_history (w i) ! k, w_diff (w i) ! k)
            = AdaDelta_element ?mom ?dlt (?rate i) (w_diff (wg i) ! k)
                (data (history s ! i) ! k) (data (history s ! (?n + i)) ! k))"
    if i: "i < ?n" for i
  proof -
    have ok': "\<forall>k<count (params (net s) ! i).
        AdaDelta_defined ?mom ?dlt (w_diff (wg i) ! k) (w_history (load_AdaDelta s i) ! k)
          (w_update_history (load_AdaDelta s i) ! k)"
      using ok [OF i] by (simp add: load_AdaDelta_def Let_def)
    obtain w' where w': "?rule i (load_AdaDelta s i) = Inr w'"
      "w_data w' = w_data (load_AdaDelta s i)"
      "length (w_history w') = count (params (net s) ! i)"
      "length (w_update_history w') = count (params (net s) ! i)"
      "length (w_diff w') = count (params (net s) ! i)"
      "length (w_update w') = count (params (net s) ! i)"
      "length (w_temp w') = count (params (net s) ! i)"
      "\<forall>k<count (params (net s) ! i).
         (w_history w' ! k, w_update_history w' ! k, w_diff w' ! k)
         = AdaDelta_element ?mom ?dlt (?rate i) (w_diff (wg i) ! k)
             (w_history (load_AdaDelta s i) ! k) (w_update_history (load_AdaDelta s i) ! k)"
      using AdaDeltaSolver_param_elements [OF lens [OF i] reg [OF i] ok', of "?rate i"]
      by blast
    have "w i = w'"
      by (simp add: w_def w'(1))
    then show ?thesis
      using w' by (simp add: load_AdaDelta_def Let_def)
  qed
  let ?s0 = "log_lr r s"
  have "\<exists>s'. for_each [0..<?n]
        (\<lambda>i a. ebind (?rule i (load_AdaDelta a i)) (\<lambda>w. Inr (store_AdaDelta a i w))) ?s0
          = Inr s'
      \<and> length (params (net s')) = ?n \<and> length (history s') = 2 * ?n
      \<and> length (update s') = ?n \<and> length (temp s') = ?n
      \<and> (\<forall>i<?n. data (params (net s') ! i) = data (params (net ?s0) ! i))
      \<and> (\<forall>i<?n. diff (params (net s') ! i) = w_diff (w i)
            \<and> data (history s' ! i) = w_history (w i)
            \<and> data (history s' ! (?n + i)) = w_update_history (w i)
            \<and> data (update s' ! i) = w_update (w i)
            \<and> data (temp s' ! i) = w_temp (w i))
      \<and> (\<forall>i. ?n \<le> i \<and> i < ?n \<longrightarrow> load_AdaDelta s' i = load_AdaDelta ?s0 i)"
  proof (rule AdaDelta_loop)
    show "length (params (net ?s0)) = ?n" by (simp add: log_lr_frame)
    show "length (history ?s0) = 2 * ?n" "length (update ?s0) = ?n" "length (temp ?s0) = ?n"
      using bufs by (simp_all add: log_lr_buffers)
    show "?rule i (load_AdaDelta ?s0 i) = Inr (w i)" if "i < ?n" for i
      using w [OF that] by (simp add: load_AdaDelta_log_lr)
    show "?n \<le> ?n" by simp
  qed
  then obtain s' where run: "for_each [0..<?n]
        (\<lambda>i a. ebind (?rule i (load_AdaDelta a i)) (\<lambda>w. Inr (store_AdaDelta a i w))) ?s0
          = Inr s'"
    and len': "length (params (net s')) = ?n" "length (history s') = 2 * ?n"
      "length (update s') = ?n" "length (temp s') = ?n"
    and dat: "\<And>i. i < ?n \<Longrightarrow> data (params (net s') ! i) = data (params (net s) ! i)"
    and res: "\<And>i. i < ?n \<Longrightarrow> diff (params (net s') ! i) = w_diff (w i)
            \<and> data (history s' ! i) = w_history (w i)
            \<and> data (history s' ! (?n + i)) = w_update_history (w i)
            \<and> data (update s' ! i) = w_update (w i)
            \<and> data (temp s' ! i) = w_temp (w i)"
    by (auto simp: log_lr_frame)
  have cuv: "AdaDeltaSolver_ComputeUpdateValue s = Inr s'"
    using AdaDeltaSolver_ComputeUpdateValue_loop [OF r] run by simp
  have ready': "AdaDelta_ready s'"
    using len' dat res w by (simp add: AdaDelta_ready_def Let_def count_def)
  have el: "data (params (net s') ! i) = data (params (net s) ! i)
      \<and> (\<forall>k<count (params (net s) ! i).
            (data (history s' ! i) ! k, data (history s' ! (?n + i)) ! k,
             diff (params (net s') ! i) ! k)
            = AdaDelta_element ?mom ?dlt (?rate i) (w_diff (wg i) ! k)
                (data (history s ! i) ! k) (data (history s ! (?n + i)) ! k))"
    if i: "i < ?n" for i
    using dat [OF i] res [OF i] w [OF i] by simp
  show "\<exists>s'. AdaDeltaSolver_ComputeUpdateValue s = Inr s' \<and> AdaDelta_ready s'
          \<and> length (params (net s')) = ?n
          \<and> (\<forall>i<?n.
                data (params (net s') ! i) = data (params (net s) ! i)
                \<and> (\<forall>k<count (params (net s) ! i).
                      (data (history s' ! i) ! k, data (history s' ! (?n + i)) ! k,
                       diff (params (net s') ! i) ! k)
                      = AdaDelta_element ?mom ?dlt (?rate i) (w_diff (wg i) ! k)
                          (data (history s ! i) ! k) (data (history s ! (?n + i)) ! k)))"
    using cuv ready' len'(1) el by blast
qed

theorem AdaDelta_update_rule_witness:
  "GetLearningRate (param example_adaptive) (iter example_adaptive) = Inr (1 / 10)
   \<and> AdaDelta_ready example_adaptive
   \<and> Regularize ''L2'' 1 (load_AdaDelta example_adaptive 0)
       = Inr ((load_AdaDelta example_adaptive 0)\<lparr>w_diff := [2]\<rparr>)
   \<and> AdaDelta_defined (1 / 2) 1 2 0 11
   \<and> AdaDelta_element (1 / 2) 1 (1 / 10) 2 0 11 = (2, 27 / 2, 2 / 5)
   \<and> map_sum id (\<lambda>s'. (map data (history s'), map diff (params (net s'))))
        (AdaDeltaSolver_ComputeUpdateValue example_adaptive)
       = Inr ([[2], [27 / 2]], [[2 / 5]])"
proof -
  let ?s = example_adaptive
  have s: "example_adaptive =
      \<lparr>solver_type = AdaDelta, param = example_param\<lparr>weight_decay := 1\<rparr>,
       iter = 0, net = example_net\<lparr>params := [\<lparr>data = [1], diff = [1]\<rparr>]\<rparr>,
       test_nets = [], history = [\<lparr>data = [0], diff = [0]\<rparr>, \<lparr>data = [11], diff = [0]\<rparr>],
       update = [\<lparr>data = [0], diff = [0]\<rparr>], temp = [\<lparr>data = [0], diff = [0]\<rparr>],
       caffe_phase = TRAIN, caffe_mode = CPU, caffe_accumulate = False, files = Map.empty,
       trace = []\<rparr>"
    by (simp add: example_adaptive_def PreSolve_def AdaDeltaSolver_PreSolve_def Init_def
        example_param_def example_net_def new_Blob_def count_def)
  have r: "GetLearningRate (param ?s) (iter ?s) = Inr (1 / 10)"
    by (simp add: s GetLearningRate_def example_param_def)
  have ready: "AdaDelta_ready ?s"
    by (simp add: s AdaDelta_ready_def Let_def count_def example_net_def)
  have ld: "load_AdaDelta ?s 0 =
      \<lparr>w_data = [1], w_diff = [1], w_history = [0], w_update = [0], w_temp = [0],
       w_update_history = [11]\<rparr>"
    by (simp add: s load_AdaDelta_def Let_def example_net_def)
  have reg: "Regularize ''L2'' 1 (load_AdaDelta ?s 0) = Inr ((load_AdaDelta ?s 0)\<lparr>w_diff := [2]\<rparr>)"
    by (simp add: ld Regularize_def Let_def kernels_full)
  have ok: "AdaDelta_defined (1 / 2) 1 2 0 11"
    by (simp add: AdaDelta_defined_def Let_def)
  have el: "AdaDelta_element (1 / 2) 1 (1 / 10) 2 0 11 = (2, 27 / 2, 2 / 5)"
    by (simp add: AdaDelta_element_def Let_def)
  have p: "length (params (net ?s)) = 1" "params_lr (net ?s) = [1]"
    "params_weight_decay (net ?s) = [1]" "weight_decay (param ?s) = 1"
    "momentum (param ?s) = 1 / 2" "delta (param ?s) = 1"
    "regularization_type (param ?s) = ''L2''" "count (params (net ?s) ! 0) = 1"
    "data (history ?s ! 0) = [0]" "data (history ?s ! Suc 0) = [11]"
    "data (params (net ?s) ! 0) = [1]"
    by (simp_all add: s example_net_def example_param_def count_def)
  have "\<exists>s'. AdaDeltaSolver_ComputeUpdateValue ?s = Inr s' \<and> AdaDelta_ready s'
      \<and> length (params (net s')) = 1
      \<and> (data (history s' ! 0) ! 0, data (history s' ! 1) ! 0, diff (params (net s') ! 0) ! 0)
          = (2, 27 / 2, 2 / 5)
      \<and> data (params (net s') ! 0) = [1]"
    using AdaDelta_update_rule [where s = ?s and r = "1 / 10"
        and wg = "\<lambda>i. (load_AdaDelta example_adaptive 0)\<lparr>w_diff := [2]\<rparr>",
        THEN conjunct1]
      r ready reg ok el
    by (auto simp: p ld)
  then obtain s' where s': "AdaDeltaSolver_ComputeUpdateValue ?s = Inr s'"
    "AdaDelta_ready s'" "length (params (net s')) = 1"
    "data (history s' ! 0) ! 0 = 2" "data (history s' ! 1) ! 0 = 27 / 2"
    "diff (params (net s') ! 0) ! 0 = 2 / 5" "data (params (net s') ! 0) = [1]"
    by auto
  have one: "xs = [x]" if "length xs = 1" "xs ! 0 = x" for xs :: "'a list" and x
    using that by (cases xs) simp_all
  have two: "xs = [x, y]" if "length xs = 2" "xs ! 0 = x" "xs ! 1 = y"
    for xs :: "'a list" and x y
    using that by (cases xs; cases "tl xs") auto
  have lens: "length (history s') = 2" "length (data (history s' ! 0)) = 1"
    "length (data (history s' ! 1)) = 1" "length (diff (params (net s') ! 0)) = 1"
    using s'(2,3,7) by (simp_all add: AdaDelta_ready_def Let_def count_def)
  have "data (history s' ! 0) = [2]" "data (history s' ! 1) = [27 / 2]"
    "diff (params (net s') ! 0) = [2 / 5]"
    using lens s'(4,5,6) by (simp_all add: one)
  then have "map data (history s') = [[2], [27 / 2]]" "map diff (params (net s')) = [[2 / 5]]"
    using lens(1) s'(3) by (simp_all add: list_eq_iff_nth_eq less_Suc_eq numeral_2_eq_2)
  then have "map_sum id (\<lambda>s'. (map data (history s'), map diff (params (net s'))))
        (AdaDeltaSolver_ComputeUpdateValue example_adaptive)
       = Inr ([[2], [27 / 2]], [[2 / 5]])"
    using s'(1) by simp
  then show ?thesis
    using r ready reg ok el by simp
qed

section \<open>The loss weight of an output\<close>

lemma concat_singletons: "concat (map (\<lambda>j. [j]) xs) = xs"
  by (induction xs) simp_all

lemma first_output_ids_unit:
  assumes "\<forall>b \<in> set result. count b = 1"
  shows "first_output_ids result = [0..<length result]"
proof -
  have "map (\<lambda>j. replicate (count (result ! j)) j) [0..<length result]
      = map (\<lambda>j. [j]) [0..<length result]"
    using assms by (intro map_cong) simp_all
  then show ?thesis
    unfolding first_output_ids_def by (simp only: concat_singletons)
qed

lemma first_scores_unit:
  "\<forall>b \<in> set result. count b = 1 \<Longrightarrow> length (first_scores result) = length result"
  by (induction result) (simp_all add: first_scores_def count_def)

text \<open>
  An evaluation network with two output blobs, the first of two elements: the blobs
  number 5 and 7 of the network, with loss weights 1 and 2.
\<close>

definition example_eval_net :: "nat Net" where
  "example_eval_net =
     example_net\<lparr>blob_names := [''a'', ''b'', ''c'', ''d'', ''e'', ''accuracy'', ''g'', ''loss''],
       blob_loss_weights := [0, 0, 0, 0, 0, 1, 0, 2],
       output_blob_indices := [5, 7],
       output_blobs := [\<lparr>data = [1 / 2, 1 / 4], diff = [0, 0]\<rparr>, \<lparr>data = [3], diff = [0]\<rparr>]\<rparr>"

text \<open>The lines "Test net output #..." of a trace.\<close>

definition Test_net_outputs :: "event list \<Rightarrow> event list" where
  "Test_net_outputs tr =
     filter (\<lambda>e. case e of Log_Test_net_output i nm v m \<Rightarrow> True | _ \<Rightarrow> False) tr"

lemma vec_at_Inr: "vec_at xs i = Inr v \<longleftrightarrow> i < length xs \<and> v = xs ! i"
  by (auto simp: vec_at_def)

lemma Test_net_outputs_append:
  "Test_net_outputs (a @ b) = Test_net_outputs a @ Test_net_outputs b"
  by (simp add: Test_net_outputs_def)

lemma Test_report_line:
  assumes "Test_report k n sc ids i s = Inr s'"
  shows "k < length (test_nets s) \<and> i < length ids
    \<and> i < length (output_blob_indices (test_nets s ! k)) \<and> n \<noteq> 0
    \<and> s' = emit (Log_Test_net_output i
          (blob_names (test_nets s ! k) ! (output_blob_indices (test_nets s ! k) ! (ids ! i)))
          (sc ! i / of_int n)
          (loss_msg (blob_loss_weights (test_nets s ! k)
                       ! (output_blob_indices (test_nets s ! k) ! i))
             (sc ! i / of_int n))) s"
  using assms
  by (auto simp: Test_report_def Test_output_name_def Test_loss_weight_def ebind_Inr_iff
      vec_at_Inr fdiv_def split: if_splits)

lemma Test_report_loop:
  assumes "for_each xs (Test_report k n sc ids) s = Inr s'"
  shows "test_nets s' = test_nets s
    \<and> (\<forall>i \<in> set xs. i < length (output_blob_indices (test_nets s ! k)))
    \<and> trace s' = trace s @ map (\<lambda>i. Log_Test_net_output i
          (blob_names (test_nets s ! k) ! (output_blob_indices (test_nets s ! k) ! (ids ! i)))
          (sc ! i / of_int n)
          (loss_msg (blob_loss_weights (test_nets s ! k)
                       ! (output_blob_indices (test_nets s ! k) ! i))
             (sc ! i / of_int n))) xs"
  using assms
proof (induction xs arbitrary: s)
  case Nil
  then show ?case by simp
next
  case (Cons i rest)
  from Cons.prems obtain a where a: "Test_report k n sc ids i s = Inr a"
    and r: "for_each rest (Test_report k n sc ids) a = Inr s'"
    by (auto simp: ebind_Inr_iff)
  note l = Test_report_line [OF a]
  have tn: "test_nets a = test_nets s" "trace a = trace s @ [Log_Test_net_output i
          (blob_names (test_nets s ! k) ! (output_blob_indices (test_nets s ! k) ! (ids ! i)))
          (sc ! i / of_int n)
          (loss_msg (blob_loss_weights (test_nets s ! k)
                       ! (output_blob_indices (test_nets s ! k) ! i))
             (sc ! i / of_int n))]"
    using l by (simp_all add: emit_def)
  show ?case
    using Cons.IH [OF r] tn l by simp
qed

lemma length_first_output_ids:
  "length (first_output_ids result) = length (first_scores result)"
proof -
  have "map (\<lambda>j. length (data (result ! j))) [0..<length result]
      = map (\<lambda>b. length (data b)) result"
    by (intro nth_equalityI) simp_all
  then show ?thesis
    by (simp add: first_output_ids_def first_scores_def length_concat comp_def count_def)
qed

lemma Test_iteration_first:
  assumes "Test_iteration ops k 0 (s, loss, [], []) = Inr (s', loss', sc', ids')"
  shows "ids' = first_output_ids (output_blobs (snd (Forward ops (test_nets s ! k))))"
    and "length sc' = length ids'"
    and "Test_net_outputs (trace s') = Test_net_outputs (trace s)"
  using assms
  by (auto simp: Test_iteration_def ebind_Inr_iff vec_at_Inr Let_def split_beta emit_def
      Test_net_outputs_def length_first_output_ids)

lemma Test_iteration_later:
  assumes "Test_iteration ops k i (s, loss, sc, ids) = Inr (s', loss', sc', ids')" "i \<noteq> 0"
  shows "ids' = ids" and "length sc' = length sc"
    and "Test_net_outputs (trace s') = Test_net_outputs (trace s)"
  using assms
  by (auto simp: Test_iteration_def ebind_Inr_iff vec_at_Inr Let_def split_beta emit_def
      Test_net_outputs_def add_scores_def split: if_splits)

lemma Test_iterations:
  assumes "for_each [0..<m] (Test_iteration ops k) (s, 0, [], []) = Inr (s', loss', sc', ids')"
  shows "length sc' = (if 0 < m
      then length (first_output_ids (output_blobs (snd (Forward ops (test_nets s ! k)))))
      else 0)"
    and "0 < m \<longrightarrow> ids' = first_output_ids (output_blobs (snd (Forward ops (test_nets s ! k))))"
    and "Test_net_outputs (trace s') = Test_net_outputs (trace s)"
proof -
  let ?ids = "first_output_ids (output_blobs (snd (Forward ops (test_nets s ! k))))"
  have "length sc' = (if 0 < m then length ?ids else 0) \<and> (0 < m \<longrightarrow> ids' = ?ids)
      \<and> Test_net_outputs (trace s') = Test_net_outputs (trace s)"
  proof (cases m)
    case 0
    then show ?thesis using assms by simp
  next
    case (Suc m')
    then have "[0..<m] = 0 # [Suc 0..<m]"
      by (simp add: upt_conv_Cons)
    with assms obtain a where a: "Test_iteration ops k 0 (s, 0, [], []) = Inr a"
      and rest: "for_each [Suc 0..<m] (Test_iteration ops k) a = Inr (s', loss', sc', ids')"
      by (auto simp: ebind_Inr_iff)
    obtain s1 l1 sc1 ids1 where a': "a = (s1, l1, sc1, ids1)"
      by (cases a) auto
    note f = Test_iteration_first [OF a [unfolded a']]
    let ?P = "\<lambda>(t, l, sc, ids). ids = ?ids \<and> length sc = length ?ids
        \<and> Test_net_outputs (trace t) = Test_net_outputs (trace s)"
    have "?P (s', loss', sc', ids')"
      using rest
    proof (rule for_each_invariant)
      show "?P a" using f by (simp add: a')
    next
      fix i b c
      assume i: "i \<in> set [Suc 0..<m]" and b: "?P b" and c: "Test_iteration ops k i b = Inr c"
      obtain t l sc ids where b': "b = (t, l, sc, ids)" by (cases b) auto
      obtain t' l' sc2 ids2 where c': "c = (t', l', sc2, ids2)" by (cases c) auto
      have "i \<noteq> 0" using i by simp
      then show "?P c"
        using Test_iteration_later [OF c [unfolded b' c']] b by (simp add: b' c')
    qed
    then show ?thesis using Suc by simp
  qed
  then show "length sc' = (if 0 < m then length ?ids else 0)"
    and "0 < m \<longrightarrow> ids' = ?ids"
    and "Test_net_outputs (trace s') = Test_net_outputs (trace s)"
    by simp_all
qed


lemma Test_net_outputs_lines:
  "Test_net_outputs (map (\<lambda>i. Log_Test_net_output (f i) (g i) (h i) (m i)) xs)
     = map (\<lambda>i. Log_Test_net_output (f i) (g i) (h i) (m i)) xs"
  by (induction xs) (simp_all add: Test_net_outputs_def)

lemma Test_stages_iter:
  assumes "Test ops k s = Inr s'"
  obtains s1 loss sc ids s2 s3 where
    "k < length (test_nets s)" "k < length (test_iter (param s))"
    and "for_each [0..<nat (test_iter (param s) ! k)] (Test_iteration ops k)
        ((emit (Log_Testing_net (iter s) k) s)
           \<lparr>caffe_phase := TEST,
             test_nets := (test_nets s)
               [k := Net_ShareTrainedLayersWith (test_nets s ! k) (net s)]\<rparr>, 0, [], [])
        = Inr (s1, loss, sc, ids)"
    and "(if test_compute_loss (param s1)
        then ebind (fdiv loss (of_int (test_iter (param s) ! k)))
               (\<lambda>loss. Inr (emit (Log_Test_loss loss) s1))
        else Inr s1) = Inr s2"
    and "for_each [0..<length sc] (Test_report k (test_iter (param s) ! k) sc ids) s2 = Inr s3"
    and "s' = s3\<lparr>caffe_phase := TRAIN\<rparr>"
  using assms unfolding Test_def Let_def
  by (auto simp: ebind_Inr_iff vec_at_Inr emit_def split: prod.splits)

lemma Test_lines:
  assumes "Test ops k s = Inr s'"
  shows "\<exists>sc.
     length sc =
       (if 0 < test_iter (param s) ! k
        then length (first_output_ids (output_blobs (snd (Forward ops
               (Net_ShareTrainedLayersWith (test_nets s ! k) (net s))))))
        else 0)
     \<and> (\<forall>i<length sc. i < length (output_blob_indices (test_nets s' ! k)))
     \<and> Test_net_outputs (trace s') = Test_net_outputs (trace s) @
         map (\<lambda>i. Log_Test_net_output i
                (blob_names (test_nets s' ! k) ! (output_blob_indices (test_nets s' ! k) !
                   (first_output_ids (output_blobs (snd (Forward ops
                      (Net_ShareTrainedLayersWith (test_nets s ! k) (net s))))) ! i)))
                (sc ! i / of_int (test_iter (param s) ! k))
                (loss_msg (blob_loss_weights (test_nets s' ! k)
                             ! (output_blob_indices (test_nets s' ! k) ! i))
                   (sc ! i / of_int (test_iter (param s) ! k))))
           [0..<length sc]"
proof -
  let ?n = "test_iter (param s) ! k"
  let ?tn0 = "Net_ShareTrainedLayersWith (test_nets s ! k) (net s)"
  let ?s0 = "(emit (Log_Testing_net (iter s) k) s)
           \<lparr>caffe_phase := TEST, test_nets := (test_nets s)[k := ?tn0]\<rparr>"
  let ?ids = "first_output_ids (output_blobs (snd (Forward ops ?tn0)))"
  from assms obtain s1 loss sc ids s2 s3 where
    k: "k < length (test_nets s)"
    and loop: "for_each [0..<nat ?n] (Test_iteration ops k) (?s0, 0, [], [])
        = Inr (s1, loss, sc, ids)"
    and lossline: "(if test_compute_loss (param s1)
        then ebind (fdiv loss (of_int ?n)) (\<lambda>loss. Inr (emit (Log_Test_loss loss) s1))
        else Inr s1) = Inr s2"
    and report: "for_each [0..<length sc] (Test_report k ?n sc ids) s2 = Inr s3"
    and fin: "s' = s3\<lparr>caffe_phase := TRAIN\<rparr>"
    by (rule Test_stages_iter)
  have tn0: "test_nets ?s0 ! k = ?tn0"
    using k by (simp add: emit_def)
  note it = Test_iterations [OF loop, unfolded tn0]
  have len: "length sc = (if 0 < ?n then length ?ids else 0)"
    using it(1) by simp
  have ids: "ids = ?ids" if "sc \<noteq> []"
    using it(1,2) that by (auto split: if_splits)
  have t1: "Test_net_outputs (trace s1) = Test_net_outputs (trace s)"
    using it(3) by (simp add: emit_def Test_net_outputs_def)
  have t2: "Test_net_outputs (trace s2) = Test_net_outputs (trace s1)"
    using lossline
    by (auto simp: ebind_Inr_iff emit_def Test_net_outputs_def split: if_splits)
  note rep = Test_report_loop [OF report]
  have nets: "test_nets s' = test_nets s2"
    using rep fin by simp
  let ?line = "\<lambda>ids i. Log_Test_net_output i
          (blob_names (test_nets s' ! k) ! (output_blob_indices (test_nets s' ! k) ! (ids ! i)))
          (sc ! i / of_int ?n)
          (loss_msg (blob_loss_weights (test_nets s' ! k)
                       ! (output_blob_indices (test_nets s' ! k) ! i))
             (sc ! i / of_int ?n))"
  have tr: "trace s' = trace s2 @ map (?line ids) [0..<length sc]"
    using rep fin by (simp add: nets)
  have same: "map (?line ids) [0..<length sc] = map (?line ?ids) [0..<length sc]"
  proof (cases "sc = []")
    case True
    then show ?thesis by simp
  next
    case False
    then show ?thesis using ids by simp
  qed
  have "Test_net_outputs (trace s') = Test_net_outputs (trace s) @ map (?line ?ids) [0..<length sc]"
    unfolding tr same Test_net_outputs_append t2 t1
    by (simp only: Test_net_outputs_lines)
  moreover have "\<forall>i<length sc. i < length (output_blob_indices (test_nets s' ! k))"
    using rep by (simp add: nets)
  ultimately show ?thesis
    using len by blast
qed

lemma display_scores:
  "for_each vs (\<lambda>v (s, score_index).
       Inr (emit (Log_Train_net_output score_index nm v (loss_msg lw v)) s, Suc score_index))
     (s, k)
   = Inr (s\<lparr>trace := trace s @ map (\<lambda>t. Log_Train_net_output (k + t) nm (vs ! t)
             (loss_msg lw (vs ! t))) [0..<length vs]\<rparr>, k + length vs)"
proof (induction vs arbitrary: s k)
  case Nil
  show ?case by simp
next
  case (Cons v vs)
  have upt: "[0..<Suc (length vs)] = 0 # map Suc [0..<length vs]"
    by (simp add: upt_conv_Cons map_Suc_upt del: upt_Suc)
  show ?case
    using Cons.IH [of "emit (Log_Train_net_output k nm v (loss_msg lw v)) s" "Suc k"]
    by (simp add: emit_def upt comp_def del: upt_Suc)
qed

lemma display_blob_trace:
  assumes "display_blob j (s, k) = Inr (s', k')"
  shows "net s' = net s \<and> k' = k + length (data (output_blobs (net s) ! j))
    \<and> trace s' = trace s @ map (\<lambda>t. Log_Train_net_output (k + t)
          (blob_names (net s) ! (output_blob_indices (net s) ! j))
          (data (output_blobs (net s) ! j) ! t)
          (loss_msg (blob_loss_weights (net s) ! (output_blob_indices (net s) ! j))
             (data (output_blobs (net s) ! j) ! t)))
        [0..<length (data (output_blobs (net s) ! j))]"
  using assms
  by (auto simp: display_blob_def Train_output_name_def Train_loss_weight_def ebind_Inr_iff
      vec_at_Inr Let_def display_scores)

lemma first_scores_snoc: "first_scores (xs @ [b]) = first_scores xs @ data b"
  by (simp add: first_scores_def)

lemma first_output_ids_snoc:
  "first_output_ids (xs @ [b]) = first_output_ids xs @ replicate (count b) (length xs)"
proof -
  have "map (\<lambda>j. replicate (count ((xs @ [b]) ! j)) j) [0..<length xs]
      = map (\<lambda>j. replicate (count (xs ! j)) j) [0..<length xs]"
    by (intro map_cong) (simp_all add: nth_append)
  note eq = this
  show ?thesis
    unfolding first_output_ids_def by (simp add: eq)
qed

lemma lines_append:
  assumes "length ids = length sc"
  shows "map (\<lambda>i. Log_Train_net_output i (nm ((ids @ replicate (length d) j) ! i))
              ((sc @ d) ! i) (msg ((ids @ replicate (length d) j) ! i) ((sc @ d) ! i)))
           [0..<length sc + length d]
     = map (\<lambda>i. Log_Train_net_output i (nm (ids ! i)) (sc ! i) (msg (ids ! i) (sc ! i)))
           [0..<length sc]
       @ map (\<lambda>t. Log_Train_net_output (length sc + t) (nm j) (d ! t) (msg j (d ! t)))
           [0..<length d]"
proof -
  let ?F = "\<lambda>i. Log_Train_net_output i (nm ((ids @ replicate (length d) j) ! i))
              ((sc @ d) ! i) (msg ((ids @ replicate (length d) j) ! i) ((sc @ d) ! i))"
  have "map (\<lambda>t. length sc + t) [0..<length d] = [length sc..<length sc + length d]"
    using map_add_upt [of "length sc" "length d"] by (simp add: add.commute)
  then have split: "[0..<length sc + length d]
      = [0..<length sc] @ map (\<lambda>t. length sc + t) [0..<length d]"
    using upt_add_eq_append [of 0 "length sc" "length d"] by simp
  have a: "map ?F [0..<length sc]
      = map (\<lambda>i. Log_Train_net_output i (nm (ids ! i)) (sc ! i) (msg (ids ! i) (sc ! i)))
          [0..<length sc]"
    by (rule map_cong [OF refl]) (simp add: nth_append assms)
  have b: "map ?F (map (\<lambda>t. length sc + t) [0..<length d])
      = map (\<lambda>t. Log_Train_net_output (length sc + t) (nm j) (d ! t) (msg j (d ! t)))
          [0..<length d]"
    unfolding map_map comp_def
    by (rule map_cong [OF refl]) (simp add: nth_append assms)
  show ?thesis
    unfolding split map_append a b ..
qed

lemma display_loop:
  assumes "for_each [0..<m] display_blob (s, 0) = Inr (s', k')"
    and "m \<le> length (output_blobs (net s))"
  shows "net s' = net s \<and> k' = length (first_scores (take m (output_blobs (net s))))
    \<and> trace s' = trace s @ map (\<lambda>i. Log_Train_net_output i
          (blob_names (net s) ! (output_blob_indices (net s)
             ! (first_output_ids (take m (output_blobs (net s))) ! i)))
          (first_scores (take m (output_blobs (net s))) ! i)
          (loss_msg (blob_loss_weights (net s) ! (output_blob_indices (net s)
             ! (first_output_ids (take m (output_blobs (net s))) ! i)))
             (first_scores (take m (output_blobs (net s))) ! i)))
        [0..<length (first_scores (take m (output_blobs (net s))))]"
  using assms
proof (induction m arbitrary: s' k')
  case 0
  then show ?case by (simp add: first_scores_def)
next
  case (Suc m)
  let ?bs = "output_blobs (net s)"
  let ?nm = "\<lambda>j. blob_names (net s) ! (output_blob_indices (net s) ! j)"
  let ?msg = "\<lambda>j v. loss_msg (blob_loss_weights (net s) ! (output_blob_indices (net s) ! j)) v"
  let ?sc = "first_scores (take m ?bs)" and ?ids = "first_output_ids (take m ?bs)"
  let ?d = "data (?bs ! m)"
  have m: "m < length ?bs" using Suc.prems(2) by simp
  from Suc.prems(1) obtain a ka where a: "for_each [0..<m] display_blob (s, 0) = Inr (a, ka)"
    and step: "display_blob m (a, ka) = Inr (s', k')"
    by (auto simp: for_each_append ebind_Inr_iff)
  have ih: "net a = net s" "ka = length ?sc"
    "trace a = trace s @ map (\<lambda>i. Log_Train_net_output i (?nm (?ids ! i)) (?sc ! i)
        (?msg (?ids ! i) (?sc ! i))) [0..<length ?sc]"
    using Suc.IH [OF a] m by simp_all
  note st = display_blob_trace [OF step, unfolded ih(1)]
  have tk: "take (Suc m) ?bs = take m ?bs @ [?bs ! m]"
    using m by (rule take_Suc_conv_app_nth)
  have sc: "first_scores (take (Suc m) ?bs) = ?sc @ ?d"
    by (simp only: tk first_scores_snoc)
  have ids: "first_output_ids (take (Suc m) ?bs) = ?ids @ replicate (length ?d) m"
    using m by (simp only: tk first_output_ids_snoc) (simp add: count_def)
  have li: "length ?ids = length ?sc"
    by (rule length_first_output_ids)
  have lines: "map (\<lambda>i. Log_Train_net_output i (?nm ((?ids @ replicate (length ?d) m) ! i))
              ((?sc @ ?d) ! i) (?msg ((?ids @ replicate (length ?d) m) ! i) ((?sc @ ?d) ! i)))
           [0..<length ?sc + length ?d]
     = map (\<lambda>i. Log_Train_net_output i (?nm (?ids ! i)) (?sc ! i) (?msg (?ids ! i) (?sc ! i)))
           [0..<length ?sc]
       @ map (\<lambda>t. Log_Train_net_output (length ?sc + t) (?nm m) (?d ! t) (?msg m (?d ! t)))
           [0..<length ?d]"
    using li by (rule lines_append)
  have "net s' = net s" using st ih(1) by simp
  moreover have "k' = length (first_scores (take (Suc m) ?bs))"
    using st ih(2) by (simp add: sc)
  moreover have "trace s' = trace s @ map (\<lambda>i. Log_Train_net_output i
          (?nm (first_output_ids (take (Suc m) ?bs) ! i))
          (first_scores (take (Suc m) ?bs) ! i)
          (?msg (first_output_ids (take (Suc m) ?bs) ! i)
             (first_scores (take (Suc m) ?bs) ! i)))
        [0..<length (first_scores (take (Suc m) ?bs))]"
    unfolding sc ids length_append lines
    using st ih(2,3) by simp
  ultimately show ?case by blast
qed

lemma display_outputs_trace:
  assumes "display_outputs sm s = Inr s'"
  shows "trace s' = trace s @ Log_Iteration_loss (iter s) sm #
      map (\<lambda>i. Log_Train_net_output i
          (blob_names (net s) ! (output_blob_indices (net s)
             ! (first_output_ids (output_blobs (net s)) ! i)))
          (first_scores (output_blobs (net s)) ! i)
          (loss_msg (blob_loss_weights (net s) ! (output_blob_indices (net s)
             ! (first_output_ids (output_blobs (net s)) ! i)))
             (first_scores (output_blobs (net s)) ! i)))
        [0..<length (first_scores (output_blobs (net s)))]"
proof -
  let ?s0 = "emit (Log_Iteration_loss (iter s) sm) s"
  from assms obtain k where
    loop: "for_each [0..<length (output_blobs (net ?s0))] display_blob (?s0, 0) = Inr (s', k)"
    unfolding display_outputs_def Let_def by (auto simp: ebind_Inr_iff split: prod.splits)
  have "net ?s0 = net s" "trace ?s0 = trace s @ [Log_Iteration_loss (iter s) sm]"
    by (simp_all add: emit_def)
  then show ?thesis
    using display_loop [OF loop] by simp
qed

text \<open>
  A solver whose training and evaluation network is \<open>example_eval_net\<close>, and one
  whose networks have the same two outputs with one element each.
\<close>

definition example_reporting :: "nat Solver" where
  "example_reporting =
     Init SGD (example_param\<lparr>test_iter := [1]\<rparr>) example_eval_net [example_eval_net] Map.empty"

definition example_unit_net :: "nat Net" where
  "example_unit_net =
     example_eval_net\<lparr>output_blobs := [\<lparr>data = [1 / 2], diff = [0]\<rparr>, \<lparr>data = [3], diff = [0]\<rparr>]\<rparr>"

definition example_reporting_unit :: "nat Solver" where
  "example_reporting_unit =
     Init SGD (example_param\<lparr>test_iter := [2]\<rparr>) example_unit_net [example_unit_net] Map.empty"

text \<open>
  C10. The report of \<open>Solver::Test\<close> writes one line per score; the line of the score at
  position \<open>i\<close> names the blob \<open>output_blob_indices[test_score_output_id[i]]\<close> of the
  score's output blob and applies the loss weight of the blob \<open>output_blob_indices[i]\<close>,
  read with the position itself. The display branch of \<open>Solve\<close> writes, after the loss
  line, one line per score with the name and the loss weight of the blob
  \<open>output_blob_indices[j]\<close>, \<open>j\<close> the score's output blob. Where every output blob holds
  exactly one element, score \<open>i\<close> belongs to blob \<open>i\<close> and the two lookups agree. In a
  network whose first output blob holds two elements they differ: the display gives
  the score at position 1 the weight 1 of its blob, the report gives it the weight 2 of
  the second output blob, and the report of the score at position 2 reads beyond the
  end of \<open>output_blob_indices\<close>.
\<close>

theorem loss_weight_lookups:
  "(Test ops test_net_id s = Inr s1 \<longrightarrow>
      (\<exists>test_score.
         length test_score =
           (if 0 < test_iter (param s) ! test_net_id
            then length (first_output_ids (output_blobs (snd (Forward ops
                   (Net_ShareTrainedLayersWith (test_nets s ! test_net_id) (net s))))))
            else 0)
         \<and> (\<forall>i<length test_score.
               i < length (output_blob_indices (test_nets s1 ! test_net_id)))
         \<and> Test_net_outputs (trace s1) = Test_net_outputs (trace s) @
             map (\<lambda>i. Log_Test_net_output i
                    (blob_names (test_nets s1 ! test_net_id)
                       ! (output_blob_indices (test_nets s1 ! test_net_id) !
                          (first_output_ids (output_blobs (snd (Forward ops
                             (Net_ShareTrainedLayersWith (test_nets s ! test_net_id) (net s)))))
                           ! i)))
                    (test_score ! i / of_int (test_iter (param s) ! test_net_id))
                    (loss_msg (blob_loss_weights (test_nets s1 ! test_net_id)
                                 ! (output_blob_indices (test_nets s1 ! test_net_id) ! i))
                       (test_score ! i / of_int (test_iter (param s) ! test_net_id))))
               [0..<length test_score]))
   \<and> (display_outputs smoothed_loss s = Inr s2 \<longrightarrow>
        trace s2 = trace s @ Log_Iteration_loss (iter s) smoothed_loss #
          map (\<lambda>i. Log_Train_net_output i
                 (blob_names (net s) ! (output_blob_indices (net s)
                    ! (first_output_ids (output_blobs (net s)) ! i)))
                 (first_scores (output_blobs (net s)) ! i)
                 (loss_msg (blob_loss_weights (net s) ! (output_blob_indices (net s)
                    ! (first_output_ids (output_blobs (net s)) ! i)))
                    (first_scores (output_blobs (net s)) ! i)))
            [0..<length (first_scores (output_blobs (net s)))])
   \<and> ((\<forall>b \<in> set result. count b = 1) \<longrightarrow>
        (\<forall>i < length (first_scores result). first_output_ids result ! i = i))
   \<and> first_scores (output_blobs example_eval_net) = [1 / 2, 1 / 4, 3]
   \<and> first_output_ids (output_blobs example_eval_net) = [0, 0, 1]
   \<and> map_sum id trace (display_outputs 0 example_reporting)
       = Inr [Log_Iteration_loss 0 0,
              Log_Train_net_output 0 ''accuracy'' (1 / 2) (Some (1 / 2)),
              Log_Train_net_output 1 ''accuracy'' (1 / 4) (Some (1 / 4)),
              Log_Train_net_output 2 ''loss'' 3 (Some 6)]
   \<and> map_sum id trace (Test_report 0 1 [1 / 2, 1 / 4, 3] [0, 0, 1] 1 example_reporting)
       = Inr [Log_Test_net_output 1 ''accuracy'' (1 / 4) (Some (1 / 2))]
   \<and> map_sum id trace (Test_report 0 1 [1 / 2, 1 / 4, 3] [0, 0, 1] 2 example_reporting)
       = Inl Out_of_bounds
   \<and> map_sum id trace (Test example_ops 0 example_reporting) = Inl Out_of_bounds"
proof (intro conjI impI allI)
  assume "Test ops test_net_id s = Inr s1"
  then show "\<exists>test_score.
         length test_score =
           (if 0 < test_iter (param s) ! test_net_id
            then length (first_output_ids (output_blobs (snd (Forward ops
                   (Net_ShareTrainedLayersWith (test_nets s ! test_net_id) (net s))))))
            else 0)
         \<and> (\<forall>i<length test_score.
               i < length (output_blob_indices (test_nets s1 ! test_net_id)))
         \<and> Test_net_outputs (trace s1) = Test_net_outputs (trace s) @
             map (\<lambda>i. Log_Test_net_output i
                    (blob_names (test_nets s1 ! test_net_id)
                       ! (output_blob_indices (test_nets s1 ! test_net_id) !
                          (first_output_ids (output_blobs (snd (Forward ops
                             (Net_ShareTrainedLayersWith (test_nets s ! test_net_id) (net s)))))
                           ! i)))
                    (test_score ! i / of_int (test_iter (param s) ! test_net_id))
                    (loss_msg (blob_loss_weights (test_nets s1 ! test_net_id)
                                 ! (output_blob_indices (test_nets s1 ! test_net_id) ! i))
                       (test_score ! i / of_int (test_iter (param s) ! test_net_id))))
               [0..<length test_score]"
    by (rule Test_lines)
next
  assume "display_outputs smoothed_loss s = Inr s2"
  then show "trace s2 = trace s @ Log_Iteration_loss (iter s) smoothed_loss #
          map (\<lambda>i. Log_Train_net_output i
                 (blob_names (net s) ! (output_blob_indices (net s)
                    ! (first_output_ids (output_blobs (net s)) ! i)))
                 (first_scores (output_blobs (net s)) ! i)
                 (loss_msg (blob_loss_weights (net s) ! (output_blob_indices (net s)
                    ! (first_output_ids (output_blobs (net s)) ! i)))
                    (first_scores (output_blobs (net s)) ! i)))
            [0..<length (first_scores (output_blobs (net s)))]"
    by (rule display_outputs_trace)
next
  fix i
  assume unit: "\<forall>b \<in> set result. count b = 1" and i: "i < length (first_scores result)"
  have "i < length result"
    using i first_scores_unit [OF unit] by simp
  then show "first_output_ids result ! i = i"
    using first_output_ids_unit [OF unit] by simp
next
  show "first_scores (output_blobs example_eval_net) = [1 / 2, 1 / 4, 3]"
    by code_simp
  show "first_output_ids (output_blobs example_eval_net) = [0, 0, 1]"
    by code_simp
  show "map_sum id trace (display_outputs 0 example_reporting)
       = Inr [Log_Iteration_loss 0 0,
              Log_Train_net_output 0 ''accuracy'' (1 / 2) (Some (1 / 2)),
              Log_Train_net_output 1 ''accuracy'' (1 / 4) (Some (1 / 4)),
              Log_Train_net_output 2 ''loss'' 3 (Some 6)]"
    by code_simp
  show "map_sum id trace (Test_report 0 1 [1 / 2, 1 / 4, 3] [0, 0, 1] 1 example_reporting)
       = Inr [Log_Test_net_output 1 ''accuracy'' (1 / 4) (Some (1 / 2))]"
    by code_simp
  show "map_sum id trace (Test_report 0 1 [1 / 2, 1 / 4, 3] [0, 0, 1] 2 example_reporting)
       = Inl Out_of_bounds"
    by code_simp
  show "map_sum id trace (Test example_ops 0 example_reporting) = Inl Out_of_bounds"
    by code_simp
qed

theorem loss_weight_lookups_witness:
  "map count (output_blobs example_unit_net) = [1, 1]
   \<and> first_output_ids (output_blobs example_unit_net) = [0, 1]
   \<and> map_sum id (\<lambda>s. length (Test_net_outputs (trace s)))
        (Test example_ops 0 example_reporting_unit) = Inr 2
   \<and> map_sum id (\<lambda>s. Test_net_outputs (trace s)) (Test example_ops 0 example_reporting_unit)
       = Inr [Log_Test_net_output 0 ''accuracy'' (1 / 2) (Some (1 / 2)),
              Log_Test_net_output 1 ''loss'' 3 (Some 6)]
   \<and> map_sum id trace (display_outputs 0 example_reporting_unit)
       = Inr [Log_Iteration_loss 0 0,
              Log_Train_net_output 0 ''accuracy'' (1 / 2) (Some (1 / 2)),
              Log_Train_net_output 1 ''loss'' 3 (Some 6)]"
proof -
  let ?s = example_reporting_unit
  note unit_rule = loss_weight_lookups [where result = "output_blobs example_unit_net",
      THEN conjunct2, THEN conjunct2, THEN conjunct1]
  have n: "net ?s = example_unit_net" "trace ?s = []" "iter ?s = 0"
    by (simp_all add: example_reporting_unit_def Init_def)
  have sc: "first_scores (output_blobs example_unit_net) = [1 / 2, 3]"
    and cnt: "map count (output_blobs example_unit_net) = [1, 1]"
    by (simp_all add: example_unit_net_def first_scores_def count_def)
  have unit: "\<forall>b \<in> set (output_blobs example_unit_net). count b = 1"
    by (simp add: example_unit_net_def count_def)
  have own: "first_output_ids (output_blobs example_unit_net) ! i = i" if "i < 2" for i
    using unit_rule unit that by (simp add: sc)
  have len: "length (first_output_ids (output_blobs example_unit_net)) = 2"
    by (simp add: length_first_output_ids sc)
  have ids: "first_output_ids (output_blobs example_unit_net) = [0, 1]"
    using own [of 0] own [of 1] len
    by (simp add: list_eq_iff_nth_eq less_Suc_eq numeral_2_eq_2)
  have "\<not> isl (display_outputs 0 ?s)"
    by code_simp
  then obtain s2 where s2: "display_outputs 0 ?s = Inr s2"
    by (cases "display_outputs 0 ?s") auto
  have "trace s2 = [Log_Iteration_loss 0 0,
      Log_Train_net_output 0 ''accuracy'' (1 / 2) (Some (1 / 2)),
      Log_Train_net_output 1 ''loss'' 3 (Some 6)]"
    using loss_weight_lookups [where s = ?s and smoothed_loss = 0 and ?s2.0 = s2,
        THEN conjunct2, THEN conjunct1] s2
    by (simp add: n sc ids,
        simp add: upt_rec [of 0] upt_rec [of 1] upt_rec [of "Suc 0"]
          example_unit_net_def example_eval_net_def loss_msg_def)
  then have disp: "map_sum id trace (display_outputs 0 ?s)
       = Inr [Log_Iteration_loss 0 0,
              Log_Train_net_output 0 ''accuracy'' (1 / 2) (Some (1 / 2)),
              Log_Train_net_output 1 ''loss'' 3 (Some 6)]"
    using s2 by simp
  have test: "map_sum id (\<lambda>s. Test_net_outputs (trace s)) (Test example_ops 0 ?s)
       = Inr [Log_Test_net_output 0 ''accuracy'' (1 / 2) (Some (1 / 2)),
              Log_Test_net_output 1 ''loss'' 3 (Some 6)]"
    by code_simp
  have "\<not> isl (Test example_ops 0 ?s)"
    by code_simp
  then obtain s1 where s1: "Test example_ops 0 ?s = Inr s1"
    by (cases "Test example_ops 0 ?s") auto
  have fw: "output_blobs (snd (Forward example_ops
      (Net_ShareTrainedLayersWith (test_nets ?s ! 0) (net ?s)))) = output_blobs example_unit_net"
    by (simp add: example_reporting_unit_def Init_def example_ops_def
        Net_ShareTrainedLayersWith_def)
  have ti: "test_iter (param ?s) ! 0 = 2"
    by (simp add: example_reporting_unit_def Init_def example_param_def)
  have e0: "Test_net_outputs (trace ?s) = []"
    by (simp add: n(2) Test_net_outputs_def)
  have "length (Test_net_outputs (trace s1)) = 2"
    using loss_weight_lookups [where ops = example_ops and test_net_id = 0 and s = ?s
        and ?s1.0 = s1, THEN conjunct1] s1
    by (auto simp: fw ti len e0)
  then have count: "map_sum id (\<lambda>s. length (Test_net_outputs (trace s)))
        (Test example_ops 0 ?s) = Inr 2"
    using s1 by auto
  show ?thesis
    using cnt ids count test disp by simp
qed

end
